theory Spec2Isabelle
  imports Main "HOL-Library.Char_ord" "HOL-Library.List_Lexorder" "HOL-Library.Sublist"
begin

section \<open>Python values used by the converter\<close>

text \<open>
  The development embeds \<^verbatim>\<open>convert_mov_to_mp4.py\<close> and \<^verbatim>\<open>convert_batch.py\<close>.
  A Python string is modelled as a \<^typ>\<open>string\<close>, read as its UTF-8 bytes: the ASCII
  characters the program looks for (slash, dot, the letters of its literals) are single bytes
  that occur nowhere else.

  \<open>py_lower\<close> folds the letters A to Z and leaves every other byte as it is. It stands for
  \<^verbatim>\<open>str.lower\<close> only where the outcome depends on ASCII letters alone: the comparison of an
  answer with \<^verbatim>\<open>'y'\<close> and the match of a name against \<^verbatim>\<open>*.mov\<close> or \<^verbatim>\<open>*.MOV\<close> where \<^verbatim>\<open>glob\<close>
  ignores case (the letters y, m, o and v are the lower case of their capitals and of no
  other character, and no character has an empty lower case). The full case mapping of
  \<^verbatim>\<open>str.lower\<close>, a table of the interpreter, is a parameter of the world (\<open>str_lower\<close> below).
\<close>

type_synonym path = string

datatype exc =
    TypeError
  | ValueError
  | EOFError
  | FileExistsError
  | FileNotFoundError
  | NotADirectoryError
  | PermissionError
  | ZeroDivisionError
  | LibraryError string

datatype pyval = PyStr string | PyBool bool | PyNone

text \<open>\<^verbatim>\<open>str(v)\<close>, which is also what an f-string prints for \<^verbatim>\<open>v\<close>.\<close>

definition py_str :: "pyval \<Rightarrow> string" where
  "py_str v =
     (case v of
        PyStr s \<Rightarrow> s
      | PyBool b \<Rightarrow> if b then ''True'' else ''False''
      | PyNone \<Rightarrow> ''None'')"

definition lower_char :: "char \<Rightarrow> char" where
  "lower_char c =
     (case map_of (zip ''ABCDEFGHIJKLMNOPQRSTUVWXYZ'' ''abcdefghijklmnopqrstuvwxyz'') c of
        None \<Rightarrow> c
      | Some l \<Rightarrow> l)"

definition py_lower :: "string \<Rightarrow> string" where
  "py_lower s = map lower_char s"

definition endswith :: "string \<Rightarrow> string \<Rightarrow> bool" where
  "endswith s suf = (length suf \<le> length s \<and> drop (length s - length suf) s = suf)"

definition startswith :: "string \<Rightarrow> string \<Rightarrow> bool" where
  "startswith s pre = (take (length pre) s = pre)"

definition digit_char :: "nat \<Rightarrow> char" where
  "digit_char d = ''0123456789'' ! d"

function str_nat :: "nat \<Rightarrow> string" where
  "str_nat n = (if n < 10 then [digit_char n] else str_nat (n div 10) @ [digit_char (n mod 10)])"
  by pat_completeness auto
termination
  by (relation "measure id") auto

declare str_nat.simps [simp del]

text \<open>\<^verbatim>\<open>str(os.cpu_count())\<close>: the count is an integer, or \<^verbatim>\<open>None\<close> when it cannot be determined.\<close>

definition str_cpu_count :: "nat option \<Rightarrow> string" where
  "str_cpu_count c = (case c of None \<Rightarrow> ''None'' | Some n \<Rightarrow> str_nat n)"

section \<open>Paths (pathlib, POSIX flavour)\<close>

text \<open>
  A \<^verbatim>\<open>Path\<close> object is its anchor (the root: empty, one slash or two slashes) and the list
  of its components. Parsing drops empty components and single dots, as pathlib does.
\<close>

record ppath =
  anchor :: string
  parts :: "string list"

fun split_sep :: "string \<Rightarrow> string list" where
  "split_sep [] = [[]]"
| "split_sep (c # cs) =
     (if c = CHR ''/'' then [] # split_sep cs
      else (case split_sep cs of [] \<Rightarrow> [[c]] | x # xs \<Rightarrow> (c # x) # xs))"

fun join_sep :: "string list \<Rightarrow> string" where
  "join_sep [] = []"
| "join_sep [x] = x"
| "join_sep (x # y # ys) = x @ ''/'' @ join_sep (y # ys)"

definition Path :: "string \<Rightarrow> ppath" where
  "Path s =
     \<lparr>anchor = (if startswith s ''//'' \<and> \<not> startswith s ''///'' then ''//''
                else if startswith s ''/'' then ''/'' else ''''),
      parts = filter (\<lambda>c. c \<noteq> '''' \<and> c \<noteq> ''.'') (split_sep s)\<rparr>"

definition path_str :: "ppath \<Rightarrow> string" where
  "path_str p =
     (if anchor p = '''' \<and> parts p = [] then ''.'' else anchor p @ join_sep (parts p))"

definition path_name :: "ppath \<Rightarrow> string" where
  "path_name p = (if parts p = [] then '''' else last (parts p))"

definition path_parent :: "ppath \<Rightarrow> ppath" where
  "path_parent p = p\<lparr>parts := butlast (parts p)\<rparr>"

text \<open>\<^verbatim>\<open>str.rfind('.')\<close>: the index of the last dot, if there is one.\<close>

fun rfind_dot :: "string \<Rightarrow> nat option" where
  "rfind_dot [] = None"
| "rfind_dot (c # cs) =
     (case rfind_dot cs of
        Some i \<Rightarrow> Some (Suc i)
      | None \<Rightarrow> if c = CHR ''.'' then Some 0 else None)"

definition name_suffix :: "string \<Rightarrow> string" where
  "name_suffix n =
     (case rfind_dot n of
        None \<Rightarrow> ''''
      | Some i \<Rightarrow> if 0 < i \<and> i < length n - 1 then drop i n else '''')"

definition name_stem :: "string \<Rightarrow> string" where
  "name_stem n =
     (case rfind_dot n of
        None \<Rightarrow> n
      | Some i \<Rightarrow> if 0 < i \<and> i < length n - 1 then take i n else n)"

definition path_suffix :: "ppath \<Rightarrow> string" where
  "path_suffix p = name_suffix (path_name p)"

definition path_stem :: "ppath \<Rightarrow> string" where
  "path_stem p = name_stem (path_name p)"

definition with_suffix :: "ppath \<Rightarrow> string \<Rightarrow> exc + ppath" where
  "with_suffix p suf =
     (if CHR ''/'' \<in> set suf then Inl ValueError
      else if suf = ''.'' then Inl ValueError
      else if suf \<noteq> '''' \<and> \<not> startswith suf ''.'' then Inl ValueError
      else if path_name p = '''' then Inl ValueError
      else Inr (p\<lparr>parts := butlast (parts p) @ [name_stem (path_name p) @ suf]\<rparr>))"

text \<open>\<^verbatim>\<open>p / s\<close>: an absolute right operand replaces the left one.\<close>

definition joinpath :: "ppath \<Rightarrow> string \<Rightarrow> ppath" where
  "joinpath p s =
     (let q = Path s in
      if anchor q \<noteq> '''' then q else \<lparr>anchor = anchor p, parts = parts p @ parts q\<rparr>)"

section \<open>Encoding parameters\<close>

text \<open>
  Lines 100-144 of \<^verbatim>\<open>convert_mov_to_mp4_lossless\<close>: the \<^verbatim>\<open>ffmpeg_params\<close> list and the two
  codec arguments, chosen from the \<^verbatim>\<open>method\<close> string. The last branch is an \<^verbatim>\<open>else\<close>.
\<close>

definition select_ffmpeg_params :: "string \<Rightarrow> nat option \<Rightarrow> string list" where
  "select_ffmpeg_params method cpus =
     (if method = ''lossless'' then
        [''-preset'', ''slow'', ''-crf'', ''0'', ''-threads'', str_cpu_count cpus,
         ''-movflags'', ''+faststart'', ''-pix_fmt'', ''yuv420p'']
      else if method = ''high_quality'' then
        [''-preset'', ''slow'', ''-crf'', ''15'', ''-threads'', str_cpu_count cpus,
         ''-movflags'', ''+faststart'', ''-pix_fmt'', ''yuv420p'']
      else if method = ''copy_streams'' then
        [''-c:v'', ''copy'', ''-c:a'', ''copy'', ''-movflags'', ''+faststart'']
      else
        [''-preset'', ''slow'', ''-crf'', ''18'', ''-threads'', str_cpu_count cpus,
         ''-movflags'', ''+faststart''])"

definition select_video_codec :: "string \<Rightarrow> string option" where
  "select_video_codec method = (if method = ''copy_streams'' then None else Some ''libx264'')"

definition select_audio_codec :: "string \<Rightarrow> string option" where
  "select_audio_codec method = (if method = ''copy_streams'' then None else Some ''aac'')"

text \<open>The value that follows a flag in an ffmpeg argument list.\<close>

fun flag_value :: "string \<Rightarrow> string list \<Rightarrow> string option" where
  "flag_value f [] = None"
| "flag_value f [x] = None"
| "flag_value f (x # y # ys) = (if x = f then Some y else flag_value f (y # ys))"

text \<open>
  The menus of \<^verbatim>\<open>main\<close> (lines 280-289 and 300-308): the stripped answer, \<^verbatim>\<open>'2'\<close> when it
  is empty, is looked up with \<^verbatim>\<open>method_map.get(method_choice, 'high_quality')\<close>.
\<close>

definition method_map_file :: "(string \<times> string) list" where
  "method_map_file =
     [(''1'', ''copy_streams''), (''2'', ''high_quality''),
      (''3'', ''lossless''), (''4'', ''standard_high'')]"

definition method_map_folder :: "(string \<times> string) list" where
  "method_map_folder =
     [(''1'', ''copy_streams''), (''2'', ''high_quality''), (''3'', ''lossless'')]"

definition menu_method :: "(string \<times> string) list \<Rightarrow> string \<Rightarrow> string" where
  "menu_method method_map answer =
     (let method_choice = (if answer = '''' then ''2'' else answer) in
      case map_of method_map method_choice of None \<Rightarrow> ''high_quality'' | Some m \<Rightarrow> m)"

section \<open>The world: file system, console and transcoding library\<close>

text \<open>
  What the scripts print is kept as a list of messages, one constructor per \<^verbatim>\<open>print\<close> (or
  group of adjacent ones), named after what it says; the comments give the source lines.
  Wall-clock readings (\<^verbatim>\<open>time.time()\<close>) and the figures derived from them are not modelled.
\<close>

datatype banner = Banner_lossless | Banner_crf15 | Banner_copy | Banner_crf18

datatype message =
    Msg_input_not_found path              \<comment> \<open>line 66\<close>
  | Msg_prompt_overwrite string           \<comment> \<open>line 76, the prompt of \<^verbatim>\<open>input\<close>\<close>
  | Msg_skipping                          \<comment> \<open>line 78\<close>
  | Msg_start string                      \<comment> \<open>line 81\<close>
  | Msg_output_file string                \<comment> \<open>line 82\<close>
  | Msg_method string                     \<comment> \<open>line 83\<close>
  | Msg_loading                           \<comment> \<open>line 86\<close>
  | Msg_clip_info                         \<comment> \<open>line 93\<close>
  | Msg_estimate                          \<comment> \<open>line 98\<close>
  | Msg_mode banner                       \<comment> \<open>lines 109, 119, 127, 136\<close>
  | Msg_converting                        \<comment> \<open>lines 146-147\<close>
  | Msg_finished                          \<comment> \<open>lines 165-166\<close>
  | Msg_input_size nat                    \<comment> \<open>line 167\<close>
  | Msg_output_size nat                   \<comment> \<open>line 168\<close>
  | Msg_ratio nat nat                     \<comment> \<open>line 174\<close>
  | Msg_speed                             \<comment> \<open>line 178\<close>
  | Msg_error exc                         \<comment> \<open>line 183\<close>
  | Msg_listing_header                    \<comment> \<open>line 192\<close>
  | Msg_listing_line nat string nat       \<comment> \<open>line 197\<close>
  | Msg_listing_total nat                 \<comment> \<open>line 199\<close>
  | Msg_no_mov_files                      \<comment> \<open>line 219\<close>
  | Msg_will_process nat                  \<comment> \<open>line 222\<close>
  | Msg_prompt_continue                   \<comment> \<open>line 225, the prompt of \<^verbatim>\<open>input\<close>\<close>
  | Msg_cancelled                         \<comment> \<open>line 227\<close>
  | Msg_processing nat nat string         \<comment> \<open>lines 234-236; convert\_batch.py 60-62\<close>
  | Msg_file_done nat nat                 \<comment> \<open>line 242; convert\_batch.py 76\<close>
  | Msg_file_failed nat nat               \<comment> \<open>line 244; convert\_batch.py 78\<close>
  | Msg_summary nat nat                   \<comment> \<open>lines 247-248; convert\_batch.py 86-94\<close>
  | Msg_all_converted                     \<comment> \<open>line 251; convert\_batch.py 97\<close>
  | Msg_some_failed nat                   \<comment> \<open>line 253; convert\_batch.py 99\<close>
  | Msg_none_converted                    \<comment> \<open>convert\_batch.py 101\<close>
  | Msg_batch_header                      \<comment> \<open>convert\_batch.py 32-37\<close>
  | Msg_missing "string list"             \<comment> \<open>convert\_batch.py 47-49\<close>
  | Msg_all_found nat                     \<comment> \<open>convert\_batch.py 52-53\<close>

text \<open>
  The transcoding library (moviepy) is a parameter: \<open>open_clip\<close> is \<^verbatim>\<open>VideoFileClip(input_path)\<close>
  and \<open>write_clip\<close> is \<^verbatim>\<open>video_clip.write_videofile(...)\<close>. Either may raise; writing may
  change the files, also when it raises.
\<close>

record request =
  req_output :: path
  req_codec :: "string option"
  req_audio_codec :: "string option"
  req_ffmpeg_params :: "string list"

record service =
  open_clip :: "path \<Rightarrow> (path \<rightharpoonup> string) \<Rightarrow> exc option"
  write_clip :: "path \<Rightarrow> request \<Rightarrow> (path \<rightharpoonup> string) \<Rightarrow> exc option \<times> (path \<rightharpoonup> string)"

datatype svc_call = Open_clip path | Write_videofile path request

text \<open>
  The world is what the operating system and the interpreter answer. \<open>files\<close> and \<open>dirs\<close>
  say, for a path as the program writes it, whether it names a regular file (and with which
  contents) or a directory; \<open>dir_size\<close> is the size the system reports for a directory.
  \<open>scandir\<close> gives the entry names of a directory in the order the system lists them and
  \<open>realpath\<close> what \<^verbatim>\<open>Path.resolve\<close> returns. \<open>mkdir_error\<close> is the system's answer to the
  creation of a directory that is not there yet and whose parent is: \<open>None\<close> when it is
  created, or the error (no permission, a read-only file system, a dangling link of that name).
  \<open>fd_open\<close> says which file descriptors are open (a truth value passed where a path is
  expected is taken as one). \<open>str_lower\<close> is \<^verbatim>\<open>str.lower\<close>. \<open>stdin\<close> holds the lines still to
  be read.
\<close>

record world =
  files :: "path \<rightharpoonup> string"
  dirs :: "path set"
  dir_size :: "path \<Rightarrow> nat"
  scandir :: "path \<Rightarrow> string list"
  realpath :: "path \<Rightarrow> path"
  mkdir_error :: "path \<Rightarrow> exc option"
  fd_open :: "nat \<Rightarrow> bool"
  str_lower :: "string \<Rightarrow> string"
  glob_case_sensitive :: bool
  cpu_count :: "nat option"
  stdin :: "string list"
  out :: "message list"
  svc_calls :: "svc_call list"

definition say :: "message \<Rightarrow> world \<Rightarrow> world" where
  "say m w = w\<lparr>out := out w @ [m]\<rparr>"

definition path_exists :: "world \<Rightarrow> path \<Rightarrow> bool" where
  "path_exists w p = (case files w p of Some content \<Rightarrow> True | None \<Rightarrow> p \<in> dirs w)"

text \<open>\<^verbatim>\<open>os.path.getsize\<close> and \<^verbatim>\<open>Path.stat().st_size\<close>.\<close>

definition getsize :: "world \<Rightarrow> path \<Rightarrow> exc + nat" where
  "getsize w p =
     (case files w p of
        Some content \<Rightarrow> Inr (length content)
      | None \<Rightarrow> if p \<in> dirs w then Inr (dir_size w p) else Inl FileNotFoundError)"

text \<open>\<^verbatim>\<open>os.path.basename\<close>: what follows the last slash.\<close>

definition basename :: "path \<Rightarrow> string" where
  "basename p = last (split_sep p)"

text \<open>
  \<^verbatim>\<open>os.makedirs(name, exist_ok=True)\<close>. The empty name is an error, a name that is a directory
  is left alone, a name that is a regular file is an error. Otherwise the components of the
  name are walked from its root: a single dot stays, two dots go up, a component that is a
  directory is entered, a regular file in the way is an error (\<^verbatim>\<open>FileExistsError\<close> when it is
  the last component, \<^verbatim>\<open>NotADirectoryError\<close> when something follows), and a component that is
  not there is created, unless the system refuses: it becomes a directory and an entry of its
  parent's listing.

  The walk names a directory as \<^verbatim>\<open>Path\<close> does, by its root and components, and this is the
  spelling under which the world learns of a new directory, next to the name as given. The
  system lists a new entry where it likes; here it comes last. Symbolic links are not
  followed: going up from a component leads back to where the walk came from.
\<close>

definition go_up :: "string \<Rightarrow> string list \<Rightarrow> string list" where
  "go_up root cur =
     (if cur = [] \<or> last cur = ''..'' then (if root = '''' then cur @ [''..''] else cur)
      else butlast cur)"

fun makedirs_walk :: "string \<Rightarrow> string list \<Rightarrow> string list \<Rightarrow> world \<Rightarrow> exc + world" where
  "makedirs_walk root cur [] w = Inr w"
| "makedirs_walk root cur (c # rest) w =
     (if c = ''.'' then makedirs_walk root cur rest w
      else if c = ''..'' then makedirs_walk root (go_up root cur) rest w
      else
        let parent = path_str \<lparr>anchor = root, parts = cur\<rparr>;
            here = path_str \<lparr>anchor = root, parts = cur @ [c]\<rparr>
        in if here \<in> dirs w then makedirs_walk root (cur @ [c]) rest w
           else if files w here \<noteq> None then
             Inl (if rest = [] then FileExistsError else NotADirectoryError)
           else
             (case mkdir_error w here of
                Some e \<Rightarrow> Inl e
              | None \<Rightarrow>
                  makedirs_walk root (cur @ [c]) rest
                    (w\<lparr>dirs := insert here (dirs w),
                       scandir := (scandir w)(parent := scandir w parent @ [c])\<rparr>)))"

definition makedirs :: "path \<Rightarrow> world \<Rightarrow> exc + world" where
  "makedirs name w =
     (if name = '''' then Inl FileNotFoundError
      else if name \<in> dirs w then Inr w
      else if files w name \<noteq> None then Inl FileExistsError
      else
        (case makedirs_walk (anchor (Path name)) []
                (filter (\<lambda>c. c \<noteq> '''') (split_sep name)) w of
           Inl e \<Rightarrow> Inl e
         | Inr w' \<Rightarrow> Inr (w'\<lparr>dirs := insert name (dirs w')\<rparr>)))"

subsection \<open>Statements that may raise\<close>

type_synonym 'a stmt = "world \<Rightarrow> (exc + 'a) \<times> world"

definition then_do :: "'a stmt \<Rightarrow> ('a \<Rightarrow> 'b stmt) \<Rightarrow> 'b stmt" where
  "then_do m f w = (case m w of (Inl e, w') \<Rightarrow> (Inl e, w') | (Inr a, w') \<Rightarrow> f a w')"

definition done_with :: "'a \<Rightarrow> 'a stmt" where
  "done_with a w = (Inr a, w)"

definition raise :: "exc \<Rightarrow> 'a stmt" where
  "raise e w = (Inl e, w)"

definition print :: "message \<Rightarrow> unit stmt" where
  "print m w = (Inr (), say m w)"

definition lift :: "(world \<Rightarrow> exc + 'a) \<Rightarrow> 'a stmt" where
  "lift f w = (f w, w)"

text \<open>\<^verbatim>\<open>input(prompt)\<close>: writes the prompt, reads one line; \<^verbatim>\<open>EOFError\<close> at end of input.\<close>

definition py_input :: "message \<Rightarrow> string stmt" where
  "py_input prompt w =
     (case stdin w of
        [] \<Rightarrow> (Inl EOFError, say prompt w)
      | l # ls \<Rightarrow> (Inr l, (say prompt w)\<lparr>stdin := ls\<rparr>))"

definition call_open_clip :: "service \<Rightarrow> path \<Rightarrow> unit stmt" where
  "call_open_clip svc input_path w =
     (let w' = w\<lparr>svc_calls := svc_calls w @ [Open_clip input_path]\<rparr> in
      case open_clip svc input_path (files w) of
        Some e \<Rightarrow> (Inl e, w')
      | None \<Rightarrow> (Inr (), w'))"

definition call_write_videofile :: "service \<Rightarrow> path \<Rightarrow> request \<Rightarrow> unit stmt" where
  "call_write_videofile svc input_path req w =
     (let (r, fs) = write_clip svc input_path req (files w);
          w' = w\<lparr>files := fs, svc_calls := svc_calls w @ [Write_videofile input_path req]\<rparr>
      in case r of Some e \<Rightarrow> (Inl e, w') | None \<Rightarrow> (Inr (), w'))"

section \<open>File discovery\<close>

text \<open>
  \<^verbatim>\<open>folder.glob(pattern)\<close> for a pattern that is a star followed by literal characters, the
  only kind the program uses: the entries whose name ends with these characters. pathlib
  compares case-sensitively on POSIX and case-insensitively on Windows.
\<close>

definition fnmatch :: "bool \<Rightarrow> string \<Rightarrow> string \<Rightarrow> bool" where
  "fnmatch case_sensitive name pattern =
     (case pattern of
        [] \<Rightarrow> name = []
      | c # ext \<Rightarrow>
          if c = CHR ''*'' then
            (if case_sensitive then endswith name ext
             else endswith (py_lower name) (py_lower ext))
          else (if case_sensitive then name = pattern else py_lower name = py_lower pattern))"

definition child :: "ppath \<Rightarrow> string \<Rightarrow> ppath" where
  "child folder name = \<lparr>anchor = anchor folder, parts = parts folder @ [name]\<rparr>"

definition glob :: "world \<Rightarrow> ppath \<Rightarrow> string \<Rightarrow> ppath list" where
  "glob w folder pattern =
     map (child folder)
       (filter (\<lambda>name. fnmatch (glob_case_sensitive w) name pattern)
          (scandir w (path_str folder)))"

text \<open>
  Lines 41-45: \<^verbatim>\<open>unique_files\<close> is a dictionary, which keeps its keys in the order of their
  first insertion; it is modelled as an association list that is only ever extended at the end.
  The key of line 43 is \<^verbatim>\<open>str(file.resolve()).lower()\<close>.
\<close>

fun unique_loop :: "world \<Rightarrow> ppath list \<Rightarrow> (string \<times> ppath) list \<Rightarrow> (string \<times> ppath) list" where
  "unique_loop w [] unique_files = unique_files"
| "unique_loop w (file # rest) unique_files =
     (let abs_path = str_lower w (realpath w (path_str file)) in
      if abs_path \<notin> set (map fst unique_files)
      then unique_loop w rest (unique_files @ [(abs_path, file)])
      else unique_loop w rest unique_files)"

text \<open>Lines 34-38: the second pattern is tried only when the first finds nothing.\<close>

definition glob_mov_files :: "world \<Rightarrow> ppath \<Rightarrow> ppath list" where
  "glob_mov_files w folder =
     (let mov_files = glob w folder ''*.mov'' in
      if mov_files = [] then glob w folder ''*.MOV'' else mov_files)"

definition get_unique_mov_files :: "world \<Rightarrow> path \<Rightarrow> ppath list" where
  "get_unique_mov_files w folder_path =
     (let folder = Path folder_path;
          mov_files = glob_mov_files w folder
      in map snd (unique_loop w mov_files []))"

section \<open>Converting one file\<close>

definition mode_banner :: "string \<Rightarrow> banner" where
  "mode_banner method =
     (if method = ''lossless'' then Banner_lossless
      else if method = ''high_quality'' then Banner_crf15
      else if method = ''copy_streams'' then Banner_copy
      else Banner_crf18)"

text \<open>Lines 70-72: the output path, when the caller gave none.\<close>

definition default_output :: "path \<Rightarrow> exc + ppath" where
  "default_output input_path = with_suffix (Path input_path) ''.mp4''"

definition resolve_output :: "path \<Rightarrow> path option \<Rightarrow> path stmt" where
  "resolve_output input_path output_path =
     (case output_path of
        Some p \<Rightarrow> done_with p
      | None \<Rightarrow>
          (case default_output input_path of
             Inl e \<Rightarrow> raise e
           | Inr q \<Rightarrow> done_with (path_str q)))"

text \<open>
  Lines 165-180: the report after the file has been written. The size ratio divides by the size
  of the input, which may be 0; the speed of line 177 divides by the elapsed time, which is not
  modelled and is taken to be positive.
\<close>

definition report :: "path \<Rightarrow> path \<Rightarrow> bool stmt" where
  "report input_path output_path =
     then_do (print Msg_finished) (\<lambda>_.
     then_do (lift (\<lambda>w. getsize w input_path)) (\<lambda>size_in.
     then_do (print (Msg_input_size size_in)) (\<lambda>_.
     then_do (lift (\<lambda>w. getsize w output_path)) (\<lambda>size_out.
     then_do (print (Msg_output_size size_out)) (\<lambda>_.
     then_do (lift (\<lambda>w. getsize w input_path)) (\<lambda>original_size.
     then_do (lift (\<lambda>w. getsize w output_path)) (\<lambda>converted_size.
     if original_size = 0 then raise ZeroDivisionError
     else
       then_do (print (Msg_ratio converted_size original_size)) (\<lambda>_.
       then_do (print Msg_speed) (\<lambda>_.
       done_with True)))))))))"

text \<open>
  Lines 81-163: loading the clip, choosing the parameters, writing the output. Closing the clip
  (line 163) changes nothing that the model keeps.
\<close>

definition transcode :: "service \<Rightarrow> path \<Rightarrow> path \<Rightarrow> string \<Rightarrow> bool stmt" where
  "transcode svc input_path output_path method =
     then_do (print (Msg_start (basename input_path))) (\<lambda>_.
     then_do (print (Msg_output_file (basename output_path))) (\<lambda>_.
     then_do (print (Msg_method method)) (\<lambda>_.
     then_do (print Msg_loading) (\<lambda>_.
     then_do (call_open_clip svc input_path) (\<lambda>_.
     then_do (print Msg_clip_info) (\<lambda>_.
     then_do (lift (\<lambda>w. getsize w input_path)) (\<lambda>file_size.
     then_do (print Msg_estimate) (\<lambda>_.
     then_do (lift (\<lambda>w. Inr (select_ffmpeg_params method (cpu_count w)))) (\<lambda>ffmpeg_params.
     then_do (print (Msg_mode (mode_banner method))) (\<lambda>_.
     then_do (print Msg_converting) (\<lambda>_.
     then_do (call_write_videofile svc input_path
                \<lparr>req_output = output_path,
                 req_codec = select_video_codec method,
                 req_audio_codec = select_audio_codec method,
                 req_ffmpeg_params = ffmpeg_params\<rparr>) (\<lambda>_.
     report input_path output_path))))))))))))"

text \<open>Lines 64-180, the body of the \<^verbatim>\<open>try\<close>.\<close>

definition convert_body :: "service \<Rightarrow> path \<Rightarrow> path option \<Rightarrow> string \<Rightarrow> bool stmt" where
  "convert_body svc input_path output_path method w =
     (if \<not> path_exists w input_path then
        then_do (print (Msg_input_not_found input_path)) (\<lambda>_. done_with False) w
      else
        then_do (resolve_output input_path output_path) (\<lambda>output_path w1.
          if path_exists w1 output_path then
            then_do (py_input (Msg_prompt_overwrite (basename output_path))) (\<lambda>response.
              if py_lower response \<noteq> ''y'' then
                then_do (print Msg_skipping) (\<lambda>_. done_with True)
              else transcode svc input_path output_path method) w1
          else transcode svc input_path output_path method w1) w)"

text \<open>
  The function itself: \<^verbatim>\<open>except Exception\<close> turns whatever the body raised into the result
  \<^verbatim>\<open>False\<close>, so the function always returns a truth value.
\<close>

definition convert_mov_to_mp4_lossless ::
    "service \<Rightarrow> path \<Rightarrow> path option \<Rightarrow> string \<Rightarrow> world \<Rightarrow> bool \<times> world" where
  "convert_mov_to_mp4_lossless svc input_path output_path method w =
     (case convert_body svc input_path output_path method w of
        (Inr result, w') \<Rightarrow> (result, w')
      | (Inl e, w') \<Rightarrow> (False, say (Msg_error e) w'))"

section \<open>Converting a folder\<close>

text \<open>Lines 194-197: one line per file, each needing \<^verbatim>\<open>file.stat()\<close>, which may raise.\<close>

fun list_loop :: "nat \<Rightarrow> ppath list \<Rightarrow> unit stmt" where
  "list_loop i [] w = done_with () w"
| "list_loop i (file # rest) w =
     then_do (lift (\<lambda>w. getsize w (path_str file))) (\<lambda>size.
     then_do (print (Msg_listing_line i (path_name file) size)) (\<lambda>_.
     list_loop (Suc i) rest)) w"

definition list_mov_files :: "path \<Rightarrow> ppath list stmt" where
  "list_mov_files folder_path w =
     (let mov_files = get_unique_mov_files w folder_path in
      if mov_files \<noteq> [] then
        then_do (print Msg_listing_header) (\<lambda>_.
        then_do (list_loop 1 (sort_key path_name mov_files)) (\<lambda>_.
        then_do (print (Msg_listing_total (length mov_files))) (\<lambda>_.
        done_with mov_files))) w
      else done_with mov_files w)"

text \<open>
  Lines 233-244, the loop over \<^verbatim>\<open>enumerate(mov_files, 1)\<close>; \<open>n\<close> is \<^verbatim>\<open>len(mov_files)\<close> and
  the state carries \<^verbatim>\<open>success_count\<close>. The three arguments of the call are positional.
\<close>

fun batch_loop ::
    "service \<Rightarrow> path \<Rightarrow> string \<Rightarrow> nat \<Rightarrow> nat \<Rightarrow> ppath list \<Rightarrow> nat \<times> world \<Rightarrow> nat \<times> world" where
  "batch_loop svc output_folder method n i [] (success_count, w) = (success_count, w)"
| "batch_loop svc output_folder method n i (mov_file # rest) (success_count, w) =
     (let w1 = say (Msg_processing i n (path_name mov_file)) w;
          output_file = joinpath (Path output_folder) (path_stem mov_file @ ''.mp4'');
          (ok, w2) = convert_mov_to_mp4_lossless svc (path_str mov_file)
                       (Some (path_str output_file)) method w1
      in if ok then
           batch_loop svc output_folder method n (Suc i) rest
             (Suc success_count, say (Msg_file_done i n) w2)
         else
           batch_loop svc output_folder method n (Suc i) rest
             (success_count, say (Msg_file_failed i n) w2))"

text \<open>
  The function returns \<^verbatim>\<open>None\<close> on each of its three ways out; the model says which one was
  taken, and with which tally (\<^verbatim>\<open>success_count\<close> and \<^verbatim>\<open>len(mov_files)\<close> of line 247).
\<close>

datatype batch_outcome = No_files | Cancelled | Completed nat nat

definition final_remark :: "nat \<Rightarrow> nat \<Rightarrow> unit stmt" where
  "final_remark success_count n =
     (if success_count = n then print Msg_all_converted
      else if success_count > 0 then print (Msg_some_failed (n - success_count))
      else done_with ())"

definition batch_convert_lossless ::
    "service \<Rightarrow> path \<Rightarrow> path option \<Rightarrow> string \<Rightarrow> batch_outcome stmt" where
  "batch_convert_lossless svc input_folder output_folder method =
     (let output_folder = (case output_folder of None \<Rightarrow> input_folder | Some d \<Rightarrow> d) in
      then_do (\<lambda>w. case makedirs output_folder w of
                      Inl e \<Rightarrow> (Inl e, w)
                    | Inr w' \<Rightarrow> (Inr (), w')) (\<lambda>_.
      then_do (list_mov_files input_folder) (\<lambda>mov_files.
      if mov_files = [] then
        then_do (print Msg_no_mov_files) (\<lambda>_. done_with No_files)
      else
        then_do (print (Msg_will_process (length mov_files))) (\<lambda>_.
        then_do (py_input Msg_prompt_continue) (\<lambda>response.
        if py_lower response \<noteq> ''y'' then
          then_do (print Msg_cancelled) (\<lambda>_. done_with Cancelled)
        else
          (\<lambda>w. let (success_count, w') =
                     batch_loop svc output_folder method (length mov_files) 1 mov_files (0, w)
                in then_do (print (Msg_summary success_count (length mov_files))) (\<lambda>_.
                   then_do (final_remark success_count (length mov_files)) (\<lambda>_.
                   done_with (Completed success_count (length mov_files)))) w'))))))"

section \<open>The fixed list of convert\_batch.py\<close>

text \<open>
  Binding the arguments of a call to the parameters of a \<^verbatim>\<open>def\<close>: positional arguments fill
  the parameters from the left, keyword arguments by name, defaults fill what is left. Too many
  positional arguments, a keyword that names no parameter or one already filled, and a
  parameter left without a value each raise \<^verbatim>\<open>TypeError\<close> before the body starts.
\<close>

definition bind_arguments ::
    "string list \<Rightarrow> (string \<times> pyval) list \<Rightarrow> pyval list \<Rightarrow> (string \<times> pyval) list
       \<Rightarrow> exc + (string \<times> pyval) list" where
  "bind_arguments names defaults args kwargs =
     (if length args > length names then Inl TypeError
      else
        let positional = zip names args in
        if list_ex (\<lambda>k. k \<notin> set names) (map fst kwargs) then Inl TypeError
        else if list_ex (\<lambda>k. k \<in> set (map fst positional)) (map fst kwargs) then Inl TypeError
        else
          let bound = positional @ kwargs @ defaults in
          if list_ex (\<lambda>name. map_of bound name = None) names then Inl TypeError
          else Inr bound)"

text \<open>
  Line 50 of convert\_mov\_to\_mp4.py:
  \<^verbatim>\<open>def convert_mov_to_mp4_lossless(input_path, output_path=None, method='high_quality')\<close>.
\<close>

definition convert_parameters :: "string list" where
  "convert_parameters = [''input_path'', ''output_path'', ''method'']"

definition convert_defaults :: "(string \<times> pyval) list" where
  "convert_defaults = [(''output_path'', PyNone), (''method'', PyStr ''high_quality'')]"

text \<open>
  The body does not check what it is given. \<^verbatim>\<open>os.path.exists\<close> takes a truth value for a
  file descriptor (\<^verbatim>\<open>False\<close> is 0, \<^verbatim>\<open>True\<close> is 1) and raises \<^verbatim>\<open>TypeError\<close> for \<^verbatim>\<open>None\<close>;
  \<^verbatim>\<open>Path\<close> and \<^verbatim>\<open>os.path.basename\<close> raise \<^verbatim>\<open>TypeError\<close> for both.
\<close>

definition os_path_exists :: "world \<Rightarrow> pyval \<Rightarrow> exc + bool" where
  "os_path_exists w v =
     (case v of
        PyStr p \<Rightarrow> Inr (path_exists w p)
      | PyBool b \<Rightarrow> Inr (fd_open w (if b then 1 else 0))
      | PyNone \<Rightarrow> Inl TypeError)"

definition os_path_basename :: "pyval \<Rightarrow> exc + string" where
  "os_path_basename v =
     (case v of
        PyStr p \<Rightarrow> Inr (basename p)
      | PyBool b \<Rightarrow> Inl TypeError
      | PyNone \<Rightarrow> Inl TypeError)"

text \<open>
  Lines 64-82 for a pair of paths of which one is not a string (a string input with the output
  left out is not such a pair). Line 71 is then reached only with an input that is a truth
  value, and one of lines 81 and 82 raises at the latest, so the last line below stands for
  code that is never reached.
\<close>

definition ill_typed_body :: "pyval \<Rightarrow> pyval \<Rightarrow> bool stmt" where
  "ill_typed_body input_path output_path =
     then_do (lift (\<lambda>w. os_path_exists w input_path)) (\<lambda>found.
     if \<not> found then
       then_do (print (Msg_input_not_found (py_str input_path))) (\<lambda>_. done_with False)
     else
       then_do (if output_path = PyNone then raise TypeError
                else done_with output_path) (\<lambda>output_path.
       then_do (lift (\<lambda>w. os_path_exists w output_path)) (\<lambda>present.
       then_do (if present then
                  then_do (lift (\<lambda>w. os_path_basename output_path)) (\<lambda>name.
                  then_do (py_input (Msg_prompt_overwrite name)) (\<lambda>response.
                  done_with (py_lower response \<noteq> ''y'')))
                else done_with False) (\<lambda>skip.
       if skip then
         then_do (print Msg_skipping) (\<lambda>_. done_with True)
       else
         then_do (lift (\<lambda>w. os_path_basename input_path)) (\<lambda>name.
         then_do (print (Msg_start name)) (\<lambda>_.
         then_do (lift (\<lambda>w. os_path_basename output_path)) (\<lambda>name.
         raise TypeError)))))))"

text \<open>
  The function for arbitrary values of its two paths. The mode is only printed and compared
  with three strings, none of them the text of a truth value or of \<^verbatim>\<open>None\<close>, so it is taken
  as the text \<^verbatim>\<open>str\<close> makes of it.
\<close>

definition convert_any ::
    "service \<Rightarrow> pyval \<Rightarrow> pyval \<Rightarrow> string \<Rightarrow> world \<Rightarrow> bool \<times> world" where
  "convert_any svc input_path output_path method w =
     (case (input_path, output_path) of
        (PyStr i, PyNone) \<Rightarrow> convert_mov_to_mp4_lossless svc i None method w
      | (PyStr i, PyStr p) \<Rightarrow> convert_mov_to_mp4_lossless svc i (Some p) method w
      | _ \<Rightarrow>
          (case ill_typed_body input_path output_path w of
             (Inr result, w') \<Rightarrow> (result, w')
           | (Inl e, w') \<Rightarrow> (False, say (Msg_error e) w')))"

text \<open>
  A call of the function: the arguments are bound, then the body runs. After a successful
  binding each of the three parameters has a value.
\<close>

definition call_convert ::
    "service \<Rightarrow> pyval list \<Rightarrow> (string \<times> pyval) list \<Rightarrow> bool stmt" where
  "call_convert svc args kwargs w =
     (case bind_arguments convert_parameters convert_defaults args kwargs of
        Inl e \<Rightarrow> (Inl e, w)
      | Inr bound \<Rightarrow>
          (case (map_of bound ''input_path'', map_of bound ''output_path'',
                 map_of bound ''method'') of
             (Some input_path, Some output_path, Some method) \<Rightarrow>
               (case convert_any svc input_path output_path (py_str method) w of
                  (ok, w') \<Rightarrow> (Inr ok, w'))
           | _ \<Rightarrow> (Inl TypeError, w)))"

definition files_to_convert :: "string list" where
  "files_to_convert = [''16_9.MOV'', ''1_1.MOV'', ''9_16.MOV'']"

text \<open>convert\_batch.py, lines 59-78. Nothing catches what the call raises.\<close>

fun fixed_loop ::
    "service \<Rightarrow> ppath \<Rightarrow> nat \<Rightarrow> nat \<Rightarrow> string list \<Rightarrow> nat \<Rightarrow> nat stmt" where
  "fixed_loop svc current_dir n i [] success_count w = done_with success_count w"
| "fixed_loop svc current_dir n i (filename # rest) success_count w =
     then_do (print (Msg_processing i n filename)) (\<lambda>_.
     then_do (call_convert svc
                [PyStr (path_str (joinpath current_dir filename)),
                 PyStr (path_str (joinpath current_dir (path_stem (Path filename) @ ''.mp4'')))]
                [(''method'', PyStr ''high_quality''), (''remove_audio'', PyBool True)]) (\<lambda>ok.
     if ok then
       then_do (print (Msg_file_done i n)) (\<lambda>_.
       fixed_loop svc current_dir n (Suc i) rest (Suc success_count))
     else
       then_do (print (Msg_file_failed i n)) (\<lambda>_.
       fixed_loop svc current_dir n (Suc i) rest success_count))) w"

datatype fixed_outcome = Missing_inputs "string list" | Fixed_completed nat nat

text \<open>
  convert\_batch.py, \<^verbatim>\<open>main\<close>; \<open>current_dir\<close> is \<^verbatim>\<open>Path(__file__).parent\<close>. As above, the model
  says which \<^verbatim>\<open>return\<close> was taken.
\<close>

definition convert_batch_main :: "service \<Rightarrow> ppath \<Rightarrow> fixed_outcome stmt" where
  "convert_batch_main svc current_dir =
     then_do (print Msg_batch_header) (\<lambda>_ w.
       let missing_files =
             filter (\<lambda>file. \<not> path_exists w (path_str (joinpath current_dir file)))
               files_to_convert;
           n = length files_to_convert
       in if missing_files \<noteq> [] then
            then_do (print (Msg_missing missing_files)) (\<lambda>_.
            done_with (Missing_inputs missing_files)) w
          else
            then_do (print (Msg_all_found n)) (\<lambda>_.
            then_do (fixed_loop svc current_dir n 1 files_to_convert 0) (\<lambda>success_count.
            then_do (print (Msg_summary success_count n)) (\<lambda>_.
            then_do (if success_count = n then print Msg_all_converted
                     else if success_count > 0 then print (Msg_some_failed (n - success_count))
                     else print Msg_none_converted) (\<lambda>_.
            done_with (Fixed_completed success_count n))))) w)"

section \<open>The Batch Runner of the specification\<close>

text \<open>
  Modelled from the spec: the Batch Runner takes a list of job specs, executes each
  Single-File Conversion Job in order, whatever the jobs before it did, and accumulates a
  summary: one result per job spec, the number of jobs, the number of those that succeeded.
  The job itself is the code's. A result also records whether the input was there when its
  turn came: validation is this test.
\<close>

record job =
  job_input :: path
  job_output :: path
  job_mode :: string

record file_result =
  of_input :: path
  input_found :: bool
  succeeded :: bool

fun spec_batch_runner :: "service \<Rightarrow> job list \<Rightarrow> world \<Rightarrow> file_result list \<times> world" where
  "spec_batch_runner svc [] w = ([], w)"
| "spec_batch_runner svc (j # jobs) w =
     (let (ok, w1) = convert_mov_to_mp4_lossless svc (job_input j) (Some (job_output j))
                       (job_mode j) w;
          (results, w2) = spec_batch_runner svc jobs w1
      in (\<lparr>of_input = job_input j, input_found = path_exists w (job_input j),
           succeeded = ok\<rparr> # results, w2))"

definition total_jobs :: "file_result list \<Rightarrow> nat" where
  "total_jobs results = length results"

definition succeeded_count :: "file_result list \<Rightarrow> nat" where
  "succeeded_count results = length (filter succeeded results)"

text \<open>K, the jobs that failed validation, and E, the jobs that failed later.\<close>

definition missing_count :: "file_result list \<Rightarrow> nat" where
  "missing_count results = length (filter (\<lambda>r. \<not> input_found r) results)"

definition failed_count :: "file_result list \<Rightarrow> nat" where
  "failed_count results = length (filter (\<lambda>r. input_found r \<and> \<not> succeeded r) results)"

text \<open>The job specs the folder batch forms at lines 238-240, one per file.\<close>

definition folder_jobs :: "path \<Rightarrow> string \<Rightarrow> ppath list \<Rightarrow> job list" where
  "folder_jobs output_folder method mov_files =
     map (\<lambda>mov_file.
            \<lparr>job_input = path_str mov_file,
             job_output = path_str (joinpath (Path output_folder) (path_stem mov_file @ ''.mp4'')),
             job_mode = method\<rparr>) mov_files"

section \<open>Notions used to state the properties\<close>

text \<open>Reading a decimal numeral back, to say what the \<^verbatim>\<open>-threads\<close> argument denotes.\<close>

definition digit_value :: "char \<Rightarrow> nat" where
  "digit_value c = (case map_of (zip ''0123456789'' [0 ..< 10]) c of None \<Rightarrow> 0 | Some d \<Rightarrow> d)"

definition nat_of_str :: "string \<Rightarrow> nat" where
  "nat_of_str s = foldl (\<lambda>a c. 10 * a + digit_value c) 0 s"

text \<open>
  What a run of the batch leaves on the console: the header of each job, the verdict on each
  job, and the two ways a job reports its own failure.
\<close>

fun processing_line :: "message \<Rightarrow> (nat \<times> string) option" where
  "processing_line (Msg_processing i n name) = Some (i, name)"
| "processing_line _ = None"

fun per_file_result :: "message \<Rightarrow> (nat \<times> bool) option" where
  "per_file_result (Msg_file_done i n) = Some (i, True)"
| "per_file_result (Msg_file_failed i n) = Some (i, False)"
| "per_file_result _ = None"

fun is_not_found :: "message \<Rightarrow> bool" where
  "is_not_found (Msg_input_not_found p) = True"
| "is_not_found _ = False"

fun is_error :: "message \<Rightarrow> bool" where
  "is_error (Msg_error e) = True"
| "is_error _ = False"

definition headers :: "message list \<Rightarrow> (nat \<times> string) list" where
  "headers ms = List.map_filter processing_line ms"

definition verdicts :: "message list \<Rightarrow> (nat \<times> bool) list" where
  "verdicts ms = List.map_filter per_file_result ms"

definition not_found_count :: "message list \<Rightarrow> nat" where
  "not_found_count ms = length (filter is_not_found ms)"

definition error_count :: "message list \<Rightarrow> nat" where
  "error_count ms = length (filter is_error ms)"

text \<open>Messages that are none of the above.\<close>

definition plain :: "message \<Rightarrow> bool" where
  "plain m = (processing_line m = None \<and> per_file_result m = None
              \<and> \<not> is_not_found m \<and> \<not> is_error m)"

text \<open>A statement leaves a component of the world as it found it.\<close>

definition keeps :: "(world \<Rightarrow> 'x) \<Rightarrow> 'a stmt \<Rightarrow> bool" where
  "keeps proj m = (\<forall>w. proj (snd (m w)) = proj w)"

text \<open>A statement only adds plain messages to the console.\<close>

definition quiet :: "'a stmt \<Rightarrow> bool" where
  "quiet m = (\<forall>w. \<exists>ms. out (snd (m w)) = out w @ ms \<and> list_all plain ms)"

text \<open>A statement that returns (rather than raises) returns a value satisfying \<open>Q\<close>.\<close>

definition returns :: "('a \<Rightarrow> bool) \<Rightarrow> 'a stmt \<Rightarrow> bool" where
  "returns Q m = (\<forall>w. case fst (m w) of Inl e \<Rightarrow> True | Inr a \<Rightarrow> Q a)"

text \<open>
  A statement does not read the console and only adds to it: with other lines on the console
  it gives the same result, adds the same lines and leaves the same world otherwise.
\<close>

definition out_blind :: "(world \<Rightarrow> 'r \<times> world) \<Rightarrow> bool" where
  "out_blind m =
     (\<forall>w. \<exists>ms. \<forall>before. m (w\<lparr>out := before\<rparr>) =
                             (fst (m w), (snd (m w))\<lparr>out := before @ ms\<rparr>))"

text \<open>The lines a run has added to the console: those after the lines that were there.\<close>

definition added :: "world \<Rightarrow> world \<Rightarrow> message list" where
  "added w w' = drop (length (out w)) (out w')"

subsection \<open>Concrete worlds\<close>

definition demo_service :: service where
  "demo_service =
     \<lparr>open_clip = (\<lambda>p fs. None),
      write_clip = (\<lambda>p req fs. (None, fs(req_output req \<mapsto> ''mp4'')))\<rparr>"

definition failing_service :: service where
  "failing_service =
     \<lparr>open_clip = (\<lambda>p fs. Some (LibraryError ''corrupt'')),
      write_clip = (\<lambda>p req fs. (None, fs))\<rparr>"

text \<open>A library that cannot open one of the files.\<close>

definition picky_service :: service where
  "picky_service =
     \<lparr>open_clip = (\<lambda>p fs. if p = ''/d/c.mov'' then Some (LibraryError ''corrupt'') else None),
      write_clip = (\<lambda>p req fs. (None, fs(req_output req \<mapsto> ''mp4'')))\<rparr>"

definition demo_world :: world where
  "demo_world =
     \<lparr>files = [''/d/x.mov'' \<mapsto> ''movie''],
      dirs = {''/'', ''/d''},
      dir_size = (\<lambda>p. 4096),
      scandir = (\<lambda>p. if p = ''/'' then [''d''] else if p = ''/d'' then [''x.mov''] else []),
      realpath = (\<lambda>p. p),
      mkdir_error = (\<lambda>p. None),
      fd_open = (\<lambda>n. n < 3),
      str_lower = py_lower,
      glob_case_sensitive = True,
      cpu_count = Some 8,
      stdin = [''y''],
      out = [],
      svc_calls = []\<rparr>"

text \<open>A folder with two films, one of which the picky library cannot open.\<close>

definition batch_world :: world where
  "batch_world =
     demo_world
       \<lparr>files := [''/d/a.mov'' \<mapsto> ''first'', ''/d/c.mov'' \<mapsto> ''third''],
        scandir := (\<lambda>p. if p = ''/'' then [''d'']
                         else if p = ''/d'' then [''a.mov'', ''c.mov''] else [])\<rparr>"

text \<open>
  A folder in which two entries differ in case only and a third is a link to the fourth.
\<close>

definition cased_world :: world where
  "cased_world =
     demo_world
       \<lparr>files := [''/d/a.mov'' \<mapsto> ''one'', ''/d/A.mov'' \<mapsto> ''one'',
                  ''/d/link.mov'' \<mapsto> ''two'', ''/d/b.mov'' \<mapsto> ''two''],
        scandir := (\<lambda>p. if p = ''/d'' then [''a.mov'', ''A.mov'', ''link.mov'', ''b.mov'']
                         else []),
        realpath := (\<lambda>p. if p = ''/d/link.mov'' then ''/d/b.mov'' else p)\<rparr>"

text \<open>A folder whose only film has its extension in capitals, and a folder without films.\<close>

definition capitals_world :: world where
  "capitals_world =
     demo_world
       \<lparr>files := [''/d/X.MOV'' \<mapsto> ''movie'', ''/d/notes.txt'' \<mapsto> ''text''],
        scandir := (\<lambda>p. if p = ''/d'' then [''X.MOV'', ''notes.txt''] else [])\<rparr>"

definition bare_world :: world where
  "bare_world =
     demo_world
       \<lparr>files := [''/d/notes.txt'' \<mapsto> ''text''],
        scandir := (\<lambda>p. if p = ''/d'' then [''notes.txt''] else [])\<rparr>"

section \<open>Properties\<close>

subsection \<open>Rewriting statements\<close>

lemma say_proj [simp]:
  "files (say m w) = files w" "dirs (say m w) = dirs w" "scandir (say m w) = scandir w"
  "realpath (say m w) = realpath w" "glob_case_sensitive (say m w) = glob_case_sensitive w"
  "cpu_count (say m w) = cpu_count w" "stdin (say m w) = stdin w"
  "svc_calls (say m w) = svc_calls w" "out (say m w) = out w @ [m]"
  "dir_size (say m w) = dir_size w" "mkdir_error (say m w) = mkdir_error w"
  "fd_open (say m w) = fd_open w" "str_lower (say m w) = str_lower w"
  by (simp_all add: say_def)

lemma path_exists_say [simp]: "path_exists (say m w) p = path_exists w p"
  by (simp add: path_exists_def split: option.splits)

lemma getsize_say [simp]: "getsize (say m w) p = getsize w p"
  by (simp add: getsize_def split: option.splits)

lemma getsize_svc_calls [simp]: "getsize (w\<lparr>svc_calls := c\<rparr>) p = getsize w p"
  by (simp add: getsize_def split: option.splits)

lemma then_do_print [simp]: "then_do (print m) f w = f () (say m w)"
  by (simp add: then_do_def print_def)

lemma then_do_done_with [simp]: "then_do (done_with a) f w = f a w"
  by (simp add: then_do_def done_with_def)

lemma then_do_raise [simp]: "then_do (raise e) f w = (Inl e, w)"
  by (simp add: then_do_def raise_def)

lemma then_do_lift:
  "then_do (lift g) f w = (case g w of Inl e \<Rightarrow> (Inl e, w) | Inr a \<Rightarrow> f a w)"
  by (simp add: then_do_def lift_def split: sum.splits)

lemma then_do_open:
  "then_do (call_open_clip svc i) f w =
     (case open_clip svc i (files w) of
        Some e \<Rightarrow> (Inl e, w\<lparr>svc_calls := svc_calls w @ [Open_clip i]\<rparr>)
      | None \<Rightarrow> f () (w\<lparr>svc_calls := svc_calls w @ [Open_clip i]\<rparr>))"
  by (simp add: then_do_def call_open_clip_def split: option.splits)

lemma then_do_write:
  "then_do (call_write_videofile svc i req) f w =
     (case write_clip svc i req (files w) of
        (Some e, fs) \<Rightarrow>
          (Inl e, w\<lparr>files := fs, svc_calls := svc_calls w @ [Write_videofile i req]\<rparr>)
      | (None, fs) \<Rightarrow>
          f () (w\<lparr>files := fs, svc_calls := svc_calls w @ [Write_videofile i req]\<rparr>))"
  by (simp add: then_do_def call_write_videofile_def split: option.splits prod.splits)

lemma then_do_input:
  "then_do (py_input prompt) f w =
     (case stdin w of
        [] \<Rightarrow> (Inl EOFError, say prompt w)
      | l # ls \<Rightarrow> f l ((say prompt w)\<lparr>stdin := ls\<rparr>))"
  by (simp add: then_do_def py_input_def split: list.splits)

lemma getsize_exists: "path_exists w p \<Longrightarrow> \<exists>n. getsize w p = Inr n"
  by (auto simp: path_exists_def getsize_def split: option.splits)

subsection \<open>Components a statement leaves alone\<close>

lemma keepsD: "keeps proj m \<Longrightarrow> proj (snd (m w)) = proj w"
  by (simp add: keeps_def)

lemma keeps_then_do:
  assumes "keeps proj m" and "\<And>a. keeps proj (f a)"
  shows "keeps proj (then_do m f)"
proof -
  have "proj (snd (then_do m f w)) = proj w" for w
  proof (cases "m w")
    case (Pair r w')
    have w': "proj w' = proj w"
      using keepsD [OF assms(1), of w] Pair by simp
    show ?thesis
    proof (cases r)
      case (Inl e)
      with Pair w' show ?thesis by (simp add: then_do_def)
    next
      case (Inr a)
      with Pair w' keepsD [OF assms(2), of a w'] show ?thesis by (simp add: then_do_def)
    qed
  qed
  then show ?thesis by (simp add: keeps_def)
qed

lemma keeps_simple [simp]:
  "keeps proj (done_with a)" "keeps proj (raise e)" "keeps proj (lift g)"
  by (simp_all add: keeps_def done_with_def raise_def lift_def)

lemma keeps_print: "(\<And>w. proj (say m w) = proj w) \<Longrightarrow> keeps proj (print m)"
  by (simp add: keeps_def print_def)

lemma keeps_if: "keeps proj m1 \<Longrightarrow> keeps proj m2 \<Longrightarrow> keeps proj (if c then m1 else m2)"
  by simp

lemma keeps_report:
  assumes "\<And>m w. proj (say m w) = proj w"
  shows "keeps proj (report input_path output_path)"
  unfolding report_def
  by (intro keeps_then_do keeps_if keeps_print keeps_simple assms)

lemma report_svc_calls [simp]: "svc_calls (snd (report i p w)) = svc_calls w"
  by (rule keepsD [OF keeps_report]) simp

lemma report_files [simp]: "files (snd (report i p w)) = files w"
  by (rule keepsD [OF keeps_report]) simp

lemma transcode_calls:
  assumes "path_exists w input_path" and "open_clip svc input_path (files w) = None"
  shows "svc_calls (snd (transcode svc input_path output_path meth w)) =
           svc_calls w @
             [Open_clip input_path,
              Write_videofile input_path
                \<lparr>req_output = output_path, req_codec = select_video_codec meth,
                 req_audio_codec = select_audio_codec meth,
                 req_ffmpeg_params = select_ffmpeg_params meth (cpu_count w)\<rparr>]"
proof -
  obtain n where n: "getsize w input_path = Inr n"
    using getsize_exists [OF assms(1)] by blast
  show ?thesis
    using assms(2) n
    by (simp add: transcode_def then_do_lift then_do_open then_do_write
          split: prod.splits option.splits)
qed

lemma convert_calls:
  assumes "path_exists w input_path" and "\<not> path_exists w output_path"
    and "open_clip svc input_path (files w) = None"
  shows "svc_calls (snd (convert_mov_to_mp4_lossless svc input_path (Some output_path) meth w)) =
           svc_calls w @
             [Open_clip input_path,
              Write_videofile input_path
                \<lparr>req_output = output_path, req_codec = select_video_codec meth,
                 req_audio_codec = select_audio_codec meth,
                 req_ffmpeg_params = select_ffmpeg_params meth (cpu_count w)\<rparr>]"
proof -
  have body: "convert_body svc input_path (Some output_path) meth w =
      transcode svc input_path output_path meth w"
    using assms(1,2) by (simp add: convert_body_def resolve_output_def)
  show ?thesis
    using transcode_calls [OF assms(1,3), of output_path meth]
    by (cases "transcode svc input_path output_path meth w"; cases "fst (transcode svc input_path output_path meth w)")
       (simp_all add: convert_mov_to_mp4_lossless_def body)
qed

lemma digit_value_digit_char: "d < 10 \<Longrightarrow> digit_value (digit_char d) = d"
proof -
  assume "d < 10"
  then have "d = 0 \<or> d = 1 \<or> d = 2 \<or> d = 3 \<or> d = 4 \<or> d = 5 \<or> d = 6 \<or> d = 7 \<or> d = 8 \<or> d = 9"
    by presburger
  then show ?thesis
    by (elim disjE) (simp_all add: digit_value_def digit_char_def upt_rec numeral_eq_Suc)
qed

lemma nat_of_str_str_nat: "nat_of_str (str_nat n) = n"
proof (induction n rule: str_nat.induct)
  case (1 n)
  show ?case
  proof (cases "n < 10")
    case True
    then show ?thesis
      by (subst str_nat.simps) (simp add: nat_of_str_def digit_value_digit_char)
  next
    case False
    with 1 have "nat_of_str (str_nat (n div 10)) = n div 10" by simp
    with False show ?thesis
      by (subst str_nat.simps) (simp add: nat_of_str_def digit_value_digit_char)
  qed
qed

lemma resolve_output_world [simp]: "snd (resolve_output i p w) = w"
  by (simp add: resolve_output_def done_with_def raise_def split: option.splits sum.splits)

lemma then_do_resolve_output:
  "then_do (resolve_output i p) f w =
     (case fst (resolve_output i p w) of Inl e \<Rightarrow> (Inl e, w) | Inr q \<Rightarrow> f q w)"
  by (simp add: then_do_def resolve_output_def done_with_def raise_def
        split: option.splits sum.splits)

section \<open>Encoding policy\<close>

text \<open>
  C5. The mapping from the mode to the parameters is a fixed table: \<^verbatim>\<open>lossless\<close> selects CRF 0,
  \<^verbatim>\<open>high_quality\<close> CRF 15 and the standard mode (\<^verbatim>\<open>standard_high\<close> in the menu, or
  \<^verbatim>\<open>standard\<close>: the \<^verbatim>\<open>else\<close> branch) CRF 18, each
  with the libx264 video codec, the aac audio codec and a thread count that is the decimal
  numeral of the host's processor count; \<^verbatim>\<open>copy_streams\<close> asks ffmpeg to copy both streams
  and names no codec. These are the parameters the job hands to \<^verbatim>\<open>write_videofile\<close>.
\<close>

theorem encoding_policy_table:
  "select_ffmpeg_params ''lossless'' cpus =
     [''-preset'', ''slow'', ''-crf'', ''0'', ''-threads'', str_cpu_count cpus,
      ''-movflags'', ''+faststart'', ''-pix_fmt'', ''yuv420p'']
   \<and> select_ffmpeg_params ''high_quality'' cpus =
     [''-preset'', ''slow'', ''-crf'', ''15'', ''-threads'', str_cpu_count cpus,
      ''-movflags'', ''+faststart'', ''-pix_fmt'', ''yuv420p'']
   \<and> select_ffmpeg_params ''standard_high'' cpus =
     [''-preset'', ''slow'', ''-crf'', ''18'', ''-threads'', str_cpu_count cpus,
      ''-movflags'', ''+faststart'']
   \<and> select_ffmpeg_params ''standard'' cpus =
     [''-preset'', ''slow'', ''-crf'', ''18'', ''-threads'', str_cpu_count cpus,
      ''-movflags'', ''+faststart'']
   \<and> select_video_codec ''standard'' = Some ''libx264''
   \<and> select_audio_codec ''standard'' = Some ''aac''
   \<and> flag_value ''-crf'' (select_ffmpeg_params ''lossless'' cpus) = Some ''0''
   \<and> flag_value ''-crf'' (select_ffmpeg_params ''high_quality'' cpus) = Some ''15''
   \<and> flag_value ''-crf'' (select_ffmpeg_params ''standard_high'' cpus) = Some ''18''
   \<and> flag_value ''-threads'' (select_ffmpeg_params ''lossless'' cpus) = Some (str_cpu_count cpus)
   \<and> flag_value ''-threads'' (select_ffmpeg_params ''high_quality'' cpus) = Some (str_cpu_count cpus)
   \<and> flag_value ''-threads'' (select_ffmpeg_params ''standard_high'' cpus) = Some (str_cpu_count cpus)
   \<and> nat_of_str (str_cpu_count (Some n)) = n
   \<and> select_video_codec ''lossless'' = Some ''libx264''
   \<and> select_video_codec ''high_quality'' = Some ''libx264''
   \<and> select_video_codec ''standard_high'' = Some ''libx264''
   \<and> select_audio_codec ''lossless'' = Some ''aac''
   \<and> select_audio_codec ''high_quality'' = Some ''aac''
   \<and> select_audio_codec ''standard_high'' = Some ''aac''
   \<and> select_ffmpeg_params ''copy_streams'' cpus =
     [''-c:v'', ''copy'', ''-c:a'', ''copy'', ''-movflags'', ''+faststart'']
   \<and> flag_value ''-crf'' (select_ffmpeg_params ''copy_streams'' cpus) = None
   \<and> select_video_codec ''copy_streams'' = None
   \<and> select_audio_codec ''copy_streams'' = None
   \<and> (path_exists w input_path \<and> \<not> path_exists w output_path
        \<and> open_clip svc input_path (files w) = None \<longrightarrow>
      svc_calls (snd (convert_mov_to_mp4_lossless svc input_path (Some output_path) meth w)) =
        svc_calls w @
          [Open_clip input_path,
           Write_videofile input_path
             \<lparr>req_output = output_path, req_codec = select_video_codec meth,
              req_audio_codec = select_audio_codec meth,
              req_ffmpeg_params = select_ffmpeg_params meth (cpu_count w)\<rparr>])"
proof -
  have table: "select_ffmpeg_params ''lossless'' cpus =
       [''-preset'', ''slow'', ''-crf'', ''0'', ''-threads'', str_cpu_count cpus,
        ''-movflags'', ''+faststart'', ''-pix_fmt'', ''yuv420p'']"
    "select_ffmpeg_params ''high_quality'' cpus =
       [''-preset'', ''slow'', ''-crf'', ''15'', ''-threads'', str_cpu_count cpus,
        ''-movflags'', ''+faststart'', ''-pix_fmt'', ''yuv420p'']"
    "select_ffmpeg_params ''standard_high'' cpus =
       [''-preset'', ''slow'', ''-crf'', ''18'', ''-threads'', str_cpu_count cpus,
        ''-movflags'', ''+faststart'']"
    "select_ffmpeg_params ''copy_streams'' cpus =
       [''-c:v'', ''copy'', ''-c:a'', ''copy'', ''-movflags'', ''+faststart'']"
    "select_ffmpeg_params ''standard'' cpus =
       [''-preset'', ''slow'', ''-crf'', ''18'', ''-threads'', str_cpu_count cpus,
        ''-movflags'', ''+faststart'']"
    by (simp_all add: select_ffmpeg_params_def)
  have codecs: "select_video_codec ''lossless'' = Some ''libx264''"
    "select_video_codec ''high_quality'' = Some ''libx264''"
    "select_video_codec ''standard_high'' = Some ''libx264''"
    "select_audio_codec ''lossless'' = Some ''aac''"
    "select_audio_codec ''high_quality'' = Some ''aac''"
    "select_audio_codec ''standard_high'' = Some ''aac''"
    "select_video_codec ''copy_streams'' = None"
    "select_audio_codec ''copy_streams'' = None"
    "select_video_codec ''standard'' = Some ''libx264''"
    "select_audio_codec ''standard'' = Some ''aac''"
    by (simp_all add: select_video_codec_def select_audio_codec_def)
  have threads: "nat_of_str (str_cpu_count (Some n)) = n"
    by (simp add: str_cpu_count_def nat_of_str_str_nat)
  have job: "path_exists w input_path \<and> \<not> path_exists w output_path
        \<and> open_clip svc input_path (files w) = None \<longrightarrow>
      svc_calls (snd (convert_mov_to_mp4_lossless svc input_path (Some output_path) meth w)) =
        svc_calls w @
          [Open_clip input_path,
           Write_videofile input_path
             \<lparr>req_output = output_path, req_codec = select_video_codec meth,
              req_audio_codec = select_audio_codec meth,
              req_ffmpeg_params = select_ffmpeg_params meth (cpu_count w)\<rparr>]"
    using convert_calls by blast
  show ?thesis
    unfolding table codecs threads using job by simp
qed

theorem encoding_policy_table_witness:
  "path_exists demo_world ''/d/x.mov'' \<and> \<not> path_exists demo_world ''/d/x.mp4''
   \<and> open_clip demo_service ''/d/x.mov'' (files demo_world) = None
   \<and> svc_calls (snd (convert_mov_to_mp4_lossless demo_service ''/d/x.mov'' (Some ''/d/x.mp4'')
         ''lossless'' demo_world)) =
       [Open_clip ''/d/x.mov'',
        Write_videofile ''/d/x.mov''
          \<lparr>req_output = ''/d/x.mp4'', req_codec = Some ''libx264'',
           req_audio_codec = Some ''aac'',
           req_ffmpeg_params =
             [''-preset'', ''slow'', ''-crf'', ''0'', ''-threads'', ''8'',
              ''-movflags'', ''+faststart'', ''-pix_fmt'', ''yuv420p'']\<rparr>]"
proof -
  have pre: "path_exists demo_world ''/d/x.mov''" "\<not> path_exists demo_world ''/d/x.mp4''"
    "open_clip demo_service ''/d/x.mov'' (files demo_world) = None"
    by (simp_all add: path_exists_def demo_world_def demo_service_def)
  have eight: "str_nat 8 = ''8''"
    by (simp add: str_nat.simps digit_char_def)
  from encoding_policy_table [where cpus = "Some 8" and w = demo_world and svc = demo_service
      and input_path = "''/d/x.mov''" and output_path = "''/d/x.mp4''" and meth = "''lossless''"]
  have "svc_calls (snd (convert_mov_to_mp4_lossless demo_service ''/d/x.mov'' (Some ''/d/x.mp4'')
         ''lossless'' demo_world)) =
       svc_calls demo_world @
          [Open_clip ''/d/x.mov'',
           Write_videofile ''/d/x.mov''
             \<lparr>req_output = ''/d/x.mp4'', req_codec = select_video_codec ''lossless'',
              req_audio_codec = select_audio_codec ''lossless'',
              req_ffmpeg_params = select_ffmpeg_params ''lossless'' (cpu_count demo_world)\<rparr>]"
    using pre by blast
  then show ?thesis
    using pre
    by (simp add: demo_world_def select_video_codec_def select_audio_codec_def
          select_ffmpeg_params_def str_cpu_count_def eight)
qed

text \<open>
  C1 (as stated: an unknown mode selects the high-quality set, CRF 15). It does not: a mistyped
  \<^verbatim>\<open>highquality\<close> reaches the \<^verbatim>\<open>else\<close> branch and is encoded with CRF 18 and without
  the pixel format, and this is what the job hands to \<^verbatim>\<open>write_videofile\<close>.
\<close>

theorem unknown_mode_counterexample:
  "flag_value ''-crf'' (select_ffmpeg_params ''highquality'' (Some 8)) = Some ''18''
   \<and> flag_value ''-crf'' (select_ffmpeg_params ''high_quality'' (Some 8)) = Some ''15''
   \<and> select_ffmpeg_params ''highquality'' (Some 8) \<noteq> select_ffmpeg_params ''high_quality'' (Some 8)
   \<and> svc_calls (snd (convert_mov_to_mp4_lossless demo_service ''/d/x.mov'' None
         ''highquality'' demo_world)) =
       [Open_clip ''/d/x.mov'',
        Write_videofile ''/d/x.mov''
          \<lparr>req_output = ''/d/x.mp4'', req_codec = Some ''libx264'',
           req_audio_codec = Some ''aac'',
           req_ffmpeg_params =
             [''-preset'', ''slow'', ''-crf'', ''18'', ''-threads'', ''8'',
              ''-movflags'', ''+faststart'']\<rparr>]"
proof -
  have eight: "str_nat 8 = ''8''"
    by (simp add: str_nat.simps digit_char_def)
  have pre: "path_exists demo_world ''/d/x.mov''" "\<not> path_exists demo_world ''/d/x.mp4''"
    "open_clip demo_service ''/d/x.mov'' (files demo_world) = None"
    by (simp_all add: path_exists_def demo_world_def demo_service_def)
  have out: "default_output ''/d/x.mov'' = Inr (Path ''/d/x.mp4'')"
    by (simp add: default_output_def with_suffix_def Path_def startswith_def path_name_def
        name_stem_def)
  have str: "path_str (Path ''/d/x.mp4'') = ''/d/x.mp4''"
    by (simp add: path_str_def Path_def startswith_def)
  have same: "convert_mov_to_mp4_lossless demo_service ''/d/x.mov'' None ''highquality'' demo_world
      = convert_mov_to_mp4_lossless demo_service ''/d/x.mov'' (Some ''/d/x.mp4'') ''highquality''
          demo_world"
    by (simp add: convert_mov_to_mp4_lossless_def convert_body_def resolve_output_def out str)
  show ?thesis
    unfolding same convert_calls [OF pre]
    by (simp add: select_ffmpeg_params_def select_video_codec_def select_audio_codec_def
        str_cpu_count_def eight demo_world_def)
qed

text \<open>
  C1 (amended). Every mode string other than \<^verbatim>\<open>lossless\<close>, \<^verbatim>\<open>high_quality\<close> and
  \<^verbatim>\<open>copy_streams\<close> selects the standard set: preset slow, CRF 18, libx264 and aac, no pixel
  format; nothing is raised. The fall-back to \<^verbatim>\<open>high_quality\<close> is in the menus of \<^verbatim>\<open>main\<close>: an
  answer that is not one of the listed choices becomes \<^verbatim>\<open>high_quality\<close>, hence CRF 15.
\<close>

theorem unknown_mode_selects_standard:
  assumes "meth \<noteq> ''lossless''" and "meth \<noteq> ''high_quality''" and "meth \<noteq> ''copy_streams''"
  shows "select_ffmpeg_params meth cpus =
           [''-preset'', ''slow'', ''-crf'', ''18'', ''-threads'', str_cpu_count cpus,
            ''-movflags'', ''+faststart'']
         \<and> flag_value ''-crf'' (select_ffmpeg_params meth cpus) = Some ''18''
         \<and> select_video_codec meth = Some ''libx264''
         \<and> select_audio_codec meth = Some ''aac''
         \<and> mode_banner meth = Banner_crf18
         \<and> (answer \<noteq> '''' \<and> map_of method_map_file answer = None \<longrightarrow>
              menu_method method_map_file answer = ''high_quality'')
         \<and> (answer \<noteq> '''' \<and> map_of method_map_folder answer = None \<longrightarrow>
              menu_method method_map_folder answer = ''high_quality'')
         \<and> flag_value ''-crf'' (select_ffmpeg_params ''high_quality'' cpus) = Some ''15''"
  using assms
  by (simp add: select_ffmpeg_params_def select_video_codec_def select_audio_codec_def
      mode_banner_def menu_method_def)

theorem unknown_mode_selects_standard_witness:
  "flag_value ''-crf'' (select_ffmpeg_params ''highquality'' (Some 8)) = Some ''18''
   \<and> select_video_codec ''highquality'' = Some ''libx264''
   \<and> select_audio_codec ''highquality'' = Some ''aac''
   \<and> map_of method_map_file ''7'' = None
   \<and> menu_method method_map_file ''7'' = ''high_quality''
   \<and> map_of method_map_folder ''4'' = None
   \<and> menu_method method_map_folder ''4'' = ''high_quality''"
proof -
  have a: "''highquality'' \<noteq> ''lossless''" "''highquality'' \<noteq> ''high_quality''"
    "''highquality'' \<noteq> ''copy_streams''"
    by simp_all
  have b: "map_of method_map_file ''7'' = None" "map_of method_map_folder ''4'' = None"
    by (simp_all add: method_map_file_def method_map_folder_def)
  from unknown_mode_selects_standard [OF a, where cpus = "Some 8" and answer = "''7''"]
    unknown_mode_selects_standard [OF a, where cpus = "Some 8" and answer = "''4''"] b
  show ?thesis by simp
qed

section \<open>The single conversion job\<close>

text \<open>
  C8. A job whose input path does not exist returns \<^verbatim>\<open>False\<close> at once: the only effect is
  the message that the file was not found. The transcoding library is not called and no file
  or directory changes.
\<close>

theorem missing_input_fails:
  assumes "\<not> path_exists w input_path"
  shows "convert_mov_to_mp4_lossless svc input_path output_path meth w =
           (False, say (Msg_input_not_found input_path) w)
         \<and> svc_calls (snd (convert_mov_to_mp4_lossless svc input_path output_path meth w)) =
             svc_calls w
         \<and> files (snd (convert_mov_to_mp4_lossless svc input_path output_path meth w)) = files w
         \<and> dirs (snd (convert_mov_to_mp4_lossless svc input_path output_path meth w)) = dirs w
         \<and> stdin (snd (convert_mov_to_mp4_lossless svc input_path output_path meth w)) = stdin w"
proof -
  have "convert_body svc input_path output_path meth w =
      (Inr False, say (Msg_input_not_found input_path) w)"
    using assms by (simp add: convert_body_def done_with_def)
  then have "convert_mov_to_mp4_lossless svc input_path output_path meth w =
      (False, say (Msg_input_not_found input_path) w)"
    by (simp add: convert_mov_to_mp4_lossless_def)
  then show ?thesis by simp
qed

theorem missing_input_fails_witness:
  "\<not> path_exists demo_world ''/d/missing.mov''
   \<and> fst (convert_mov_to_mp4_lossless demo_service ''/d/missing.mov'' None ''high_quality''
         demo_world) = False
   \<and> out (snd (convert_mov_to_mp4_lossless demo_service ''/d/missing.mov'' None ''high_quality''
         demo_world)) = [Msg_input_not_found ''/d/missing.mov'']
   \<and> svc_calls (snd (convert_mov_to_mp4_lossless demo_service ''/d/missing.mov'' None
         ''high_quality'' demo_world)) = []
   \<and> files (snd (convert_mov_to_mp4_lossless demo_service ''/d/missing.mov'' None
         ''high_quality'' demo_world)) ''/d/missing.mp4'' = None"
proof -
  have a: "\<not> path_exists demo_world ''/d/missing.mov''"
    by (simp add: path_exists_def demo_world_def)
  from missing_input_fails [OF a, of demo_service None "''high_quality''"] a
  show ?thesis by (simp add: demo_world_def)
qed

text \<open>
  C7. When the output path of a job already exists and the answer to the overwrite question is
  anything but \<^verbatim>\<open>y\<close> or \<^verbatim>\<open>Y\<close>, the job returns \<^verbatim>\<open>True\<close>: it has asked, read the answer
  and said that it skips the file. The transcoding library is not called and every file,
  the existing output among them, is as before.
\<close>

theorem declined_overwrite_skips:
  assumes "path_exists w input_path"
    and "fst (resolve_output input_path output_path w) = Inr p"
    and "path_exists w p"
    and "stdin w = response # rest"
    and "py_lower response \<noteq> ''y''"
  shows "convert_mov_to_mp4_lossless svc input_path output_path meth w =
           (True, say Msg_skipping ((say (Msg_prompt_overwrite (basename p)) w)\<lparr>stdin := rest\<rparr>))
         \<and> svc_calls (snd (convert_mov_to_mp4_lossless svc input_path output_path meth w)) =
             svc_calls w
         \<and> files (snd (convert_mov_to_mp4_lossless svc input_path output_path meth w)) = files w
         \<and> dirs (snd (convert_mov_to_mp4_lossless svc input_path output_path meth w)) = dirs w"
proof -
  have "convert_body svc input_path output_path meth w =
      (Inr True, say Msg_skipping ((say (Msg_prompt_overwrite (basename p)) w)\<lparr>stdin := rest\<rparr>))"
    using assms
    by (simp add: convert_body_def then_do_resolve_output then_do_input done_with_def)
  then have "convert_mov_to_mp4_lossless svc input_path output_path meth w =
      (True, say Msg_skipping ((say (Msg_prompt_overwrite (basename p)) w)\<lparr>stdin := rest\<rparr>))"
    by (simp add: convert_mov_to_mp4_lossless_def)
  then show ?thesis by simp
qed

theorem declined_overwrite_skips_witness:
  "path_exists (demo_world\<lparr>files := (files demo_world)(''/d/x.mp4'' \<mapsto> ''old''), stdin := [''n'']\<rparr>)
      ''/d/x.mov''
   \<and> path_exists (demo_world\<lparr>files := (files demo_world)(''/d/x.mp4'' \<mapsto> ''old''), stdin := [''n'']\<rparr>)
      ''/d/x.mp4''
   \<and> py_lower ''n'' \<noteq> ''y''
   \<and> fst (convert_mov_to_mp4_lossless demo_service ''/d/x.mov'' None ''high_quality''
        (demo_world\<lparr>files := (files demo_world)(''/d/x.mp4'' \<mapsto> ''old''), stdin := [''n'']\<rparr>)) = True
   \<and> svc_calls (snd (convert_mov_to_mp4_lossless demo_service ''/d/x.mov'' None ''high_quality''
        (demo_world\<lparr>files := (files demo_world)(''/d/x.mp4'' \<mapsto> ''old''), stdin := [''n'']\<rparr>))) = []
   \<and> files (snd (convert_mov_to_mp4_lossless demo_service ''/d/x.mov'' None ''high_quality''
        (demo_world\<lparr>files := (files demo_world)(''/d/x.mp4'' \<mapsto> ''old''), stdin := [''n'']\<rparr>)))
        ''/d/x.mp4'' = Some ''old''
   \<and> out (snd (convert_mov_to_mp4_lossless demo_service ''/d/x.mov'' None ''high_quality''
        (demo_world\<lparr>files := (files demo_world)(''/d/x.mp4'' \<mapsto> ''old''), stdin := [''n'']\<rparr>))) =
        [Msg_prompt_overwrite ''x.mp4'', Msg_skipping]"
proof -
  define w where "w = demo_world\<lparr>files := (files demo_world)(''/d/x.mp4'' \<mapsto> ''old''), stdin := [''n'']\<rparr>"
  have a: "path_exists w ''/d/x.mov''" "path_exists w ''/d/x.mp4''"
    by (simp_all add: w_def path_exists_def demo_world_def)
  have b: "fst (resolve_output ''/d/x.mov'' None w) = Inr ''/d/x.mp4''"
    by (simp add: resolve_output_def default_output_def with_suffix_def Path_def startswith_def
        path_name_def name_stem_def path_str_def done_with_def)
  have c: "stdin w = [''n'']" by (simp add: w_def)
  have d: "py_lower ''n'' \<noteq> ''y''" by (simp add: py_lower_def lower_char_def)
  have e: "basename ''/d/x.mp4'' = ''x.mp4''" by (simp add: basename_def)
  from declined_overwrite_skips [OF a(1) b a(2) c d, of demo_service "''high_quality''"] a d
  show ?thesis
    unfolding w_def [symmetric] by (simp add: e) (simp add: w_def demo_world_def)
qed

section \<open>Naming the output\<close>

lemma rfind_dot_append:
  "rfind_dot (xs @ ys) =
     (case rfind_dot ys of Some i \<Rightarrow> Some (length xs + i) | None \<Rightarrow> rfind_dot xs)"
  by (induction xs) (auto split: option.splits)

lemma rfind_dot_mp4: "rfind_dot (st @ ''.mp4'') = Some (length st)"
  by (simp add: rfind_dot_append)

lemma name_stem_mp4: "st \<noteq> [] \<Longrightarrow> name_stem (st @ ''.mp4'') = st"
  by (simp add: name_stem_def rfind_dot_mp4)

lemma name_suffix_mp4: "st \<noteq> [] \<Longrightarrow> name_suffix (st @ ''.mp4'') = ''.mp4''"
  by (simp add: name_suffix_def rfind_dot_mp4)

lemma name_stem_nonempty: "n \<noteq> [] \<Longrightarrow> name_stem n \<noteq> []"
  by (auto simp: name_stem_def split: option.splits)

lemma set_name_stem: "set (name_stem n) \<subseteq> set n"
  by (auto simp: name_stem_def split: option.splits dest: in_set_takeD)

lemma split_sep_no_slash: "CHR ''/'' \<notin> set s \<Longrightarrow> split_sep s = [s]"
  by (induction s) auto

lemma Path_single:
  assumes "CHR ''/'' \<notin> set s" and "s \<noteq> ''''" and "s \<noteq> ''.''"
  shows "Path s = \<lparr>anchor = '''', parts = [s]\<rparr>"
proof -
  from assms obtain c cs where s: "s = c # cs" and c: "c \<noteq> CHR ''/''"
    by (cases s) auto
  then have "\<not> startswith s ''/''" "\<not> (startswith s ''//'' \<and> \<not> startswith s ''///'')"
    by (auto simp: startswith_def split: list.splits)
  with assms show ?thesis
    by (simp add: Path_def split_sep_no_slash)
qed

lemma with_suffix_mp4:
  assumes "path_name p \<noteq> ''''"
  shows "with_suffix p ''.mp4'' =
           Inr (p\<lparr>parts := butlast (parts p) @ [name_stem (path_name p) @ ''.mp4'']\<rparr>)"
  using assms by (simp add: with_suffix_def startswith_def)

lemma convert_default_output:
  assumes "default_output input_path = Inr q"
  shows "convert_mov_to_mp4_lossless svc input_path None meth w =
         convert_mov_to_mp4_lossless svc input_path (Some (path_str q)) meth w"
  using assms
  by (simp add: convert_mov_to_mp4_lossless_def convert_body_def resolve_output_def)

lemma convert_no_name:
  assumes "path_exists w input_path" and "default_output input_path = Inl e"
  shows "convert_mov_to_mp4_lossless svc input_path None meth w = (False, say (Msg_error e) w)"
  using assms
  by (simp add: convert_mov_to_mp4_lossless_def convert_body_def resolve_output_def)

lemma batch_loop_single_calls:
  assumes "path_exists w (path_str mov_file)" and "\<not> path_exists w output_path"
    and "open_clip svc (path_str mov_file) (files w) = None"
    and "output_path = path_str (joinpath (Path output_folder) (path_stem mov_file @ ''.mp4''))"
  shows "svc_calls (snd (batch_loop svc output_folder meth n i [mov_file] (c, w))) =
           svc_calls w @
             [Open_clip (path_str mov_file),
              Write_videofile (path_str mov_file)
                \<lparr>req_output = output_path, req_codec = select_video_codec meth,
                 req_audio_codec = select_audio_codec meth,
                 req_ffmpeg_params = select_ffmpeg_params meth (cpu_count w)\<rparr>]"
proof -
  define w1 where "w1 = say (Msg_processing i n (path_name mov_file)) w"
  have pre: "path_exists w1 (path_str mov_file)" "\<not> path_exists w1 output_path"
    "open_clip svc (path_str mov_file) (files w1) = None"
    using assms(1-3) by (simp_all add: w1_def)
  have calls: "svc_calls (snd (convert_mov_to_mp4_lossless svc (path_str mov_file)
      (Some output_path) meth w1)) =
      svc_calls w @
             [Open_clip (path_str mov_file),
              Write_videofile (path_str mov_file)
                \<lparr>req_output = output_path, req_codec = select_video_codec meth,
                 req_audio_codec = select_audio_codec meth,
                 req_ffmpeg_params = select_ffmpeg_params meth (cpu_count w)\<rparr>]"
    unfolding convert_calls [OF pre] by (simp add: w1_def)
  obtain ok w2 where r: "convert_mov_to_mp4_lossless svc (path_str mov_file)
      (Some output_path) meth w1 = (ok, w2)"
    by (cases "convert_mov_to_mp4_lossless svc (path_str mov_file) (Some output_path) meth w1")
  show ?thesis
    using calls
    by (simp add: Let_def assms(4) [symmetric] w1_def [symmetric] r)
qed

text \<open>
  C6 (as stated: for every input path a job without an output path derives one). Not for a
  path without a final component: for the root \<^verbatim>\<open>/\<close>, which exists, \<^verbatim>\<open>with_suffix\<close> raises
  \<^verbatim>\<open>ValueError\<close>, so that no output path is formed; the job reports the error and returns
  \<^verbatim>\<open>False\<close> without calling the library.
\<close>

theorem naming_counterexample:
  "path_exists demo_world ''/''
   \<and> default_output ''/'' = Inl ValueError
   \<and> fst (resolve_output ''/'' None demo_world) = Inl ValueError
   \<and> convert_mov_to_mp4_lossless demo_service ''/'' None ''high_quality'' demo_world =
       (False, say (Msg_error ValueError) demo_world)
   \<and> svc_calls (snd (convert_mov_to_mp4_lossless demo_service ''/'' None ''high_quality''
        demo_world)) = []"
proof -
  have a: "path_exists demo_world ''/''"
    by (simp add: path_exists_def demo_world_def)
  have b: "default_output ''/'' = Inl ValueError"
    by (simp add: default_output_def with_suffix_def Path_def startswith_def path_name_def)
  have c: "fst (resolve_output ''/'' None demo_world) = Inl ValueError"
    by (simp add: resolve_output_def b raise_def)
  have d: "convert_mov_to_mp4_lossless demo_service ''/'' None ''high_quality'' demo_world =
       (False, say (Msg_error ValueError) demo_world)"
    by (rule convert_no_name [OF a b])
  have e: "svc_calls (snd (convert_mov_to_mp4_lossless demo_service ''/'' None ''high_quality''
        demo_world)) = []"
    unfolding d by (simp add: demo_world_def)
  show ?thesis
    by (intro conjI) (fact a, fact b, fact c, fact d, fact e)
qed

text \<open>
  C6 (amended). For every input path that has a final component (every path but a root and the
  current directory), a job without an output path is the job with the output path that
  \<^verbatim>\<open>with_suffix\<close> forms: same parent directory, same stem, suffix \<^verbatim>\<open>.mp4\<close>. For an input path
  without a final component that exists, the job ends in the \<^verbatim>\<open>ValueError\<close> of \<^verbatim>\<open>with_suffix\<close>
  and returns \<^verbatim>\<open>False\<close>. An output path given by the caller is the one the library is asked to
  write. The folder batch asks for each file, whose name is that of a directory entry, the
  output in the output folder with the stem of the file and the suffix \<^verbatim>\<open>.mp4\<close>.
\<close>

theorem naming_policy:
  "(path_name (Path input_path) \<noteq> '''' \<longrightarrow>
      (\<exists>q. default_output input_path = Inr q
          \<and> path_stem q = path_stem (Path input_path)
          \<and> path_suffix q = ''.mp4''
          \<and> path_parent q = path_parent (Path input_path)
          \<and> convert_mov_to_mp4_lossless svc input_path None meth w =
              convert_mov_to_mp4_lossless svc input_path (Some (path_str q)) meth w))
   \<and> (path_name (Path input_path) = '''' \<and> path_exists w input_path \<longrightarrow>
        convert_mov_to_mp4_lossless svc input_path None meth w =
          (False, say (Msg_error ValueError) w))
   \<and> (path_exists w input_path \<and> \<not> path_exists w given
        \<and> open_clip svc input_path (files w) = None \<longrightarrow>
        svc_calls (snd (convert_mov_to_mp4_lossless svc input_path (Some given) meth w)) =
          svc_calls w @
            [Open_clip input_path,
             Write_videofile input_path
               \<lparr>req_output = given, req_codec = select_video_codec meth,
                req_audio_codec = select_audio_codec meth,
                req_ffmpeg_params = select_ffmpeg_params meth (cpu_count w)\<rparr>])
   \<and> (path_name mov_file \<noteq> '''' \<and> CHR ''/'' \<notin> set (path_name mov_file) \<longrightarrow>
        path_stem (joinpath (Path output_folder) (path_stem mov_file @ ''.mp4'')) =
          path_stem mov_file
        \<and> path_suffix (joinpath (Path output_folder) (path_stem mov_file @ ''.mp4'')) = ''.mp4''
        \<and> path_parent (joinpath (Path output_folder) (path_stem mov_file @ ''.mp4'')) =
          Path output_folder
        \<and> (path_exists w (path_str mov_file)
            \<and> \<not> path_exists w
                  (path_str (joinpath (Path output_folder) (path_stem mov_file @ ''.mp4'')))
            \<and> open_clip svc (path_str mov_file) (files w) = None \<longrightarrow>
            svc_calls (snd (batch_loop svc output_folder meth n i [mov_file] (c, w))) =
              svc_calls w @
                [Open_clip (path_str mov_file),
                 Write_videofile (path_str mov_file)
                   \<lparr>req_output =
                      path_str (joinpath (Path output_folder) (path_stem mov_file @ ''.mp4'')),
                    req_codec = select_video_codec meth,
                    req_audio_codec = select_audio_codec meth,
                    req_ffmpeg_params = select_ffmpeg_params meth (cpu_count w)\<rparr>]))"
proof -
  have first: "\<exists>q. default_output input_path = Inr q
          \<and> path_stem q = path_stem (Path input_path)
          \<and> path_suffix q = ''.mp4''
          \<and> path_parent q = path_parent (Path input_path)
          \<and> convert_mov_to_mp4_lossless svc input_path None meth w =
              convert_mov_to_mp4_lossless svc input_path (Some (path_str q)) meth w"
    if name: "path_name (Path input_path) \<noteq> ''''"
  proof -
    define p where "p = Path input_path"
    define q where "q = p\<lparr>parts := butlast (parts p) @ [name_stem (path_name p) @ ''.mp4'']\<rparr>"
    have name': "path_name p \<noteq> ''''"
      using name by (simp add: p_def)
    have stem: "name_stem (path_name p) \<noteq> []"
      using name' by (simp add: name_stem_nonempty)
    have q: "default_output input_path = Inr q"
      using with_suffix_mp4 [OF name'] by (simp add: default_output_def p_def q_def)
    have qname: "path_name q = name_stem (path_name p) @ ''.mp4''"
      by (simp add: q_def path_name_def)
    have "path_stem q = path_stem (Path input_path)" "path_suffix q = ''.mp4''"
      using stem
      by (simp_all add: path_stem_def path_suffix_def qname name_stem_mp4 name_suffix_mp4
          p_def [symmetric])
    moreover have "path_parent q = path_parent (Path input_path)"
      by (simp add: q_def path_parent_def p_def)
    moreover note q convert_default_output [OF q, of svc meth w]
    ultimately show ?thesis by blast
  qed
  have second: "convert_mov_to_mp4_lossless svc input_path None meth w =
          (False, say (Msg_error ValueError) w)"
    if "path_name (Path input_path) = ''''" "path_exists w input_path"
  proof -
    have "default_output input_path = Inl ValueError"
      using that(1) by (simp add: default_output_def with_suffix_def startswith_def)
    then show ?thesis by (rule convert_no_name [OF that(2)])
  qed
  have third: "path_stem (joinpath (Path output_folder) (path_stem mov_file @ ''.mp4'')) =
                path_stem mov_file
              \<and> path_suffix (joinpath (Path output_folder) (path_stem mov_file @ ''.mp4'')) =
                ''.mp4''
              \<and> path_parent (joinpath (Path output_folder) (path_stem mov_file @ ''.mp4'')) =
                Path output_folder"
    if a: "path_name mov_file \<noteq> ''''" and b: "CHR ''/'' \<notin> set (path_name mov_file)"
  proof -
    define st where "st = path_stem mov_file"
    have st1: "st \<noteq> []"
      using a by (simp add: st_def path_stem_def name_stem_nonempty)
    have st2: "CHR ''/'' \<notin> set (st @ ''.mp4'')"
      using b set_name_stem [of "path_name mov_file"] by (auto simp: st_def path_stem_def)
    have st3: "st @ ''.mp4'' \<noteq> ''''" "st @ ''.mp4'' \<noteq> ''.''"
      using st1 by (cases st; simp)+
    have "joinpath (Path output_folder) (st @ ''.mp4'') =
        \<lparr>anchor = anchor (Path output_folder),
         parts = parts (Path output_folder) @ [st @ ''.mp4'']\<rparr>"
      by (simp add: joinpath_def Path_single [OF st2 st3])
    then show ?thesis
      unfolding st_def [symmetric]
      using st1
      by (simp add: path_stem_def path_suffix_def path_name_def
          path_parent_def name_stem_mp4 name_suffix_mp4)
  qed
  note fourth = batch_loop_single_calls [OF _ _ _ refl, of w mov_file output_folder svc meth n i c]
  note explicit = convert_calls [of w input_path given svc meth]
  from first second third fourth explicit show ?thesis by blast
qed

theorem naming_policy_witness:
  "path_name (Path ''/d/x.mov'') \<noteq> ''''
   \<and> default_output ''/d/x.mov'' = Inr (Path ''/d/x.mp4'')
   \<and> path_str (Path ''/d/x.mp4'') = ''/d/x.mp4''
   \<and> convert_mov_to_mp4_lossless demo_service ''/d/x.mov'' None ''lossless'' demo_world =
       convert_mov_to_mp4_lossless demo_service ''/d/x.mov'' (Some ''/d/x.mp4'') ''lossless''
         demo_world
   \<and> path_name (Path ''/'') = '''' \<and> path_exists demo_world ''/''
   \<and> fst (convert_mov_to_mp4_lossless demo_service ''/'' None ''lossless'' demo_world) = False
   \<and> path_exists demo_world ''/d/x.mov'' \<and> \<not> path_exists demo_world ''/out/x.mp4''
   \<and> open_clip demo_service ''/d/x.mov'' (files demo_world) = None
   \<and> svc_calls (snd (convert_mov_to_mp4_lossless demo_service ''/d/x.mov'' (Some ''/out/x.mp4'')
        ''copy_streams'' demo_world)) =
       [Open_clip ''/d/x.mov'',
        Write_videofile ''/d/x.mov''
          \<lparr>req_output = ''/out/x.mp4'', req_codec = None, req_audio_codec = None,
           req_ffmpeg_params =
             [''-c:v'', ''copy'', ''-c:a'', ''copy'', ''-movflags'', ''+faststart'']\<rparr>]
   \<and> path_name (Path ''/d/x.mov'') = ''x.mov''
   \<and> path_str (joinpath (Path ''/out'') (path_stem (Path ''/d/x.mov'') @ ''.mp4'')) =
       ''/out/x.mp4''
   \<and> path_stem (joinpath (Path ''/out'') (path_stem (Path ''/d/x.mov'') @ ''.mp4'')) = ''x''
   \<and> path_parent (joinpath (Path ''/out'') (path_stem (Path ''/d/x.mov'') @ ''.mp4'')) =
       Path ''/out''
   \<and> svc_calls (snd (batch_loop demo_service ''/out'' ''copy_streams'' 1 1 [Path ''/d/x.mov'']
        (0, demo_world))) =
       [Open_clip ''/d/x.mov'',
        Write_videofile ''/d/x.mov''
          \<lparr>req_output = ''/out/x.mp4'', req_codec = None, req_audio_codec = None,
           req_ffmpeg_params =
             [''-c:v'', ''copy'', ''-c:a'', ''copy'', ''-movflags'', ''+faststart'']\<rparr>]"
proof -
  have a: "path_name (Path ''/d/x.mov'') \<noteq> ''''" "path_name (Path ''/d/x.mov'') = ''x.mov''"
    "path_name (Path ''/'') = ''''"
    by (simp_all add: path_name_def Path_def)
  have b: "path_stem (Path ''/d/x.mov'') = ''x''"
    by (simp add: path_stem_def a name_stem_def)
  have d: "default_output ''/d/x.mov'' = Inr (Path ''/d/x.mp4'')"
    by (simp add: default_output_def with_suffix_def Path_def startswith_def path_name_def
        name_stem_def)
  have e: "path_str (joinpath (Path ''/out'') (''x'' @ ''.mp4'')) = ''/out/x.mp4''"
    by (simp add: joinpath_def Path_def startswith_def path_str_def)
  have f: "path_str (Path ''/d/x.mp4'') = ''/d/x.mp4''" "path_str (Path ''/d/x.mov'') = ''/d/x.mov''"
    by (simp_all add: path_str_def Path_def startswith_def)
  have g: "path_exists demo_world ''/''" "path_exists demo_world ''/d/x.mov''"
    "\<not> path_exists demo_world ''/out/x.mp4''"
    "open_clip demo_service ''/d/x.mov'' (files demo_world) = None"
    by (simp_all add: path_exists_def demo_world_def demo_service_def)
  have h: "svc_calls demo_world = []" "cpu_count demo_world = Some 8"
    by (simp_all add: demo_world_def)
  have k: "CHR ''/'' \<notin> set ''x.mov''"
    by simp
  note one = naming_policy [where input_path = "''/d/x.mov''" and svc = demo_service
      and meth = "''lossless''" and w = demo_world and given = "''/out/x.mp4''"
      and mov_file = "Path ''/d/x.mov''" and output_folder = "''/out''"]
  note two = naming_policy [where input_path = "''/''" and svc = demo_service
      and meth = "''lossless''" and w = demo_world and given = "''/out/x.mp4''"
      and mov_file = "Path ''/d/x.mov''" and output_folder = "''/out''"]
  note three = naming_policy [where input_path = "''/d/x.mov''" and svc = demo_service
      and meth = "''copy_streams''" and w = demo_world and given = "''/out/x.mp4''"
      and mov_file = "Path ''/d/x.mov''" and output_folder = "''/out''" and n = 1 and i = 1
      and c = 0]
  have c1: "convert_mov_to_mp4_lossless demo_service ''/d/x.mov'' None ''lossless'' demo_world =
       convert_mov_to_mp4_lossless demo_service ''/d/x.mov'' (Some ''/d/x.mp4'') ''lossless''
         demo_world"
    using one a(1) by (auto simp: d f)
  have c2: "fst (convert_mov_to_mp4_lossless demo_service ''/'' None ''lossless'' demo_world) = False"
    using two a(3) g(1) by simp
  have c3: "svc_calls (snd (convert_mov_to_mp4_lossless demo_service ''/d/x.mov''
        (Some ''/out/x.mp4'') ''copy_streams'' demo_world)) =
       [Open_clip ''/d/x.mov'',
        Write_videofile ''/d/x.mov''
          \<lparr>req_output = ''/out/x.mp4'', req_codec = None, req_audio_codec = None,
           req_ffmpeg_params =
             [''-c:v'', ''copy'', ''-c:a'', ''copy'', ''-movflags'', ''+faststart'']\<rparr>]"
    using three g
    by (simp add: h select_video_codec_def select_audio_codec_def select_ffmpeg_params_def)
  have c4: "path_stem (joinpath (Path ''/out'') (path_stem (Path ''/d/x.mov'') @ ''.mp4'')) = ''x''"
    "path_parent (joinpath (Path ''/out'') (path_stem (Path ''/d/x.mov'') @ ''.mp4'')) =
       Path ''/out''"
    using three a k by (simp_all add: b)
  have c5: "path_str (joinpath (Path ''/out'') (path_stem (Path ''/d/x.mov'') @ ''.mp4'')) =
       ''/out/x.mp4''"
    using e by (simp add: b)
  have c6: "svc_calls (snd (batch_loop demo_service ''/out'' ''copy_streams'' 1 1 [Path ''/d/x.mov'']
        (0, demo_world))) =
       [Open_clip ''/d/x.mov'',
        Write_videofile ''/d/x.mov''
          \<lparr>req_output = ''/out/x.mp4'', req_codec = None, req_audio_codec = None,
           req_ffmpeg_params =
             [''-c:v'', ''copy'', ''-c:a'', ''copy'', ''-movflags'', ''+faststart'']\<rparr>]"
    using three a k g unfolding c5 f
    by (simp add: h select_video_codec_def select_audio_codec_def select_ffmpeg_params_def)
  show ?thesis
    by (intro conjI)
       (fact a(1), fact d, fact f(1), fact c1, fact a(3), fact g(1), fact c2, fact g(2),
        fact g(3), fact g(4), fact c3, fact a(2), fact c5, fact c4(1), fact c4(2), fact c6)
qed

section \<open>File discovery\<close>

lemma unique_loop_keys:
  "set (map fst (unique_loop w fs acc)) =
     set (map fst acc) \<union> (\<lambda>f. str_lower w (realpath w (path_str f))) ` set fs"
  by (induction fs arbitrary: acc) (auto simp: Let_def)

lemma unique_loop_distinct:
  "distinct (map fst acc) \<Longrightarrow> distinct (map fst (unique_loop w fs acc))"
  by (induction fs arbitrary: acc) (auto simp: Let_def)

lemma unique_loop_first:
  assumes "(k, f) \<in> set (unique_loop w fs acc)"
  shows "(k, f) \<in> set acc
         \<or> (k \<notin> fst ` set acc
            \<and> find (\<lambda>g. str_lower w (realpath w (path_str g)) = k) fs = Some f)"
  using assms
proof (induction fs arbitrary: acc)
  case Nil
  then show ?case by simp
next
  case (Cons x rest)
  show ?case
  proof (cases "str_lower w (realpath w (path_str x)) \<in> set (map fst acc)")
    case True
    with Cons.prems have "(k, f) \<in> set (unique_loop w rest acc)"
      by (simp add: Let_def)
    from Cons.IH [OF this] True show ?thesis
      by auto
  next
    case False
    with Cons.prems
    have "(k, f) \<in> set (unique_loop w rest
        (acc @ [(str_lower w (realpath w (path_str x)), x)]))"
      by (simp add: Let_def)
    from Cons.IH [OF this] False show ?thesis
      by auto
  qed
qed

lemma unique_loop_first_empty:
  assumes "(k, f) \<in> set (unique_loop w fs [])"
  shows "find (\<lambda>g. str_lower w (realpath w (path_str g)) = k) fs = Some f
         \<and> k = str_lower w (realpath w (path_str f))"
proof -
  from unique_loop_first [OF assms]
  have a: "find (\<lambda>g. str_lower w (realpath w (path_str g)) = k) fs = Some f" by simp
  then have "str_lower w (realpath w (path_str f)) = k"
    by (auto simp: find_Some_iff)
  with a show ?thesis by simp
qed

lemma unique_loop_map_key:
  "map (\<lambda>f. str_lower w (realpath w (path_str f))) (map snd (unique_loop w fs [])) =
     map fst (unique_loop w fs [])"
proof -
  have "str_lower w (realpath w (path_str (snd p))) = fst p"
    if "p \<in> set (unique_loop w fs [])" for p
    using unique_loop_first_empty [of "fst p" "snd p" w fs] that by simp
  then show ?thesis by simp
qed

lemma unique_files_distinct:
  "distinct (map (\<lambda>f. str_lower w (realpath w (path_str f))) (map snd (unique_loop w fs [])))"
  by (simp only: unique_loop_map_key) (simp add: unique_loop_distinct)

lemma unique_files_keys:
  "(\<lambda>f. str_lower w (realpath w (path_str f))) ` set (map snd (unique_loop w fs [])) =
     (\<lambda>f. str_lower w (realpath w (path_str f))) ` set fs"
proof -
  have "set (map (\<lambda>f. str_lower w (realpath w (path_str f)))
          (map snd (unique_loop w fs []))) =
      (\<lambda>f. str_lower w (realpath w (path_str f))) ` set fs"
    by (simp only: unique_loop_map_key unique_loop_keys) simp
  then show ?thesis by (simp add: image_image)
qed

lemma unique_files_length:
  "length (map snd (unique_loop w fs [])) =
     card ((\<lambda>f. str_lower w (realpath w (path_str f))) ` set fs)"
proof -
  have "card (set (map (\<lambda>f. str_lower w (realpath w (path_str f)))
          (map snd (unique_loop w fs [])))) =
      length (map (\<lambda>f. str_lower w (realpath w (path_str f))) (map snd (unique_loop w fs [])))"
    by (rule distinct_card) (rule unique_files_distinct)
  then show ?thesis
    using unique_files_keys [of w fs] by (simp add: image_image)
qed

lemma unique_loop_extends:
  "\<exists>ys. unique_loop w fs acc = acc @ ys \<and> subseq (map snd ys) fs"
proof (induction fs arbitrary: acc)
  case Nil
  then show ?case by simp
next
  case (Cons x rest)
  show ?case
  proof (cases "str_lower w (realpath w (path_str x)) \<in> set (map fst acc)")
    case True
    from Cons.IH [of acc] obtain ys where
      "unique_loop w rest acc = acc @ ys" "subseq (map snd ys) rest"
      by blast
    with True show ?thesis
      by (auto simp: Let_def)
  next
    case False
    from Cons.IH [of "acc @ [(str_lower w (realpath w (path_str x)), x)]"] obtain ys where
      ys: "unique_loop w rest (acc @ [(str_lower w (realpath w (path_str x)), x)]) =
        (acc @ [(str_lower w (realpath w (path_str x)), x)]) @ ys"
      "subseq (map snd ys) rest"
      by blast
    have "unique_loop w (x # rest) acc =
        acc @ ((str_lower w (realpath w (path_str x)), x) # ys)"
      using False ys(1) by (simp add: Let_def)
    moreover have "subseq (map snd ((str_lower w (realpath w (path_str x)), x) # ys)) (x # rest)"
      using ys(2) by simp
    ultimately show ?thesis by blast
  qed
qed

lemma unique_files_subseq: "subseq (map snd (unique_loop w fs [])) fs"
  using unique_loop_extends [of w fs "[]"] by auto

lemma set_glob:
  "set (glob w folder pattern) =
     child folder ` {name \<in> set (scandir w (path_str folder)).
                      fnmatch (glob_case_sensitive w) name pattern}"
  by (auto simp: glob_def)

lemma fnmatch_scenario:
  "fnmatch cs ''a.mov'' ''*.mov''" "fnmatch cs ''b.mov'' ''*.mov''"
  "fnmatch cs ''A.MOV'' ''*.mov'' = (\<not> cs)"
  by (simp_all add: fnmatch_def endswith_def py_lower_def lower_char_def)

text \<open>
  C4. The identity key of a file is its resolved path in lower case,
  \<^verbatim>\<open>str(file.resolve()).lower()\<close>. The files returned by discovery have pairwise different
  keys; each returned file is the first of the globbed files with its key; every key of a
  globbed file is represented; the returned files are in the order in which they were globbed.
  A directory listing \<^verbatim>\<open>a.mov\<close>, \<^verbatim>\<open>A.MOV\<close> and \<^verbatim>\<open>b.mov\<close>, the first two with the same key,
  gives two files, on a case-sensitive and on a case-insensitive platform, in whatever order
  the system lists them.
\<close>

theorem discovery_unique:
  "distinct (map (\<lambda>f. str_lower w (realpath w (path_str f)))
      (get_unique_mov_files w folder_path))
   \<and> (\<forall>f \<in> set (get_unique_mov_files w folder_path).
        find (\<lambda>g. str_lower w (realpath w (path_str g)) =
                   str_lower w (realpath w (path_str f)))
          (glob_mov_files w (Path folder_path)) = Some f)
   \<and> (\<lambda>f. str_lower w (realpath w (path_str f))) ` set (get_unique_mov_files w folder_path) =
       (\<lambda>f. str_lower w (realpath w (path_str f))) ` set (glob_mov_files w (Path folder_path))
   \<and> subseq (get_unique_mov_files w folder_path) (glob_mov_files w (Path folder_path))
   \<and> (set (scandir w (path_str (Path folder_path))) = {''a.mov'', ''A.MOV'', ''b.mov''}
        \<and> str_lower w (realpath w (path_str (child (Path folder_path) ''a.mov''))) =
            str_lower w (realpath w (path_str (child (Path folder_path) ''A.MOV'')))
        \<and> str_lower w (realpath w (path_str (child (Path folder_path) ''b.mov''))) \<noteq>
            str_lower w (realpath w (path_str (child (Path folder_path) ''a.mov'')))
      \<longrightarrow> length (get_unique_mov_files w folder_path) = 2)"
proof -
  define fs where "fs = glob_mov_files w (Path folder_path)"
  define key where "key = (\<lambda>f. str_lower w (realpath w (path_str f)))"
  have r: "get_unique_mov_files w folder_path = map snd (unique_loop w fs [])"
    by (simp add: get_unique_mov_files_def fs_def)
  have first: "find (\<lambda>g. key g = key f) fs = Some f"
    if "f \<in> set (map snd (unique_loop w fs []))" for f
  proof -
    from that obtain k where "(k, f) \<in> set (unique_loop w fs [])"
      by auto
    from unique_loop_first_empty [OF this] show ?thesis
      by (auto simp: key_def)
  qed
  have scenario: "length (map snd (unique_loop w fs [])) = 2"
    if entries: "set (scandir w (path_str (Path folder_path))) = {''a.mov'', ''A.MOV'', ''b.mov''}"
      and same: "key (child (Path folder_path) ''a.mov'') = key (child (Path folder_path) ''A.MOV'')"
      and other: "key (child (Path folder_path) ''b.mov'') \<noteq> key (child (Path folder_path) ''a.mov'')"
  proof -
    define F where "F = Path folder_path"
    have lower: "set (glob w F ''*.mov'') =
        (if glob_case_sensitive w then {child F ''a.mov'', child F ''b.mov''}
         else {child F ''a.mov'', child F ''A.MOV'', child F ''b.mov''})"
      unfolding set_glob F_def entries
      by (auto simp: fnmatch_scenario)
    then have "glob w F ''*.mov'' \<noteq> []"
      by (auto split: if_splits)
    then have "fs = glob w F ''*.mov''"
      by (simp add: fs_def glob_mov_files_def F_def)
    with lower have "key ` set fs = {key (child F ''a.mov''), key (child F ''b.mov'')}"
      using same by (auto simp: F_def split: if_splits)
    then have "card (key ` set fs) = 2"
      using other by (simp add: F_def)
    then show ?thesis
      using unique_files_length [of w fs] by (simp add: key_def)
  qed
  have "distinct (map key (map snd (unique_loop w fs [])))"
    "key ` set (map snd (unique_loop w fs [])) = key ` set fs"
    "subseq (map snd (unique_loop w fs [])) fs"
    unfolding key_def
    by (rule unique_files_distinct, rule unique_files_keys, rule unique_files_subseq)
  with first scenario
  have "distinct (map key (map snd (unique_loop w fs [])))
   \<and> (\<forall>f \<in> set (map snd (unique_loop w fs [])). find (\<lambda>g. key g = key f) fs = Some f)
   \<and> key ` set (map snd (unique_loop w fs [])) = key ` set fs
   \<and> subseq (map snd (unique_loop w fs [])) fs
   \<and> (set (scandir w (path_str (Path folder_path))) = {''a.mov'', ''A.MOV'', ''b.mov''}
        \<and> key (child (Path folder_path) ''a.mov'') = key (child (Path folder_path) ''A.MOV'')
        \<and> key (child (Path folder_path) ''b.mov'') \<noteq> key (child (Path folder_path) ''a.mov'')
      \<longrightarrow> length (map snd (unique_loop w fs [])) = 2)"
    by blast
  then show ?thesis
    unfolding r fs_def [symmetric] key_def .
qed

theorem discovery_unique_witness:
  "map path_str (glob_mov_files cased_world (Path ''/d'')) =
     [''/d/a.mov'', ''/d/A.mov'', ''/d/link.mov'', ''/d/b.mov'']
   \<and> map (\<lambda>f. str_lower cased_world (realpath cased_world (path_str f)))
       (glob_mov_files cased_world (Path ''/d'')) =
     [''/d/a.mov'', ''/d/a.mov'', ''/d/b.mov'', ''/d/b.mov'']
   \<and> map path_str (get_unique_mov_files cased_world ''/d'') = [''/d/a.mov'', ''/d/link.mov'']
   \<and> child (Path ''/d'') ''link.mov'' \<in> set (get_unique_mov_files cased_world ''/d'')
   \<and> find (\<lambda>g. str_lower cased_world (realpath cased_world (path_str g)) = ''/d/b.mov'')
       (glob_mov_files cased_world (Path ''/d'')) = Some (child (Path ''/d'') ''link.mov'')
   \<and> distinct (map (\<lambda>f. str_lower cased_world (realpath cased_world (path_str f)))
        (get_unique_mov_files cased_world ''/d''))
   \<and> set (scandir (demo_world\<lparr>scandir := (\<lambda>p. [''a.mov'', ''A.MOV'', ''b.mov'']),
                            glob_case_sensitive := False\<rparr>) (path_str (Path ''/d''))) =
       {''a.mov'', ''A.MOV'', ''b.mov''}
   \<and> str_lower (demo_world\<lparr>scandir := (\<lambda>p. [''a.mov'', ''A.MOV'', ''b.mov'']),
                            glob_case_sensitive := False\<rparr>)
       (realpath (demo_world\<lparr>scandir := (\<lambda>p. [''a.mov'', ''A.MOV'', ''b.mov'']),
                            glob_case_sensitive := False\<rparr>)
          (path_str (child (Path ''/d'') ''A.MOV''))) = ''/d/a.mov''
   \<and> length (get_unique_mov_files (demo_world\<lparr>scandir := (\<lambda>p. [''a.mov'', ''A.MOV'', ''b.mov'']),
                            glob_case_sensitive := False\<rparr>) ''/d'') = 2
   \<and> map path_str (get_unique_mov_files
        (demo_world\<lparr>scandir := (\<lambda>p. [''a.mov'', ''A.MOV'', ''b.mov'']),
                     glob_case_sensitive := False\<rparr>) ''/d'') = [''/d/a.mov'', ''/d/b.mov'']"
proof -
  define w where "w = demo_world\<lparr>scandir := (\<lambda>p. [''a.mov'', ''A.MOV'', ''b.mov'']),
                            glob_case_sensitive := False\<rparr>"
  have paths: "path_str (Path ''/d'') = ''/d''"
    "path_str (child (Path ''/d'') ''a.mov'') = ''/d/a.mov''"
    "path_str (child (Path ''/d'') ''A.mov'') = ''/d/A.mov''"
    "path_str (child (Path ''/d'') ''A.MOV'') = ''/d/A.MOV''"
    "path_str (child (Path ''/d'') ''link.mov'') = ''/d/link.mov''"
    "path_str (child (Path ''/d'') ''b.mov'') = ''/d/b.mov''"
    by (simp_all add: child_def Path_def startswith_def path_str_def)
  have lower: "py_lower ''/d/a.mov'' = ''/d/a.mov''" "py_lower ''/d/A.mov'' = ''/d/a.mov''"
    "py_lower ''/d/A.MOV'' = ''/d/a.mov''" "py_lower ''/d/b.mov'' = ''/d/b.mov''"
    by (simp_all add: py_lower_def lower_char_def)
  have fields: "str_lower cased_world = py_lower"
    "realpath cased_world = (\<lambda>p. if p = ''/d/link.mov'' then ''/d/b.mov'' else p)"
    "scandir cased_world ''/d'' = [''a.mov'', ''A.mov'', ''link.mov'', ''b.mov'']"
    "glob_case_sensitive cased_world"
    "str_lower w = py_lower" "realpath w = (\<lambda>p. p)"
    "scandir w ''/d'' = [''a.mov'', ''A.MOV'', ''b.mov'']" "\<not> glob_case_sensitive w"
    by (simp_all add: cased_world_def w_def demo_world_def)
  have matches: "fnmatch True ''A.mov'' ''*.mov''" "fnmatch True ''link.mov'' ''*.mov''"
    by (simp_all add: fnmatch_def endswith_def)
  have globbed: "glob cased_world (Path ''/d'') ''*.mov'' =
      [child (Path ''/d'') ''a.mov'', child (Path ''/d'') ''A.mov'',
       child (Path ''/d'') ''link.mov'', child (Path ''/d'') ''b.mov'']"
    by (simp add: glob_def paths fields fnmatch_scenario matches)
  have cands: "glob_mov_files cased_world (Path ''/d'') =
      [child (Path ''/d'') ''a.mov'', child (Path ''/d'') ''A.mov'',
       child (Path ''/d'') ''link.mov'', child (Path ''/d'') ''b.mov'']"
    by (simp add: glob_mov_files_def globbed)
  have found: "get_unique_mov_files cased_world ''/d'' =
      [child (Path ''/d'') ''a.mov'', child (Path ''/d'') ''link.mov'']"
    by (simp add: get_unique_mov_files_def cands paths fields lower Let_def)
  have globbed': "glob w (Path ''/d'') ''*.mov'' =
      [child (Path ''/d'') ''a.mov'', child (Path ''/d'') ''A.MOV'', child (Path ''/d'') ''b.mov'']"
    by (simp add: glob_def paths fields fnmatch_scenario)
  have found': "get_unique_mov_files w ''/d'' =
      [child (Path ''/d'') ''a.mov'', child (Path ''/d'') ''b.mov'']"
    by (simp add: get_unique_mov_files_def glob_mov_files_def globbed' paths fields lower Let_def)
  have c1: "map path_str (glob_mov_files cased_world (Path ''/d'')) =
     [''/d/a.mov'', ''/d/A.mov'', ''/d/link.mov'', ''/d/b.mov'']"
    by (simp add: cands paths)
  have c2: "map (\<lambda>f. str_lower cased_world (realpath cased_world (path_str f)))
       (glob_mov_files cased_world (Path ''/d'')) =
     [''/d/a.mov'', ''/d/a.mov'', ''/d/b.mov'', ''/d/b.mov'']"
    by (simp add: cands paths fields lower)
  have c3: "map path_str (get_unique_mov_files cased_world ''/d'') = [''/d/a.mov'', ''/d/link.mov'']"
    by (simp add: found paths)
  have c4: "child (Path ''/d'') ''link.mov'' \<in> set (get_unique_mov_files cased_world ''/d'')"
    by (simp add: found)
  note one = discovery_unique [of cased_world "''/d''"]
  from one c4
  have "find (\<lambda>g. str_lower cased_world (realpath cased_world (path_str g)) =
                   str_lower cased_world (realpath cased_world
                     (path_str (child (Path ''/d'') ''link.mov''))))
          (glob_mov_files cased_world (Path ''/d'')) = Some (child (Path ''/d'') ''link.mov'')"
    by blast
  then have c5: "find (\<lambda>g. str_lower cased_world (realpath cased_world (path_str g)) =
       ''/d/b.mov'') (glob_mov_files cased_world (Path ''/d'')) =
       Some (child (Path ''/d'') ''link.mov'')"
    by (simp add: paths fields lower)
  from one
  have c6: "distinct (map (\<lambda>f. str_lower cased_world (realpath cased_world (path_str f)))
        (get_unique_mov_files cased_world ''/d''))"
    by blast
  have c7: "set (scandir w (path_str (Path ''/d''))) = {''a.mov'', ''A.MOV'', ''b.mov''}"
    by (simp add: paths fields)
  have c8: "str_lower w (realpath w (path_str (child (Path ''/d'') ''A.MOV''))) = ''/d/a.mov''"
    by (simp add: paths fields lower)
  have k: "str_lower w (realpath w (path_str (child (Path ''/d'') ''a.mov''))) = ''/d/a.mov''"
    "str_lower w (realpath w (path_str (child (Path ''/d'') ''b.mov''))) = ''/d/b.mov''"
    by (simp_all add: paths fields lower)
  from discovery_unique [of w "''/d''"] c7 c8 k
  have c9: "length (get_unique_mov_files w ''/d'') = 2"
    by simp
  have c10: "map path_str (get_unique_mov_files w ''/d'') = [''/d/a.mov'', ''/d/b.mov'']"
    by (simp add: found' paths)
  show ?thesis
    unfolding w_def [symmetric]
    by (intro conjI)
       (fact c1, fact c2, fact c3, fact c4, fact c5, fact c6, fact c7, fact c8, fact c9, fact c10)
qed

section \<open>The folder batch: before the loop\<close>

subsection \<open>What \<open>makedirs\<close> changes\<close>

lemma makedirs_walk_frame:
  "makedirs_walk root cur cs w = Inr w' \<Longrightarrow>
     \<exists>D S. w' = w\<lparr>dirs := D, scandir := S\<rparr> \<and> dirs w \<subseteq> D"
proof (induction cs arbitrary: cur w)
  case Nil
  then have "w' = w\<lparr>dirs := dirs w, scandir := scandir w\<rparr>" by simp
  then show ?case by blast
next
  case (Cons c rest)
  show ?case
  proof (cases "c = ''.'' \<or> c = ''..''")
    case True
    with Cons.prems Cons.IH show ?thesis
      by (auto split: if_splits)
  next
    case False
    define parent where "parent = path_str \<lparr>anchor = root, parts = cur\<rparr>"
    define here where "here = path_str \<lparr>anchor = root, parts = cur @ [c]\<rparr>"
    show ?thesis
    proof (cases "here \<in> dirs w")
      case True
      with False Cons.prems have "makedirs_walk root (cur @ [c]) rest w = Inr w'"
        by (simp add: Let_def here_def)
      from Cons.IH [OF this] show ?thesis .
    next
      case absent: False
      define w2 where "w2 = w\<lparr>dirs := insert here (dirs w),
                       scandir := (scandir w)(parent := scandir w parent @ [c])\<rparr>"
      from False absent Cons.prems have "makedirs_walk root (cur @ [c]) rest w2 = Inr w'"
        by (simp add: Let_def here_def [symmetric] parent_def [symmetric] w2_def
            split: if_splits option.splits)
      from Cons.IH [OF this] obtain D S where "w' = w2\<lparr>dirs := D, scandir := S\<rparr>" "dirs w2 \<subseteq> D"
        by blast
      then have "w' = w\<lparr>dirs := D, scandir := S\<rparr>" "dirs w \<subseteq> D"
        by (auto simp: w2_def)
      then show ?thesis by blast
    qed
  qed
qed

lemma makedirs_frame:
  assumes "makedirs d w = Inr w1"
  shows "\<exists>D S. w1 = w\<lparr>dirs := D, scandir := S\<rparr> \<and> dirs w \<subseteq> D \<and> d \<in> D"
proof (cases "d \<in> dirs w")
  case True
  with assms have "w1 = w\<lparr>dirs := dirs w, scandir := scandir w\<rparr>"
    by (simp add: makedirs_def split: if_splits)
  with True show ?thesis by blast
next
  case False
  with assms obtain w' where
    walk: "makedirs_walk (anchor (Path d)) [] (filter (\<lambda>c. c \<noteq> '''') (split_sep d)) w = Inr w'"
    and w1: "w1 = w'\<lparr>dirs := insert d (dirs w')\<rparr>"
    by (auto simp: makedirs_def split: if_splits sum.splits)
  from makedirs_walk_frame [OF walk] obtain D S where
    "w' = w\<lparr>dirs := D, scandir := S\<rparr>" "dirs w \<subseteq> D"
    by blast
  with w1 have "w1 = w\<lparr>dirs := insert d D, scandir := S\<rparr>" "dirs w \<subseteq> insert d D"
    by auto
  then show ?thesis by blast
qed

lemma makedirs_keeps:
  assumes "makedirs d w = Inr w1"
  shows "files w1 = files w" "stdin w1 = stdin w" "out w1 = out w" "svc_calls w1 = svc_calls w"
    "realpath w1 = realpath w" "str_lower w1 = str_lower w"
    "glob_case_sensitive w1 = glob_case_sensitive w" "cpu_count w1 = cpu_count w"
    "dir_size w1 = dir_size w" "fd_open w1 = fd_open w" "mkdir_error w1 = mkdir_error w"
    "dirs w \<subseteq> dirs w1" "d \<in> dirs w1"
  using makedirs_frame [OF assms] by auto


lemma makedirs_idem: "makedirs d w = Inr w1 \<Longrightarrow> makedirs d w1 = Inr w1"
proof -
  assume a: "makedirs d w = Inr w1"
  then have "d \<noteq> ''''" by (auto simp: makedirs_def split: if_splits)
  with makedirs_keeps(13) [OF a] show ?thesis by (simp add: makedirs_def)
qed

subsection \<open>Discovery and listing\<close>

lemma unique_loop_cong:
  "realpath w' = realpath w \<Longrightarrow> str_lower w' = str_lower w \<Longrightarrow>
     unique_loop w' fs acc = unique_loop w fs acc"
  by (induction fs arbitrary: acc) (simp_all add: Let_def)

lemma get_unique_mov_files_cong:
  assumes "scandir w' = scandir w" and "realpath w' = realpath w"
    and "str_lower w' = str_lower w"
    and "glob_case_sensitive w' = glob_case_sensitive w"
  shows "get_unique_mov_files w' folder_path = get_unique_mov_files w folder_path"
proof -
  have g: "glob w' F p = glob w F p" for F p
    using assms by (simp add: glob_def)
  show ?thesis
    by (simp add: get_unique_mov_files_def glob_mov_files_def g
          unique_loop_cong [OF assms(2,3)] Let_def cong: if_cong)
qed

lemma keeps_cond:
  "keeps proj m1 \<Longrightarrow> keeps proj m2 \<Longrightarrow> keeps proj (\<lambda>w. if c w then m1 w else m2 w)"
  by (simp add: keeps_def)

lemma keeps_list_loop:
  assumes "\<And>m w. proj (say m w) = proj w"
  shows "keeps proj (list_loop i fs)"
proof (induction fs arbitrary: i)
  case Nil
  have "list_loop i [] = done_with ()" by (rule ext) simp
  then show ?case by simp
next
  case (Cons x rest)
  have "list_loop i (x # rest) =
      then_do (lift (\<lambda>w. getsize w (path_str x))) (\<lambda>size.
      then_do (print (Msg_listing_line i (path_name x) size)) (\<lambda>_.
      list_loop (Suc i) rest))"
    by (rule ext) simp
  then show ?case
    by (simp only:) (intro keeps_then_do keeps_print keeps_simple assms Cons.IH)
qed

lemma keeps_list_mov_files:
  assumes "\<And>m w. proj (say m w) = proj w"
  shows "keeps proj (list_mov_files folder_path)"
proof -
  have "proj (snd (list_mov_files folder_path w)) = proj w" for w
  proof (cases "get_unique_mov_files w folder_path = []")
    case True
    then show ?thesis by (simp add: list_mov_files_def done_with_def)
  next
    case False
    have "keeps proj
        (then_do (print Msg_listing_header) (\<lambda>_.
         then_do (list_loop 1 (sort_key path_name (get_unique_mov_files w folder_path))) (\<lambda>_.
         then_do (print (Msg_listing_total (length (get_unique_mov_files w folder_path)))) (\<lambda>_.
         done_with (get_unique_mov_files w folder_path)))))"
      by (intro keeps_then_do keeps_print keeps_simple keeps_list_loop assms)
    from keepsD [OF this, of w] False show ?thesis
      by (simp add: list_mov_files_def Let_def)
  qed
  then show ?thesis by (simp add: keeps_def)
qed

lemma list_mov_files_empty:
  "get_unique_mov_files w folder_path = [] \<Longrightarrow> list_mov_files folder_path w = (Inr [], w)"
  by (simp add: list_mov_files_def done_with_def)


lemma then_do_final_remark:
  "then_do (final_remark c n) f w = f () (snd (final_remark c n w))"
  by (simp add: final_remark_def then_do_def print_def done_with_def)


lemma final_remark_out:
  "\<exists>ms. out (snd (final_remark c n w)) = out w @ ms \<and> list_all plain ms"
  by (simp add: final_remark_def print_def done_with_def plain_def)

text \<open>The function, with its statements written out as the cases they distinguish.\<close>

lemma batch_convert_lossless_cases:
  "batch_convert_lossless svc input_folder output_folder meth w =
     (let d = (case output_folder of None \<Rightarrow> input_folder | Some d \<Rightarrow> d) in
      case makedirs d w of
        Inl e \<Rightarrow> (Inl e, w)
      | Inr w1 \<Rightarrow>
          (case list_mov_files input_folder w1 of
             (Inl e, w2) \<Rightarrow> (Inl e, w2)
           | (Inr mov_files, w2) \<Rightarrow>
               if mov_files = [] then (Inr No_files, say Msg_no_mov_files w2)
               else
                 (case stdin w2 of
                    [] \<Rightarrow>
                      (Inl EOFError,
                       say Msg_prompt_continue (say (Msg_will_process (length mov_files)) w2))
                  | response # rest \<Rightarrow>
                      let w3 = (say Msg_prompt_continue
                                 (say (Msg_will_process (length mov_files)) w2))\<lparr>stdin := rest\<rparr>
                      in if py_lower response \<noteq> ''y'' then (Inr Cancelled, say Msg_cancelled w3)
                         else
                           (case batch_loop svc d meth (length mov_files) 1 mov_files (0, w3) of
                              (c, w4) \<Rightarrow>
                                (Inr (Completed c (length mov_files)),
                                 snd (final_remark c (length mov_files)
                                        (say (Msg_summary c (length mov_files)) w4)))))))"
proof -
  have mk: "then_do (\<lambda>w. case makedirs d w of Inl e \<Rightarrow> (Inl e, w) | Inr w' \<Rightarrow> (Inr (), w')) f w =
      (case makedirs d w of Inl e \<Rightarrow> (Inl e, w) | Inr w1 \<Rightarrow> f () w1)" for d f
    by (simp add: then_do_def split: sum.splits)
  have ls: "then_do (list_mov_files input_folder) g w1 =
      (case list_mov_files input_folder w1 of
         (Inl e, w2) \<Rightarrow> (Inl e, w2)
       | (Inr mov_files, w2) \<Rightarrow> g mov_files w2)" for g w1
    by (simp add: then_do_def)
  have app: "(if c then f else g) x = (if c then f x else g x)"
    for c and f g :: "batch_outcome stmt" and x
    by simp
  show ?thesis
    by (simp add: batch_convert_lossless_def Let_def mk ls app then_do_input
          then_do_final_remark done_with_def
        cong: sum.case_cong prod.case_cong list.case_cong if_cong)
qed

subsection \<open>Directories are only created by \<open>makedirs\<close>\<close>







lemma batch_after_makedirs:
  assumes "d = (case output_folder of None \<Rightarrow> input_folder | Some x \<Rightarrow> x)"
    and "makedirs d w = Inr w1"
    and "list_mov_files input_folder w1 = (r, w2)"
  shows "batch_convert_lossless svc input_folder output_folder meth w =
        (case r of
           Inl e \<Rightarrow> (Inl e, w2)
         | Inr mov_files \<Rightarrow>
             if mov_files = [] then (Inr No_files, say Msg_no_mov_files w2)
             else
               (case stdin w2 of
                  [] \<Rightarrow>
                    (Inl EOFError,
                     say Msg_prompt_continue (say (Msg_will_process (length mov_files)) w2))
                | response # rest \<Rightarrow>
                    let w3 = (say Msg_prompt_continue
                               (say (Msg_will_process (length mov_files)) w2))\<lparr>stdin := rest\<rparr>
                    in if py_lower response \<noteq> ''y'' then (Inr Cancelled, say Msg_cancelled w3)
                       else
                         (case batch_loop svc d meth (length mov_files) 1 mov_files (0, w3) of
                            (c, w4) \<Rightarrow>
                              (Inr (Completed c (length mov_files)),
                               snd (final_remark c (length mov_files)
                                      (say (Msg_summary c (length mov_files)) w4))))))"
  using assms(2,3)
  by (simp add: batch_convert_lossless_cases assms(1) [symmetric])


lemma demo_paths:
  "path_str (Path ''/d'') = ''/d''"
  "path_str (child (Path ''/d'') ''x.mov'') = ''/d/x.mov''"
  "path_name (child (Path ''/d'') ''x.mov'') = ''x.mov''"
  "path_stem (child (Path ''/d'') ''x.mov'') = ''x''"
  "path_str (child (Path ''/d'') ''out.mov'') = ''/d/out.mov''"
  "path_name (child (Path ''/d'') ''out.mov'') = ''out.mov''"
  by (simp_all add: child_def Path_def startswith_def path_str_def path_name_def path_stem_def
      name_stem_def)





subsection \<open>What discovery returns\<close>

lemma unique_loop_all:
  "distinct (map fst acc @ map (\<lambda>f. str_lower w (realpath w (path_str f))) fs) \<Longrightarrow>
     unique_loop w fs acc =
       acc @ map (\<lambda>f. (str_lower w (realpath w (path_str f)), f)) fs"
  by (induction fs arbitrary: acc) (auto simp: Let_def)

lemma unique_files_all:
  "distinct (map (\<lambda>f. str_lower w (realpath w (path_str f))) fs) \<Longrightarrow>
     map snd (unique_loop w fs []) = fs"
  by (simp add: unique_loop_all comp_def)

lemma unique_files_hd:
  assumes "fs \<noteq> []"
  shows "map snd (unique_loop w fs []) \<noteq> [] \<and> hd (map snd (unique_loop w fs [])) = hd fs"
proof -
  from assms obtain x rest where fs: "fs = x # rest"
    by (cases fs) auto
  from unique_loop_extends [of w rest "[(str_lower w (realpath w (path_str x)), x)]"]
  obtain ys where "unique_loop w rest [(str_lower w (realpath w (path_str x)), x)] =
      [(str_lower w (realpath w (path_str x)), x)] @ ys"
    by blast
  then show ?thesis
    by (simp add: fs Let_def)
qed

lemma unique_files_subset: "set (map snd (unique_loop w fs [])) \<subseteq> set fs"
proof
  fix x
  assume "x \<in> set (map snd (unique_loop w fs []))"
  from list_emb_set [OF unique_files_subseq this] show "x \<in> set fs"
    by blast
qed

text \<open>
  C9. Discovery globs \<^verbatim>\<open>*.mov\<close> and, only when that finds nothing, \<^verbatim>\<open>*.MOV\<close>: what it
  returns are the files of the one glob or of the other, less those whose key has been seen.
  So when \<^verbatim>\<open>*.mov\<close> finds nothing, the files returned are files that \<^verbatim>\<open>*.MOV\<close> has found,
  the first of them among these, and all of them when their keys differ. When neither pattern
  matches, the result is the empty list, not an error; the listing then returns it without
  printing, and the folder batch, once its output folder is in place and nothing is found,
  reports that no files were found and returns, without asking anything and without
  converting.
\<close>

theorem discovery_fallback:
  "get_unique_mov_files w folder_path =
     map snd (unique_loop w
       (if glob w (Path folder_path) ''*.mov'' = [] then glob w (Path folder_path) ''*.MOV''
        else glob w (Path folder_path) ''*.mov'') [])
   \<and> (glob w (Path folder_path) ''*.mov'' \<noteq> [] \<longrightarrow>
        get_unique_mov_files w folder_path \<noteq> []
        \<and> set (get_unique_mov_files w folder_path) \<subseteq> set (glob w (Path folder_path) ''*.mov''))
   \<and> (glob w (Path folder_path) ''*.mov'' = [] \<longrightarrow>
        set (get_unique_mov_files w folder_path) \<subseteq> set (glob w (Path folder_path) ''*.MOV'')
        \<and> (glob w (Path folder_path) ''*.MOV'' \<noteq> [] \<longrightarrow>
             get_unique_mov_files w folder_path \<noteq> []
             \<and> hd (get_unique_mov_files w folder_path) = hd (glob w (Path folder_path) ''*.MOV''))
        \<and> (distinct (map (\<lambda>f. str_lower w (realpath w (path_str f)))
                      (glob w (Path folder_path) ''*.MOV'')) \<longrightarrow>
             get_unique_mov_files w folder_path = glob w (Path folder_path) ''*.MOV''))
   \<and> (glob w (Path folder_path) ''*.mov'' = [] \<and> glob w (Path folder_path) ''*.MOV'' = [] \<longrightarrow>
        get_unique_mov_files w folder_path = []
        \<and> list_mov_files folder_path w = (Inr [], w))
   \<and> (makedirs (case output_folder of None \<Rightarrow> folder_path | Some x \<Rightarrow> x) w = Inr w1
        \<and> get_unique_mov_files w1 folder_path = [] \<longrightarrow>
        batch_convert_lossless svc folder_path output_folder meth w =
          (Inr No_files, say Msg_no_mov_files w1))"
proof -
  define lower where "lower = glob w (Path folder_path) ''*.mov''"
  define upper where "upper = glob w (Path folder_path) ''*.MOV''"
  have r: "get_unique_mov_files w folder_path =
      map snd (unique_loop w (if lower = [] then upper else lower) [])"
    by (simp add: get_unique_mov_files_def glob_mov_files_def lower_def upper_def Let_def)
  have a: "get_unique_mov_files w folder_path \<noteq> []
      \<and> set (get_unique_mov_files w folder_path) \<subseteq> set lower"
    if "lower \<noteq> []"
    using that unique_files_hd [of lower w] unique_files_subset [of w lower] by (simp add: r)
  have b: "set (get_unique_mov_files w folder_path) \<subseteq> set upper
      \<and> (upper \<noteq> [] \<longrightarrow>
           get_unique_mov_files w folder_path \<noteq> []
           \<and> hd (get_unique_mov_files w folder_path) = hd upper)
      \<and> (distinct (map (\<lambda>f. str_lower w (realpath w (path_str f))) upper) \<longrightarrow>
           get_unique_mov_files w folder_path = upper)"
    if "lower = []"
    using that unique_files_hd [of upper w] unique_files_subset [of w upper]
      unique_files_all [of w upper]
    by (simp add: r)
  have c: "get_unique_mov_files w folder_path = []
      \<and> list_mov_files folder_path w = (Inr [], w)"
    if "lower = [] \<and> upper = []"
    using that by (simp add: r list_mov_files_empty)
  have d: "batch_convert_lossless svc folder_path output_folder meth w =
          (Inr No_files, say Msg_no_mov_files w1)"
    if "makedirs (case output_folder of None \<Rightarrow> folder_path | Some x \<Rightarrow> x) w = Inr w1
        \<and> get_unique_mov_files w1 folder_path = []"
    using that by (simp add: batch_convert_lossless_cases list_mov_files_empty)
  from r a b c d show ?thesis
    unfolding lower_def upper_def by blast
qed

theorem discovery_fallback_witness:
  "glob capitals_world (Path ''/d'') ''*.mov'' = []
   \<and> glob capitals_world (Path ''/d'') ''*.MOV'' = [child (Path ''/d'') ''X.MOV'']
   \<and> distinct (map (\<lambda>f. str_lower capitals_world (realpath capitals_world (path_str f)))
        (glob capitals_world (Path ''/d'') ''*.MOV''))
   \<and> get_unique_mov_files capitals_world ''/d'' = [child (Path ''/d'') ''X.MOV'']
   \<and> path_str (child (Path ''/d'') ''X.MOV'') = ''/d/X.MOV''
   \<and> glob demo_world (Path ''/d'') ''*.mov'' = [child (Path ''/d'') ''x.mov'']
   \<and> get_unique_mov_files demo_world ''/d'' \<noteq> []
   \<and> glob bare_world (Path ''/d'') ''*.mov'' = []
   \<and> glob bare_world (Path ''/d'') ''*.MOV'' = []
   \<and> get_unique_mov_files bare_world ''/d'' = []
   \<and> list_mov_files ''/d'' bare_world = (Inr [], bare_world)
   \<and> makedirs ''/d'' bare_world = Inr bare_world
   \<and> fst (batch_convert_lossless demo_service ''/d'' None ''high_quality'' bare_world) =
       Inr No_files
   \<and> out (snd (batch_convert_lossless demo_service ''/d'' None ''high_quality'' bare_world)) =
       [Msg_no_mov_files]
   \<and> stdin (snd (batch_convert_lossless demo_service ''/d'' None ''high_quality'' bare_world))
       = [''y'']"
proof -
  have paths: "path_str (Path ''/d'') = ''/d''"
    "path_str (child (Path ''/d'') ''X.MOV'') = ''/d/X.MOV''"
    by (simp_all add: child_def path_str_def Path_def startswith_def)
  have fields: "scandir capitals_world ''/d'' = [''X.MOV'', ''notes.txt'']"
    "glob_case_sensitive capitals_world"
    "scandir bare_world ''/d'' = [''notes.txt'']" "glob_case_sensitive bare_world"
    "scandir demo_world ''/d'' = [''x.mov'']" "glob_case_sensitive demo_world"
    "''/d'' \<in> dirs bare_world" "out bare_world = []" "stdin bare_world = [''y'']"
    by (simp_all add: capitals_world_def bare_world_def demo_world_def)
  have g1: "glob capitals_world (Path ''/d'') ''*.mov'' = []"
    by (simp add: glob_def paths fields fnmatch_def endswith_def)
  have g2: "glob capitals_world (Path ''/d'') ''*.MOV'' = [child (Path ''/d'') ''X.MOV'']"
    by (simp add: glob_def paths fields fnmatch_def endswith_def)
  have g3: "glob bare_world (Path ''/d'') ''*.mov'' = []"
    "glob bare_world (Path ''/d'') ''*.MOV'' = []"
    by (simp_all add: glob_def paths fields fnmatch_def endswith_def)
  have g4: "glob demo_world (Path ''/d'') ''*.mov'' = [child (Path ''/d'') ''x.mov'']"
    by (simp add: glob_def paths fields fnmatch_def endswith_def)
  have g5: "distinct (map (\<lambda>f. str_lower capitals_world (realpath capitals_world (path_str f)))
        (glob capitals_world (Path ''/d'') ''*.MOV''))"
    by (simp add: g2)
  have mk: "makedirs ''/d'' bare_world = Inr bare_world"
    by (simp add: makedirs_def fields)
  from discovery_fallback [where w = capitals_world and folder_path = "''/d''"] g1 g5
  have c1: "get_unique_mov_files capitals_world ''/d'' = [child (Path ''/d'') ''X.MOV'']"
    by (simp add: g2)
  from discovery_fallback [where w = demo_world and folder_path = "''/d''"] g4
  have c2: "get_unique_mov_files demo_world ''/d'' \<noteq> []"
    by simp
  note inst = discovery_fallback [where w = bare_world and folder_path = "''/d''"
      and output_folder = None and ?w1.0 = bare_world and svc = demo_service
      and meth = "''high_quality''"]
  from inst g3
  have c3: "get_unique_mov_files bare_world ''/d'' = []"
    and c4: "list_mov_files ''/d'' bare_world = (Inr [], bare_world)"
    by simp_all
  from inst mk c3
  have run: "batch_convert_lossless demo_service ''/d'' None ''high_quality'' bare_world =
      (Inr No_files, say Msg_no_mov_files bare_world)"
    by simp
  have c5: "fst (batch_convert_lossless demo_service ''/d'' None ''high_quality'' bare_world) =
       Inr No_files"
    "out (snd (batch_convert_lossless demo_service ''/d'' None ''high_quality'' bare_world)) =
       [Msg_no_mov_files]"
    "stdin (snd (batch_convert_lossless demo_service ''/d'' None ''high_quality'' bare_world))
       = [''y'']"
    by (simp_all add: run fields)
  show ?thesis
    by (intro conjI)
       (fact g1, fact g2, fact g5, fact c1, fact paths(2), fact g4, fact c2, fact g3(1),
        fact g3(2), fact c3, fact c4, fact mk, fact c5(1), fact c5(2), fact c5(3))
qed

section \<open>What a job and a batch leave on the console\<close>

lemma headers_append [simp]: "headers (xs @ ys) = headers xs @ headers ys"
  by (simp add: headers_def List.map_filter_def)

lemma verdicts_append [simp]: "verdicts (xs @ ys) = verdicts xs @ verdicts ys"
  by (simp add: verdicts_def List.map_filter_def)

lemma not_found_count_append [simp]:
  "not_found_count (xs @ ys) = not_found_count xs + not_found_count ys"
  by (simp add: not_found_count_def)

lemma error_count_append [simp]: "error_count (xs @ ys) = error_count xs + error_count ys"
  by (simp add: error_count_def)

lemma log_Cons [simp]:
  "headers (m # ms) = (case processing_line m of None \<Rightarrow> [] | Some h \<Rightarrow> [h]) @ headers ms"
  "verdicts (m # ms) = (case per_file_result m of None \<Rightarrow> [] | Some v \<Rightarrow> [v]) @ verdicts ms"
  "not_found_count (m # ms) = (if is_not_found m then 1 else 0) + not_found_count ms"
  "error_count (m # ms) = (if is_error m then 1 else 0) + error_count ms"
  by (simp_all add: headers_def verdicts_def not_found_count_def error_count_def
      split: option.splits)

lemma log_empty [simp]:
  "headers [] = []" "verdicts [] = []" "not_found_count [] = 0" "error_count [] = 0"
  by (simp_all add: headers_def verdicts_def not_found_count_def error_count_def)

lemma plain_log:
  "list_all plain ms \<Longrightarrow>
     headers ms = [] \<and> verdicts ms = [] \<and> not_found_count ms = 0 \<and> error_count ms = 0"
  by (induction ms) (simp_all add: plain_def)

lemma quietD: "quiet m \<Longrightarrow> \<exists>ms. out (snd (m w)) = out w @ ms \<and> list_all plain ms"
  by (simp add: quiet_def)

lemma quiet_then_do:
  assumes "quiet m" and "\<And>a. quiet (f a)"
  shows "quiet (then_do m f)"
proof -
  have "\<exists>ms. out (snd (then_do m f w)) = out w @ ms \<and> list_all plain ms" for w
  proof (cases "m w")
    case (Pair r w')
    from quietD [OF assms(1), of w] Pair
    obtain ms where ms: "out w' = out w @ ms" "list_all plain ms"
      by auto
    show ?thesis
    proof (cases r)
      case (Inl e)
      with Pair ms show ?thesis by (auto simp: then_do_def)
    next
      case (Inr a)
      from quietD [OF assms(2), of a w']
      obtain ns where "out (snd (f a w')) = out w' @ ns" "list_all plain ns"
        by auto
      with Pair Inr ms have "out (snd (then_do m f w)) = out w @ (ms @ ns)"
        "list_all plain (ms @ ns)"
        by (simp_all add: then_do_def)
      then show ?thesis by blast
    qed
  qed
  then show ?thesis by (simp add: quiet_def)
qed

lemma quiet_simple [simp]: "quiet (done_with a)" "quiet (raise e)" "quiet (lift g)"
  by (simp_all add: quiet_def done_with_def raise_def lift_def)

lemma quiet_print: "plain m \<Longrightarrow> quiet (print m)"
  by (simp add: quiet_def print_def)

lemma quiet_if: "quiet m1 \<Longrightarrow> quiet m2 \<Longrightarrow> quiet (if c then m1 else m2)"
  by simp

lemma quiet_input: "plain prompt \<Longrightarrow> quiet (py_input prompt)"
  by (simp add: quiet_def py_input_def split: list.splits)

lemma quiet_open: "quiet (call_open_clip svc i)"
  by (simp add: quiet_def call_open_clip_def Let_def split: option.splits)

lemma quiet_write: "quiet (call_write_videofile svc i req)"
  by (simp add: quiet_def call_write_videofile_def Let_def split: option.splits prod.splits)

lemma quiet_report: "quiet (report i p)"
  unfolding report_def
  by (intro quiet_then_do quiet_if quiet_print quiet_simple) (simp_all add: plain_def)

lemma quiet_transcode: "quiet (transcode svc i p meth)"
  unfolding transcode_def
  by (intro quiet_then_do quiet_print quiet_simple quiet_open quiet_write quiet_report)
     (simp_all add: plain_def)

lemma returnsD: "returns Q m \<Longrightarrow> fst (m w) = Inr a \<Longrightarrow> Q a"
  by (auto simp: returns_def split: sum.splits dest!: spec [of _ w])

lemma returns_then_do:
  assumes "\<And>a. returns Q (f a)"
  shows "returns Q (then_do m f)"
proof -
  have "case fst (then_do m f w) of Inl e \<Rightarrow> True | Inr b \<Rightarrow> Q b" for w
  proof (cases "m w")
    case (Pair r w')
    show ?thesis
    proof (cases r)
      case (Inl e)
      with Pair show ?thesis by (simp add: then_do_def)
    next
      case (Inr a)
      with Pair assms [of a] show ?thesis
        by (simp add: then_do_def returns_def)
    qed
  qed
  then show ?thesis by (simp add: returns_def)
qed

lemma returns_simple [simp]: "Q a \<Longrightarrow> returns Q (done_with a)" "returns Q (raise e)"
  by (simp_all add: returns_def done_with_def raise_def)

lemma returns_if: "returns Q m1 \<Longrightarrow> returns Q m2 \<Longrightarrow> returns Q (if c then m1 else m2)"
  by simp

lemma returns_report: "returns (\<lambda>b. b) (report i p)"
  unfolding report_def
  by (intro returns_then_do returns_if returns_simple) simp

lemma returns_transcode: "returns (\<lambda>b. b) (transcode svc i p meth)"
  unfolding transcode_def
  by (intro returns_then_do returns_report)

subsection \<open>Statements that do not read the console\<close>

lemma out_blindD:
  "out_blind m \<Longrightarrow>
     \<exists>ms. \<forall>before. m (w\<lparr>out := before\<rparr>) = (fst (m w), (snd (m w))\<lparr>out := before @ ms\<rparr>)"
  by (simp add: out_blind_def)

lemma out_blind_then_do:
  assumes "out_blind m" and "\<And>a. out_blind (f a)"
  shows "out_blind (then_do m f)"
proof -
  have "\<exists>ms. \<forall>before. then_do m f (w\<lparr>out := before\<rparr>) =
      (fst (then_do m f w), (snd (then_do m f w))\<lparr>out := before @ ms\<rparr>)" for w
  proof -
    obtain r w1 where mw: "m w = (r, w1)"
      by (cases "m w")
    from out_blindD [OF assms(1), of w] mw
    obtain ms1 where ms1: "\<And>before. m (w\<lparr>out := before\<rparr>) = (r, w1\<lparr>out := before @ ms1\<rparr>)"
      by auto
    show ?thesis
    proof (cases r)
      case (Inl e)
      with mw ms1 show ?thesis
        by (intro exI [of _ ms1]) (simp add: then_do_def)
    next
      case (Inr a)
      from out_blindD [OF assms(2), of a w1]
      obtain ms2 where ms2: "\<And>before. f a (w1\<lparr>out := before\<rparr>) =
          (fst (f a w1), (snd (f a w1))\<lparr>out := before @ ms2\<rparr>)"
        by auto
      have "then_do m f (w\<lparr>out := before\<rparr>) =
          (fst (then_do m f w), (snd (then_do m f w))\<lparr>out := before @ (ms1 @ ms2)\<rparr>)"
        for before
        using mw Inr ms1 [of before] ms2 [of "before @ ms1"] by (simp add: then_do_def)
      then show ?thesis by blast
    qed
  qed
  then show ?thesis by (simp add: out_blind_def)
qed

lemma out_blind_simple [simp]:
  "out_blind (done_with a)" "out_blind (raise e)" "out_blind (print m)"
  "out_blind (py_input prompt)" "out_blind (call_open_clip svc i)"
  "out_blind (call_write_videofile svc i req)"
proof -
  show "out_blind (done_with a)" "out_blind (raise e)"
    "out_blind (call_open_clip svc i)" "out_blind (call_write_videofile svc i req)"
    unfolding out_blind_def
    by (intro allI exI [of _ "[]"];
        simp add: done_with_def raise_def call_open_clip_def call_write_videofile_def Let_def
          split: option.splits prod.splits)+
  show "out_blind (print m)"
    unfolding out_blind_def
    by (intro allI exI [of _ "[m]"]) (simp add: print_def say_def)
  show "out_blind (py_input prompt)"
    unfolding out_blind_def
    by (intro allI exI [of _ "[prompt]"]) (simp add: py_input_def say_def split: list.splits)
qed

lemma out_blind_lift: "(\<And>w before. g (w\<lparr>out := before\<rparr>) = g w) \<Longrightarrow> out_blind (lift g)"
  unfolding out_blind_def by (intro allI exI [of _ "[]"]) (simp add: lift_def)

lemma out_blind_if: "out_blind m1 \<Longrightarrow> out_blind m2 \<Longrightarrow> out_blind (if c then m1 else m2)"
  by simp

lemma getsize_out [simp]: "getsize (w\<lparr>out := before\<rparr>) p = getsize w p"
  by (simp add: getsize_def split: option.splits)

lemma path_exists_out [simp]: "path_exists (w\<lparr>out := before\<rparr>) p = path_exists w p"
  by (simp add: path_exists_def split: option.splits)

lemma out_blind_report: "out_blind (report i p)"
  unfolding report_def
  by (intro out_blind_then_do out_blind_if out_blind_simple out_blind_lift) simp_all

lemma out_blind_transcode: "out_blind (transcode svc i p meth)"
  unfolding transcode_def
  by (intro out_blind_then_do out_blind_simple out_blind_lift out_blind_report) simp_all

lemma out_blind_cond:
  assumes "\<And>w before. c (w\<lparr>out := before\<rparr>) = c w" and "out_blind m1" and "out_blind m2"
  shows "out_blind (\<lambda>w. if c w then m1 w else m2 w)"
proof -
  have "\<exists>ms. \<forall>before. (if c (w\<lparr>out := before\<rparr>) then m1 (w\<lparr>out := before\<rparr>)
        else m2 (w\<lparr>out := before\<rparr>)) =
      (fst (if c w then m1 w else m2 w), (snd (if c w then m1 w else m2 w))\<lparr>out := before @ ms\<rparr>)"
    for w
    using out_blindD [OF assms(2), of w] out_blindD [OF assms(3), of w]
    by (cases "c w") (simp_all add: assms(1))
  then show ?thesis by (simp add: out_blind_def)
qed

lemma out_blind_convert_body: "out_blind (convert_body svc i p meth)"
proof -
  have resolve: "out_blind (resolve_output i p)"
    by (simp add: resolve_output_def split: option.splits sum.splits)
  have asked: "out_blind
      (then_do (py_input (Msg_prompt_overwrite (basename q))) (\<lambda>response.
         if py_lower response \<noteq> ''y'' then then_do (print Msg_skipping) (\<lambda>_. done_with True)
         else transcode svc i q meth))" for q
    by (intro out_blind_then_do out_blind_if out_blind_simple out_blind_transcode)
  have inner: "out_blind (\<lambda>w1. if path_exists w1 q then
            then_do (py_input (Msg_prompt_overwrite (basename q))) (\<lambda>response.
              if py_lower response \<noteq> ''y'' then
                then_do (print Msg_skipping) (\<lambda>_. done_with True)
              else transcode svc i q meth) w1
          else transcode svc i q meth w1)" for q
    by (rule out_blind_cond) (simp_all add: asked out_blind_transcode)
  have "convert_body svc i p meth =
      (\<lambda>w. if \<not> path_exists w i then
              then_do (print (Msg_input_not_found i)) (\<lambda>_. done_with False) w
            else
              then_do (resolve_output i p) (\<lambda>q w1.
                if path_exists w1 q then
                  then_do (py_input (Msg_prompt_overwrite (basename q))) (\<lambda>response.
                    if py_lower response \<noteq> ''y'' then
                      then_do (print Msg_skipping) (\<lambda>_. done_with True)
                    else transcode svc i q meth) w1
                else transcode svc i q meth w1) w)"
    by (rule ext) (simp add: convert_body_def)
  then show ?thesis
    by (simp only:)
       (intro out_blind_cond out_blind_then_do out_blind_simple resolve inner, simp)
qed

lemma out_blind_convert: "out_blind (convert_mov_to_mp4_lossless svc i p meth)"
proof -
  have "\<exists>ms. \<forall>before. convert_mov_to_mp4_lossless svc i p meth (w\<lparr>out := before\<rparr>) =
      (fst (convert_mov_to_mp4_lossless svc i p meth w),
       (snd (convert_mov_to_mp4_lossless svc i p meth w))\<lparr>out := before @ ms\<rparr>)" for w
  proof -
    obtain r w1 where b: "convert_body svc i p meth w = (r, w1)"
      by (cases "convert_body svc i p meth w")
    from out_blindD [OF out_blind_convert_body, of svc i p meth w] b
    obtain ms where ms: "\<And>before. convert_body svc i p meth (w\<lparr>out := before\<rparr>) =
        (r, w1\<lparr>out := before @ ms\<rparr>)"
      by auto
    show ?thesis
    proof (cases r)
      case (Inl e)
      with b ms show ?thesis
        by (intro exI [of _ "ms @ [Msg_error e]"])
           (simp add: convert_mov_to_mp4_lossless_def say_def)
    next
      case (Inr ok)
      with b ms show ?thesis
        by (intro exI [of _ ms]) (simp add: convert_mov_to_mp4_lossless_def)
    qed
  qed
  then show ?thesis by (simp add: out_blind_def)
qed

text \<open>
  One job: it prints no header and no verdict. A job whose input is missing says so and
  returns \<^verbatim>\<open>False\<close>; a job whose input is there returns \<^verbatim>\<open>False\<close> exactly when it reports an
  error. What it prints does not depend on what the console held.
\<close>

lemma convert_log:
  "\<exists>ms. out (snd (convert_mov_to_mp4_lossless svc i p meth w)) = out w @ ms
        \<and> headers ms = [] \<and> verdicts ms = []
        \<and> not_found_count ms = (if path_exists w i then 0 else 1)
        \<and> error_count ms =
            (if path_exists w i \<and> \<not> fst (convert_mov_to_mp4_lossless svc i p meth w) then 1
             else 0)
        \<and> (\<not> path_exists w i \<longrightarrow> \<not> fst (convert_mov_to_mp4_lossless svc i p meth w))"
proof (cases "path_exists w i")
  case False
  then have "convert_mov_to_mp4_lossless svc i p meth w = (False, say (Msg_input_not_found i) w)"
    by (simp add: convert_mov_to_mp4_lossless_def convert_body_def done_with_def)
  then have "out (snd (convert_mov_to_mp4_lossless svc i p meth w)) = out w @ [Msg_input_not_found i]"
    "\<not> fst (convert_mov_to_mp4_lossless svc i p meth w)"
    by simp_all
  then show ?thesis
    using False by (intro exI [of _ "[Msg_input_not_found i]"]) simp
next
  case True
  show ?thesis
  proof (cases "fst (resolve_output i p w)")
    case (Inl e)
    with True have "convert_mov_to_mp4_lossless svc i p meth w = (False, say (Msg_error e) w)"
      by (simp add: convert_mov_to_mp4_lossless_def convert_body_def then_do_resolve_output)
    then have "out (snd (convert_mov_to_mp4_lossless svc i p meth w)) = out w @ [Msg_error e]"
      "\<not> fst (convert_mov_to_mp4_lossless svc i p meth w)"
      by simp_all
    then show ?thesis
      using True by (intro exI [of _ "[Msg_error e]"]) simp
  next
    case (Inr q)
    define S where "S = (if path_exists w q then
        then_do (py_input (Msg_prompt_overwrite (basename q))) (\<lambda>response.
          if py_lower response \<noteq> ''y'' then then_do (print Msg_skipping) (\<lambda>_. done_with True)
          else transcode svc i q meth)
        else transcode svc i q meth)"
    have q: "quiet S"
      unfolding S_def
      by (intro quiet_if quiet_then_do quiet_input quiet_print quiet_simple quiet_transcode)
         (simp_all add: plain_def)
    have r: "returns (\<lambda>b. b) S"
      unfolding S_def
      by (intro returns_if returns_then_do returns_simple returns_transcode) simp
    have body: "convert_body svc i p meth w = S w"
      using True Inr by (simp add: convert_body_def then_do_resolve_output S_def)
    obtain res w' where sw: "S w = (res, w')"
      by (cases "S w")
    from quietD [OF q, of w] sw obtain ms where ms: "out w' = out w @ ms" "list_all plain ms"
      by auto
    note pl = plain_log [OF ms(2)]
    show ?thesis
    proof (cases res)
      case (Inl e)
      with body sw have "convert_mov_to_mp4_lossless svc i p meth w = (False, say (Msg_error e) w')"
        by (simp add: convert_mov_to_mp4_lossless_def)
      then have "out (snd (convert_mov_to_mp4_lossless svc i p meth w)) = out w @ (ms @ [Msg_error e])"
        "\<not> fst (convert_mov_to_mp4_lossless svc i p meth w)"
        using ms by simp_all
      then show ?thesis
        using pl True by (intro exI [of _ "ms @ [Msg_error e]"]) simp
    next
      case (Inr b)
      with returnsD [OF r, of w b] sw have b by simp
      with Inr body sw have "convert_mov_to_mp4_lossless svc i p meth w = (True, w')"
        by (simp add: convert_mov_to_mp4_lossless_def)
      then have "out (snd (convert_mov_to_mp4_lossless svc i p meth w)) = out w @ ms"
        "fst (convert_mov_to_mp4_lossless svc i p meth w)"
        using ms by simp_all
      then show ?thesis
        using pl True by (intro exI [of _ ms]) simp
    qed
  qed
qed

lemma convert_out:
  "\<exists>ms. (\<forall>before. convert_mov_to_mp4_lossless svc i p meth (w\<lparr>out := before\<rparr>) =
            (fst (convert_mov_to_mp4_lossless svc i p meth w),
             (snd (convert_mov_to_mp4_lossless svc i p meth w))\<lparr>out := before @ ms\<rparr>))
        \<and> headers ms = [] \<and> verdicts ms = []
        \<and> not_found_count ms = (if path_exists w i then 0 else 1)
        \<and> error_count ms =
            (if path_exists w i \<and> \<not> fst (convert_mov_to_mp4_lossless svc i p meth w) then 1
             else 0)
        \<and> (\<not> path_exists w i \<longrightarrow> \<not> fst (convert_mov_to_mp4_lossless svc i p meth w))"
proof -
  from out_blindD [OF out_blind_convert, of svc i p meth w]
  obtain ms where ms: "\<And>before. convert_mov_to_mp4_lossless svc i p meth (w\<lparr>out := before\<rparr>) =
            (fst (convert_mov_to_mp4_lossless svc i p meth w),
             (snd (convert_mov_to_mp4_lossless svc i p meth w))\<lparr>out := before @ ms\<rparr>)"
    by auto
  from ms [of "out w"]
  have "out (snd (convert_mov_to_mp4_lossless svc i p meth w)) = out w @ ms"
    by (cases "convert_mov_to_mp4_lossless svc i p meth w") (auto dest: arg_cong [of _ _ out])
  with convert_log [of svc i p meth w] ms show ?thesis
    by (intro exI [of _ ms]) auto
qed

subsection \<open>The loop and the Batch Runner of the specification\<close>

lemma spec_results:
  "map of_input (fst (spec_batch_runner svc jobs w)) = map job_input jobs
   \<and> (\<forall>r \<in> set (fst (spec_batch_runner svc jobs w)). \<not> input_found r \<longrightarrow> \<not> succeeded r)"
proof (induction jobs arbitrary: w)
  case Nil
  show ?case by simp
next
  case (Cons j jobs)
  obtain ok w1 where r: "convert_mov_to_mp4_lossless svc (job_input j) (Some (job_output j))
      (job_mode j) w = (ok, w1)"
    by (cases "convert_mov_to_mp4_lossless svc (job_input j) (Some (job_output j)) (job_mode j) w")
  obtain results w2 where s: "spec_batch_runner svc jobs w1 = (results, w2)"
    by (cases "spec_batch_runner svc jobs w1")
  from convert_log [of svc "job_input j" "Some (job_output j)" "job_mode j" w] r
  have "\<not> path_exists w (job_input j) \<longrightarrow> \<not> ok"
    by auto
  with Cons.IH [of w1] r s show ?case
    by simp
qed

lemma tally_partition:
  "(\<forall>r \<in> set results. \<not> input_found r \<longrightarrow> \<not> succeeded r) \<Longrightarrow>
     succeeded_count results + missing_count results + failed_count results = total_jobs results"
  by (induction results)
     (auto simp: succeeded_count_def missing_count_def failed_count_def total_jobs_def)

text \<open>
  The loop of the folder batch against the Batch Runner of the specification, on the jobs the
  loop forms: the same tally, the same final world up to the console, and on the console one
  header and one verdict per file, numbered from \<open>i\<close> in the order of the list.
\<close>

lemma batch_loop_refines:
  "\<exists>ms. batch_loop svc d meth n i fs (c, ws\<lparr>out := before\<rparr>) =
          (c + succeeded_count (fst (spec_batch_runner svc (folder_jobs d meth fs) ws)),
           (snd (spec_batch_runner svc (folder_jobs d meth fs) ws))\<lparr>out := before @ ms\<rparr>)
        \<and> headers ms = zip [i ..< i + length fs] (map path_name fs)
        \<and> verdicts ms =
            zip [i ..< i + length fs]
              (map succeeded (fst (spec_batch_runner svc (folder_jobs d meth fs) ws)))
        \<and> not_found_count ms =
            missing_count (fst (spec_batch_runner svc (folder_jobs d meth fs) ws))
        \<and> error_count ms =
            failed_count (fst (spec_batch_runner svc (folder_jobs d meth fs) ws))"
proof (induction fs arbitrary: i c ws before)
  case Nil
  show ?case
    by (intro exI [of _ "[]"])
       (simp add: folder_jobs_def succeeded_count_def missing_count_def failed_count_def)
next
  case (Cons x rest)
  define target where "target = path_str (joinpath (Path d) (path_stem x @ ''.mp4''))"
  define hdr where "hdr = Msg_processing i n (path_name x)"
  obtain ok w1 where r: "convert_mov_to_mp4_lossless svc (path_str x) (Some target) meth ws =
      (ok, w1)"
    by (cases "convert_mov_to_mp4_lossless svc (path_str x) (Some target) meth ws")
  obtain results w2 where s: "spec_batch_runner svc (folder_jobs d meth rest) w1 = (results, w2)"
    by (cases "spec_batch_runner svc (folder_jobs d meth rest) w1")
  define found where "found = path_exists ws (path_str x)"
  have spec: "spec_batch_runner svc (folder_jobs d meth (x # rest)) ws =
      (\<lparr>of_input = path_str x, input_found = found, succeeded = ok\<rparr> # results, w2)"
    using r s by (simp add: folder_jobs_def target_def found_def)
  from convert_out [of svc "path_str x" "Some target" meth ws] r
  obtain mc where mc:
    "\<And>b. convert_mov_to_mp4_lossless svc (path_str x) (Some target) meth (ws\<lparr>out := b\<rparr>) =
       (ok, w1\<lparr>out := b @ mc\<rparr>)"
    "headers mc = []" "verdicts mc = []"
    "not_found_count mc = (if found then 0 else 1)"
    "error_count mc = (if found \<and> \<not> ok then 1 else 0)"
    unfolding found_def by auto
  define R where "R = [Suc i ..< Suc i + length rest]"
  have "[i ..< i + Suc (length rest)] = i # [Suc i ..< i + Suc (length rest)]"
    by (rule upt_conv_Cons) simp
  then have range: "[i ..< i + length (x # rest)] = i # R"
    by (simp only: R_def list.size add_Suc add_Suc_right add_0_right One_nat_def)
  define verdict where "verdict = (if ok then Msg_file_done i n else Msg_file_failed i n)"
  define c' where "c' = (if ok then Suc c else c)"
  have step: "batch_loop svc d meth n i (x # rest) (c, ws\<lparr>out := before\<rparr>) =
      batch_loop svc d meth n (Suc i) rest (c', w1\<lparr>out := before @ [hdr] @ mc @ [verdict]\<rparr>)"
    using mc(1) [of "before @ [hdr]"]
    by (simp add: Let_def target_def [symmetric] hdr_def [symmetric] say_def verdict_def c'_def)
  from Cons.IH [where i = "Suc i" and c = c' and ws = w1
      and before = "before @ [hdr] @ mc @ [verdict]"] s
  obtain mr where mr:
    "batch_loop svc d meth n (Suc i) rest (c', w1\<lparr>out := before @ [hdr] @ mc @ [verdict]\<rparr>) =
       (c' + succeeded_count results, w2\<lparr>out := (before @ [hdr] @ mc @ [verdict]) @ mr\<rparr>)"
    "headers mr = zip R (map path_name rest)"
    "verdicts mr = zip R (map succeeded results)"
    "not_found_count mr = missing_count results"
    "error_count mr = failed_count results"
    unfolding R_def by auto
  define ms where "ms = [hdr] @ mc @ [verdict] @ mr"
  have "batch_loop svc d meth n i (x # rest) (c, ws\<lparr>out := before\<rparr>) =
      (c + succeeded_count (fst (spec_batch_runner svc (folder_jobs d meth (x # rest)) ws)),
       (snd (spec_batch_runner svc (folder_jobs d meth (x # rest)) ws))\<lparr>out := before @ ms\<rparr>)"
    unfolding step mr(1) spec
    by (simp add: ms_def c'_def succeeded_count_def)
  moreover have "headers ms = zip [i ..< i + length (x # rest)] (map path_name (x # rest))"
    unfolding range using mr(2) mc(2)
    by (simp add: ms_def hdr_def verdict_def)
  moreover have "verdicts ms = zip [i ..< i + length (x # rest)]
      (map succeeded (fst (spec_batch_runner svc (folder_jobs d meth (x # rest)) ws)))"
    unfolding range spec using mr(3) mc(3)
    by (simp add: ms_def hdr_def verdict_def)
  moreover have "not_found_count ms =
      missing_count (fst (spec_batch_runner svc (folder_jobs d meth (x # rest)) ws))"
    unfolding spec using mr(4) mc(4)
    by (simp add: ms_def hdr_def verdict_def missing_count_def)
  moreover have "error_count ms =
      failed_count (fst (spec_batch_runner svc (folder_jobs d meth (x # rest)) ws))"
    unfolding spec using mr(5) mc(5)
    by (simp add: ms_def hdr_def verdict_def failed_count_def)
  ultimately show ?case by blast
qed

subsection \<open>The listing\<close>

lemma quiet_list_loop: "quiet (list_loop i fs)"
proof (induction fs arbitrary: i)
  case Nil
  have "list_loop i [] = done_with ()" by (rule ext) simp
  then show ?case by simp
next
  case (Cons x rest)
  have "list_loop i (x # rest) =
      then_do (lift (\<lambda>w. getsize w (path_str x))) (\<lambda>size.
      then_do (print (Msg_listing_line i (path_name x) size)) (\<lambda>_.
      list_loop (Suc i) rest))"
    by (rule ext) simp
  then show ?case
    by (simp only:) (intro quiet_then_do quiet_print quiet_simple Cons.IH, simp add: plain_def)
qed

lemma list_mov_files_log:
  "\<exists>ms. out (snd (list_mov_files folder_path w)) = out w @ ms \<and> list_all plain ms"
proof (cases "get_unique_mov_files w folder_path = []")
  case True
  then show ?thesis by (simp add: list_mov_files_empty)
next
  case False
  have "quiet
      (then_do (print Msg_listing_header) (\<lambda>_.
       then_do (list_loop 1 (sort_key path_name (get_unique_mov_files w folder_path))) (\<lambda>_.
       then_do (print (Msg_listing_total (length (get_unique_mov_files w folder_path)))) (\<lambda>_.
       done_with (get_unique_mov_files w folder_path)))))"
    by (intro quiet_then_do quiet_print quiet_simple quiet_list_loop) (simp_all add: plain_def)
  from quietD [OF this, of w] False show ?thesis
    by (simp add: list_mov_files_def Let_def)
qed

lemma then_do_fst: "fst (m w) = Inr a \<Longrightarrow> then_do m f w = f a (snd (m w))"
  by (cases "m w") (simp add: then_do_def)

lemma list_loop_ok:
  "list_all (\<lambda>f. path_exists w (path_str f)) fs \<Longrightarrow> fst (list_loop i fs w) = Inr ()"
proof (induction fs arbitrary: i w)
  case Nil
  then show ?case by (simp add: done_with_def)
next
  case (Cons x rest)
  then obtain size where size: "getsize w (path_str x) = Inr size"
    using getsize_exists [of w "path_str x"] by auto
  from Cons.prems
  have "list_all (\<lambda>f. path_exists (say (Msg_listing_line i (path_name x) size) w) (path_str f)) rest"
    by simp
  from Cons.IH [OF this] size show ?case
    by (simp add: then_do_lift)
qed

lemma list_mov_files_ok:
  assumes "list_all (\<lambda>f. path_exists w (path_str f)) (get_unique_mov_files w folder_path)"
  shows "fst (list_mov_files folder_path w) = Inr (get_unique_mov_files w folder_path)"
proof (cases "get_unique_mov_files w folder_path = []")
  case True
  then show ?thesis by (simp add: list_mov_files_empty)
next
  case False
  define U where "U = get_unique_mov_files w folder_path"
  have "list_all (\<lambda>f. path_exists (say Msg_listing_header w) (path_str f)) (sort_key path_name U)"
    using assms by (simp add: list_all_iff U_def)
  from list_loop_ok [OF this, of "Suc 0"]
  have "fst (list_loop (Suc 0) (sort_key path_name U) (say Msg_listing_header w)) = Inr ()" .
  note run = then_do_fst [of "list_loop (Suc 0) (sort_key path_name U)", OF this]
  from False show ?thesis
    by (simp add: list_mov_files_def Let_def U_def [symmetric] run done_with_def)
qed

lemma fixed_list_guard:
  assumes "filter (\<lambda>f. \<not> path_exists w (path_str (joinpath current_dir f))) files_to_convert
      \<noteq> []"
  shows "convert_batch_main svc current_dir w =
      (Inr (Missing_inputs
          (filter (\<lambda>f. \<not> path_exists w (path_str (joinpath current_dir f))) files_to_convert)),
       say (Msg_missing
             (filter (\<lambda>f. \<not> path_exists w (path_str (joinpath current_dir f))) files_to_convert))
         (say Msg_batch_header w))"
  using assms by (simp add: convert_batch_main_def Let_def done_with_def)

subsection \<open>Single jobs, evaluated\<close>

lemma convert_missing:
  "\<not> path_exists w i \<Longrightarrow>
     convert_mov_to_mp4_lossless svc i p meth w = (False, say (Msg_input_not_found i) w)"
  by (simp add: convert_mov_to_mp4_lossless_def convert_body_def done_with_def)

lemma convert_open_fails:
  assumes "path_exists w i" and "\<not> path_exists w p" and "open_clip svc i (files w) = Some e"
  shows "convert_mov_to_mp4_lossless svc i (Some p) meth w =
           (False,
            w\<lparr>svc_calls := svc_calls w @ [Open_clip i],
              out := out w @ [Msg_start (basename i), Msg_output_file (basename p),
                              Msg_method meth, Msg_loading, Msg_error e]\<rparr>)"
  using assms
  by (simp add: convert_mov_to_mp4_lossless_def convert_body_def resolve_output_def
      transcode_def then_do_open say_def)

lemma convert_ok:
  assumes "path_exists w i" and "\<not> path_exists w p" and "open_clip svc i (files w) = None"
    and "write_clip svc i
           \<lparr>req_output = p, req_codec = select_video_codec meth,
            req_audio_codec = select_audio_codec meth,
            req_ffmpeg_params = select_ffmpeg_params meth (cpu_count w)\<rparr> (files w) = (None, fs)"
    and "fs i = Some src" and "src \<noteq> []" and "fs p = Some dst"
  shows "convert_mov_to_mp4_lossless svc i (Some p) meth w =
           (True,
            w\<lparr>files := fs,
              svc_calls := svc_calls w @
                [Open_clip i,
                 Write_videofile i
                   \<lparr>req_output = p, req_codec = select_video_codec meth,
                    req_audio_codec = select_audio_codec meth,
                    req_ffmpeg_params = select_ffmpeg_params meth (cpu_count w)\<rparr>],
              out := out w @
                [Msg_start (basename i), Msg_output_file (basename p), Msg_method meth,
                 Msg_loading, Msg_clip_info, Msg_estimate, Msg_mode (mode_banner meth),
                 Msg_converting, Msg_finished, Msg_input_size (length src),
                 Msg_output_size (length dst), Msg_ratio (length dst) (length src),
                 Msg_speed]\<rparr>)"
proof -
  obtain n where n: "getsize w i = Inr n"
    using getsize_exists [OF assms(1)] by blast
  have sizes: "getsize w' i = Inr (length src)" "getsize w' p = Inr (length dst)"
    if "files w' = fs" for w'
    using that assms(5,7) by (simp_all add: getsize_def)
  have rep: "report i p w' =
      (Inr True,
       w'\<lparr>out := out w' @ [Msg_finished, Msg_input_size (length src),
                 Msg_output_size (length dst), Msg_ratio (length dst) (length src),
                 Msg_speed]\<rparr>)"
    if "files w' = fs" for w'
    using assms(6)
    by (simp add: report_def then_do_lift sizes [OF that] sizes done_with_def say_def)
  show ?thesis
    using assms(1-4) n
    by (simp add: convert_mov_to_mp4_lossless_def convert_body_def resolve_output_def
        transcode_def then_do_open then_do_lift then_do_write rep say_def)
qed

subsection \<open>A completed run of the folder batch\<close>

lemma list_mov_files_world:
  "\<exists>ms. snd (list_mov_files folder_path w) = w\<lparr>out := out w @ ms\<rparr> \<and> list_all plain ms"
proof -
  from list_mov_files_log [of folder_path w]
  obtain ms where ms: "out (snd (list_mov_files folder_path w)) = out w @ ms" "list_all plain ms"
    by blast
  have "(snd (list_mov_files folder_path w))\<lparr>out := []\<rparr> = w\<lparr>out := []\<rparr>"
    by (rule keepsD [OF keeps_list_mov_files, of "\<lambda>w. w\<lparr>out := []\<rparr>"]) (simp add: say_def)
  then have "(snd (list_mov_files folder_path w))\<lparr>out := []\<rparr>\<lparr>out := out w @ ms\<rparr> =
      w\<lparr>out := []\<rparr>\<lparr>out := out w @ ms\<rparr>"
    by simp
  then have same: "(snd (list_mov_files folder_path w))\<lparr>out := out w @ ms\<rparr> =
      w\<lparr>out := out w @ ms\<rparr>"
    by simp
  have "snd (list_mov_files folder_path w) =
      (snd (list_mov_files folder_path w))\<lparr>out := out (snd (list_mov_files folder_path w))\<rparr>"
    by simp
  also have "\<dots> = (snd (list_mov_files folder_path w))\<lparr>out := out w @ ms\<rparr>"
    by (simp only: ms(1))
  also note same
  finally show ?thesis
    using ms(2) by blast
qed

lemma final_remark_world:
  "\<exists>ms. snd (final_remark c n w) = w\<lparr>out := out w @ ms\<rparr> \<and> list_all plain ms"
proof -
  have "snd (final_remark c n w) = w\<lparr>out := out w @ [Msg_all_converted]\<rparr>
      \<or> snd (final_remark c n w) = w\<lparr>out := out w @ [Msg_some_failed (n - c)]\<rparr>
      \<or> snd (final_remark c n w) = w\<lparr>out := out w @ []\<rparr>"
    by (simp add: final_remark_def print_def done_with_def say_def)
  moreover have "list_all plain [Msg_all_converted]" "list_all plain [Msg_some_failed (n - c)]"
    "list_all plain []"
    by (simp_all add: plain_def)
  ultimately show ?thesis by blast
qed

lemma batch_completes:
  assumes d: "d = (case output_folder of None \<Rightarrow> input_folder | Some x \<Rightarrow> x)"
    and mk: "makedirs d w = Inr w1"
    and some: "get_unique_mov_files w1 input_folder \<noteq> []"
    and present: "list_all (\<lambda>f. path_exists w1 (path_str f))
        (get_unique_mov_files w1 input_folder)"
    and answer: "stdin w = response # rest" "py_lower response = ''y''"
    and spec: "spec_batch_runner svc
        (folder_jobs d meth (get_unique_mov_files w1 input_folder)) (w1\<lparr>stdin := rest\<rparr>) =
        (results, ws)"
  shows "\<exists>ms. batch_convert_lossless svc input_folder output_folder meth w =
            (Inr (Completed (succeeded_count results)
                    (length (get_unique_mov_files w1 input_folder))),
             ws\<lparr>out := out w @ ms\<rparr>)
          \<and> headers ms =
              zip [1 ..< Suc (length (get_unique_mov_files w1 input_folder))]
                (map path_name (get_unique_mov_files w1 input_folder))
          \<and> verdicts ms =
              zip [1 ..< Suc (length (get_unique_mov_files w1 input_folder))]
                (map succeeded results)
          \<and> not_found_count ms = missing_count results
          \<and> error_count ms = failed_count results
          \<and> Msg_summary (succeeded_count results)
                (length (get_unique_mov_files w1 input_folder)) \<in> set ms"
proof -
  define U where "U = get_unique_mov_files w1 input_folder"
  define N where "N = length U"
  note w1 = makedirs_keeps [OF mk]
  from list_mov_files_ok [OF present]
  have "fst (list_mov_files input_folder w1) = Inr U"
    by (simp add: U_def)
  moreover from list_mov_files_world [of input_folder w1] obtain ml where
    ml: "snd (list_mov_files input_folder w1) = w1\<lparr>out := out w @ ml\<rparr>" "list_all plain ml"
    by (auto simp: w1)
  ultimately have l: "list_mov_files input_folder w1 = (Inr U, w1\<lparr>out := out w @ ml\<rparr>)"
    by (cases "list_mov_files input_folder w1") simp
  define before where "before = out w @ ml @ [Msg_will_process N, Msg_prompt_continue]"
  have w3: "(say Msg_prompt_continue (say (Msg_will_process N)
      (w1\<lparr>out := out w @ ml\<rparr>)))\<lparr>stdin := rest\<rparr> = (w1\<lparr>stdin := rest\<rparr>)\<lparr>out := before\<rparr>"
    by (simp add: say_def before_def)
  from batch_loop_refines [where svc = svc and d = d and meth = meth and n = N and i = "Suc 0"
      and fs = U and c = 0 and ws = "w1\<lparr>stdin := rest\<rparr>" and before = before] spec
  obtain mr where mr:
    "batch_loop svc d meth N (Suc 0) U (0, (w1\<lparr>stdin := rest\<rparr>)\<lparr>out := before\<rparr>) =
       (succeeded_count results, ws\<lparr>out := before @ mr\<rparr>)"
    "headers mr = zip [Suc 0 ..< Suc 0 + N] (map path_name U)"
    "verdicts mr = zip [Suc 0 ..< Suc 0 + N] (map succeeded results)"
    "not_found_count mr = missing_count results"
    "error_count mr = failed_count results"
    by (auto simp: U_def N_def)
  define k where "k = succeeded_count results"
  from final_remark_world [of k N "say (Msg_summary k N) (ws\<lparr>out := before @ mr\<rparr>)"]
  obtain mf where mf: "snd (final_remark k N (say (Msg_summary k N) (ws\<lparr>out := before @ mr\<rparr>))) =
      ws\<lparr>out := before @ mr @ [Msg_summary k N] @ mf\<rparr>" "list_all plain mf"
    by (auto simp: say_def)
  define ms where "ms = ml @ [Msg_will_process N, Msg_prompt_continue] @ mr @ [Msg_summary k N] @ mf"
  have run: "batch_convert_lossless svc input_folder output_folder meth w =
      (Inr (Completed k N), ws\<lparr>out := out w @ ms\<rparr>)"
    using some answer
    by (simp add: batch_after_makedirs [OF d mk l] U_def [symmetric] N_def [symmetric] w1 w3
        mr(1) k_def [symmetric] mf(1))
       (simp add: ms_def before_def)
  have plain: "plain (Msg_will_process N)" "plain Msg_prompt_continue" "plain (Msg_summary k N)"
    by (simp_all add: plain_def)
  note pl = plain_log [OF ml(2)] plain_log [OF mf(2)]
  have "headers ms = zip [1 ..< Suc N] (map path_name U)"
    "verdicts ms = zip [1 ..< Suc N] (map succeeded results)"
    "not_found_count ms = missing_count results"
    "error_count ms = failed_count results"
    using mr(2-5) pl by (simp_all add: ms_def)
  moreover have "Msg_summary k N \<in> set ms"
    by (simp add: ms_def)
  ultimately show ?thesis
    using run unfolding U_def [symmetric] N_def [symmetric] k_def [symmetric] by blast
qed

lemma batch_paths:
  "path_str (Path ''/d/a.mov'') = ''/d/a.mov''" "path_name (Path ''/d/a.mov'') = ''a.mov''"
  "path_stem (Path ''/d/a.mov'') = ''a''"
  "path_str (Path ''/d/gone.mov'') = ''/d/gone.mov''"
  "path_name (Path ''/d/gone.mov'') = ''gone.mov''" "path_stem (Path ''/d/gone.mov'') = ''gone''"
  "path_str (Path ''/d/c.mov'') = ''/d/c.mov''" "path_name (Path ''/d/c.mov'') = ''c.mov''"
  "path_stem (Path ''/d/c.mov'') = ''c''"
  "path_str (joinpath (Path ''/o'') ''a.mp4'') = ''/o/a.mp4''"
  "path_str (joinpath (Path ''/o'') ''gone.mp4'') = ''/o/gone.mp4''"
  "path_str (joinpath (Path ''/o'') ''c.mp4'') = ''/o/c.mp4''"
  "child (Path ''/d'') ''a.mov'' = Path ''/d/a.mov''"
  "child (Path ''/d'') ''c.mov'' = Path ''/d/c.mov''"
  "path_str (Path ''/d'') = ''/d''"
  by (simp_all add: child_def joinpath_def Path_def startswith_def path_str_def path_name_def
      path_stem_def name_stem_def)

text \<open>
  The picky library on a world with the films of \<open>batch_world\<close>: the three jobs the loop forms
  for \<^verbatim>\<open>a.mov\<close>, a file that is not there, and \<^verbatim>\<open>c.mov\<close>.
\<close>

lemma picky_jobs:
  assumes "files w = files batch_world"
    and "''/d/gone.mov'' \<notin> dirs w" "''/o/a.mp4'' \<notin> dirs w" "''/o/c.mp4'' \<notin> dirs w"
    and "cpu_count w = Some 8" and "svc_calls w = []"
  shows "\<exists>ws. spec_batch_runner picky_service
             (folder_jobs ''/o'' ''high_quality''
                [Path ''/d/a.mov'', Path ''/d/gone.mov'', Path ''/d/c.mov'']) w =
           ([\<lparr>of_input = ''/d/a.mov'', input_found = True, succeeded = True\<rparr>,
             \<lparr>of_input = ''/d/gone.mov'', input_found = False, succeeded = False\<rparr>,
             \<lparr>of_input = ''/d/c.mov'', input_found = True, succeeded = False\<rparr>], ws)
         \<and> files ws = (files batch_world)(''/o/a.mp4'' \<mapsto> ''mp4'')
         \<and> svc_calls ws =
             [Open_clip ''/d/a.mov'',
              Write_videofile ''/d/a.mov''
                \<lparr>req_output = ''/o/a.mp4'', req_codec = Some ''libx264'',
                 req_audio_codec = Some ''aac'',
                 req_ffmpeg_params =
                   [''-preset'', ''slow'', ''-crf'', ''15'', ''-threads'', ''8'',
                    ''-movflags'', ''+faststart'', ''-pix_fmt'', ''yuv420p'']\<rparr>,
              Open_clip ''/d/c.mov'']"
    and "\<exists>ws. spec_batch_runner picky_service
             (folder_jobs ''/o'' ''high_quality'' [Path ''/d/a.mov'', Path ''/d/c.mov'']) w =
           ([\<lparr>of_input = ''/d/a.mov'', input_found = True, succeeded = True\<rparr>,
             \<lparr>of_input = ''/d/c.mov'', input_found = True, succeeded = False\<rparr>], ws)
         \<and> files ws = (files batch_world)(''/o/a.mp4'' \<mapsto> ''mp4'')
         \<and> svc_calls ws =
             [Open_clip ''/d/a.mov'',
              Write_videofile ''/d/a.mov''
                \<lparr>req_output = ''/o/a.mp4'', req_codec = Some ''libx264'',
                 req_audio_codec = Some ''aac'',
                 req_ffmpeg_params =
                   [''-preset'', ''slow'', ''-crf'', ''15'', ''-threads'', ''8'',
                    ''-movflags'', ''+faststart'', ''-pix_fmt'', ''yuv420p'']\<rparr>,
              Open_clip ''/d/c.mov'']"
proof -
  have eight: "str_nat 8 = ''8''"
    by (simp add: str_nat.simps digit_char_def)
  note cpus = assms(5)
  define req where "req = \<lparr>req_output = ''/o/a.mp4'', req_codec = select_video_codec ''high_quality'',
            req_audio_codec = select_audio_codec ''high_quality'',
            req_ffmpeg_params = select_ffmpeg_params ''high_quality'' (cpu_count w)\<rparr>"
  have req: "req = \<lparr>req_output = ''/o/a.mp4'', req_codec = Some ''libx264'',
                 req_audio_codec = Some ''aac'',
                 req_ffmpeg_params =
                   [''-preset'', ''slow'', ''-crf'', ''15'', ''-threads'', ''8'',
                    ''-movflags'', ''+faststart'', ''-pix_fmt'', ''yuv420p'']\<rparr>"
    by (simp add: req_def select_video_codec_def select_audio_codec_def select_ffmpeg_params_def
        str_cpu_count_def eight cpus)
  define fs where "fs = (files batch_world)(''/o/a.mp4'' \<mapsto> ''mp4'')"
  have film: "files batch_world ''/d/a.mov'' = Some ''first''"
    "files batch_world ''/d/c.mov'' = Some ''third''"
    "files batch_world ''/d/gone.mov'' = None" "files batch_world ''/o/a.mp4'' = None"
    "files batch_world ''/o/c.mp4'' = None"
    by (simp_all add: batch_world_def demo_world_def)
  have pre1: "path_exists w ''/d/a.mov''" "\<not> path_exists w ''/o/a.mp4''"
    "open_clip picky_service ''/d/a.mov'' (files w) = None"
    "write_clip picky_service ''/d/a.mov'' req (files w) = (None, fs)"
    "fs ''/d/a.mov'' = Some ''first''" "''first'' \<noteq> []" "fs ''/o/a.mp4'' = Some ''mp4''"
    by (simp_all add: path_exists_def assms film picky_service_def fs_def req_def)
  from convert_ok [OF pre1(1-3) pre1(4) [unfolded req_def] pre1(5-7)]
  obtain wa where j1: "convert_mov_to_mp4_lossless picky_service ''/d/a.mov'' (Some ''/o/a.mp4'')
      ''high_quality'' w = (True, wa)"
    and wa: "files wa = fs" "dirs wa = dirs w"
      "svc_calls wa = [Open_clip ''/d/a.mov'', Write_videofile ''/d/a.mov'' req]"
    by (simp add: assms req_def)
  have gone: "\<not> path_exists wa ''/d/gone.mov''"
    by (simp add: path_exists_def wa fs_def film assms)
  define wb where "wb = say (Msg_input_not_found ''/d/gone.mov'') wa"
  have j2: "convert_mov_to_mp4_lossless picky_service ''/d/gone.mov'' (Some ''/o/gone.mp4'')
      ''high_quality'' wa = (False, wb)"
    unfolding wb_def by (rule convert_missing [OF gone])
  have pre3: "path_exists w' ''/d/c.mov''" "\<not> path_exists w' ''/o/c.mp4''"
    "open_clip picky_service ''/d/c.mov'' (files w') = Some (LibraryError ''corrupt'')"
    if "files w' = fs" "dirs w' = dirs w" for w'
    by (simp_all add: path_exists_def that fs_def film picky_service_def assms)
  have wb: "files wb = fs" "dirs wb = dirs w" "svc_calls wb = svc_calls wa"
    by (simp_all add: wb_def wa)
  from convert_open_fails [OF pre3 [OF wb(1,2)], of "''high_quality''"]
  obtain wc where j3: "convert_mov_to_mp4_lossless picky_service ''/d/c.mov'' (Some ''/o/c.mp4'')
      ''high_quality'' wb = (False, wc)"
    and wc: "files wc = fs" "svc_calls wc = svc_calls wa @ [Open_clip ''/d/c.mov'']"
    by (simp add: wb)
  from convert_open_fails [OF pre3 [OF wa(1,2)], of "''high_quality''"]
  obtain wd where j4: "convert_mov_to_mp4_lossless picky_service ''/d/c.mov'' (Some ''/o/c.mp4'')
      ''high_quality'' wa = (False, wd)"
    and wd: "files wd = fs" "svc_calls wd = svc_calls wa @ [Open_clip ''/d/c.mov'']"
    by (simp add: wa)
  have found: "path_exists wa ''/d/c.mov''" "path_exists wb ''/d/c.mov''"
    using pre3(1) [OF wa(1,2)] pre3(1) [OF wb(1,2)] by simp_all
  have "spec_batch_runner picky_service
             (folder_jobs ''/o'' ''high_quality''
                [Path ''/d/a.mov'', Path ''/d/gone.mov'', Path ''/d/c.mov'']) w =
           ([\<lparr>of_input = ''/d/a.mov'', input_found = True, succeeded = True\<rparr>,
             \<lparr>of_input = ''/d/gone.mov'', input_found = False, succeeded = False\<rparr>,
             \<lparr>of_input = ''/d/c.mov'', input_found = True, succeeded = False\<rparr>], wc)"
    by (simp add: folder_jobs_def batch_paths j1 j2 j3 pre1(1) gone found)
  with wc wa(3) req show "\<exists>ws. spec_batch_runner picky_service
             (folder_jobs ''/o'' ''high_quality''
                [Path ''/d/a.mov'', Path ''/d/gone.mov'', Path ''/d/c.mov'']) w =
           ([\<lparr>of_input = ''/d/a.mov'', input_found = True, succeeded = True\<rparr>,
             \<lparr>of_input = ''/d/gone.mov'', input_found = False, succeeded = False\<rparr>,
             \<lparr>of_input = ''/d/c.mov'', input_found = True, succeeded = False\<rparr>], ws)
         \<and> files ws = (files batch_world)(''/o/a.mp4'' \<mapsto> ''mp4'')
         \<and> svc_calls ws =
             [Open_clip ''/d/a.mov'',
              Write_videofile ''/d/a.mov''
                \<lparr>req_output = ''/o/a.mp4'', req_codec = Some ''libx264'',
                 req_audio_codec = Some ''aac'',
                 req_ffmpeg_params =
                   [''-preset'', ''slow'', ''-crf'', ''15'', ''-threads'', ''8'',
                    ''-movflags'', ''+faststart'', ''-pix_fmt'', ''yuv420p'']\<rparr>,
              Open_clip ''/d/c.mov'']"
    by (simp add: fs_def)
  have "spec_batch_runner picky_service
             (folder_jobs ''/o'' ''high_quality'' [Path ''/d/a.mov'', Path ''/d/c.mov'']) w =
           ([\<lparr>of_input = ''/d/a.mov'', input_found = True, succeeded = True\<rparr>,
             \<lparr>of_input = ''/d/c.mov'', input_found = True, succeeded = False\<rparr>], wd)"
    by (simp add: folder_jobs_def batch_paths j1 j4 pre1(1) found)
  with wd wa(3) req show "\<exists>ws. spec_batch_runner picky_service
             (folder_jobs ''/o'' ''high_quality'' [Path ''/d/a.mov'', Path ''/d/c.mov'']) w =
           ([\<lparr>of_input = ''/d/a.mov'', input_found = True, succeeded = True\<rparr>,
             \<lparr>of_input = ''/d/c.mov'', input_found = True, succeeded = False\<rparr>], ws)
         \<and> files ws = (files batch_world)(''/o/a.mp4'' \<mapsto> ''mp4'')
         \<and> svc_calls ws =
             [Open_clip ''/d/a.mov'',
              Write_videofile ''/d/a.mov''
                \<lparr>req_output = ''/o/a.mp4'', req_codec = Some ''libx264'',
                 req_audio_codec = Some ''aac'',
                 req_ffmpeg_params =
                   [''-preset'', ''slow'', ''-crf'', ''15'', ''-threads'', ''8'',
                    ''-movflags'', ''+faststart'', ''-pix_fmt'', ''yuv420p'']\<rparr>,
              Open_clip ''/d/c.mov'']"
    by (simp add: fs_def)
qed

lemma batch_loop_spec:
  assumes "spec_batch_runner svc (folder_jobs d meth fs) w = (results, ws)"
    and "batch_loop svc d meth n i fs (c, w) = (c', w')"
  shows "w'\<lparr>out := []\<rparr> = ws\<lparr>out := []\<rparr>" "c' = c + succeeded_count results"
    "prefix (out w) (out w')"
    "headers (added w w') = zip [i ..< i + length fs] (map path_name fs)"
    "verdicts (added w w') = zip [i ..< i + length fs] (map succeeded results)"
    "not_found_count (added w w') = missing_count results"
    "error_count (added w w') = failed_count results"
proof -
  from batch_loop_refines [where svc = svc and d = d and meth = meth and n = n and i = i
      and fs = fs and c = c and ws = w and before = "out w"] assms
  obtain ms where ms: "c' = c + succeeded_count results" "w' = ws\<lparr>out := out w @ ms\<rparr>"
    "headers ms = zip [i ..< i + length fs] (map path_name fs)"
    "verdicts ms = zip [i ..< i + length fs] (map succeeded results)"
    "not_found_count ms = missing_count results"
    "error_count ms = failed_count results"
    by auto
  have a: "added w w' = ms"
    by (simp add: added_def ms(2))
  show "w'\<lparr>out := []\<rparr> = ws\<lparr>out := []\<rparr>" "c' = c + succeeded_count results"
    "prefix (out w) (out w')"
    by (simp_all add: ms(1,2))
  show "headers (added w w') = zip [i ..< i + length fs] (map path_name fs)"
    "verdicts (added w w') = zip [i ..< i + length fs] (map succeeded results)"
    "not_found_count (added w w') = missing_count results"
    "error_count (added w w') = failed_count results"
    unfolding a by (fact ms(3), fact ms(4), fact ms(5), fact ms(6))
qed

lemma tally_exact:
  "succeeded_count results + missing_count results + failed_count results = total_jobs results
   \<Longrightarrow> (succeeded_count results = total_jobs results - missing_count results) =
       (failed_count results = 0)"
  by arith

text \<open>
  C3 (as stated: with K inputs missing, all N jobs run and N - K succeed). Two runs say
  otherwise. In the folder batch one file is found and its input exists, but the library
  cannot open it: the job is run and the batch completes, with 0 of 1 succeeded and no input
  reported missing. In the fixed list one of the three inputs is missing: the batch ends after
  naming it, without a header or a verdict for any job and without calling the library.
\<close>

theorem batch_tally_counterexample:
  "path_exists demo_world ''/d/x.mov''
   \<and> fst (batch_convert_lossless failing_service ''/d'' None ''high_quality'' demo_world) =
       Inr (Completed 0 1)
   \<and> not_found_count
       (out (snd (batch_convert_lossless failing_service ''/d'' None ''high_quality'' demo_world)))
       = 0
   \<and> fst (convert_batch_main demo_service (Path ''/d'')
        (demo_world\<lparr>files := [''/d/16_9.MOV'' \<mapsto> ''a'', ''/d/1_1.MOV'' \<mapsto> ''b'']\<rparr>)) =
       Inr (Missing_inputs [''9_16.MOV''])
   \<and> out (snd (convert_batch_main demo_service (Path ''/d'')
        (demo_world\<lparr>files := [''/d/16_9.MOV'' \<mapsto> ''a'', ''/d/1_1.MOV'' \<mapsto> ''b'']\<rparr>))) =
       [Msg_batch_header, Msg_missing [''9_16.MOV'']]
   \<and> svc_calls (snd (convert_batch_main demo_service (Path ''/d'')
        (demo_world\<lparr>files := [''/d/16_9.MOV'' \<mapsto> ''a'', ''/d/1_1.MOV'' \<mapsto> ''b'']\<rparr>))) = []"
proof -
  have fields: "''/d'' \<in> dirs demo_world" "scandir demo_world ''/d'' = [''x.mov'']"
    "glob_case_sensitive demo_world" "stdin demo_world = [''y'']" "out demo_world = []"
    "files demo_world ''/d/x.mov'' = Some ''movie''" "files demo_world ''/d/x.mp4'' = None"
    "''/d/x.mp4'' \<notin> dirs demo_world"
    by (simp_all add: demo_world_def)
  have x: "path_exists demo_world ''/d/x.mov''"
    by (simp add: path_exists_def fields)
  have mk: "makedirs ''/d'' demo_world = Inr demo_world"
    by (simp add: makedirs_def fields)
  have found: "get_unique_mov_files demo_world ''/d'' = [child (Path ''/d'') ''x.mov'']"
    by (simp add: get_unique_mov_files_def glob_mov_files_def glob_def demo_paths fields
        fnmatch_def endswith_def Let_def)
  have target: "path_str (joinpath (Path ''/d'') ''x.mp4'') = ''/d/x.mp4''"
    by (simp add: joinpath_def Path_def startswith_def path_str_def)
  define w where "w = demo_world\<lparr>stdin := []\<rparr>"
  have pre: "path_exists w ''/d/x.mov''" "\<not> path_exists w ''/d/x.mp4''"
    "open_clip failing_service ''/d/x.mov'' (files w) = Some (LibraryError ''corrupt'')"
    by (simp_all add: w_def path_exists_def fields failing_service_def)
  from convert_open_fails [OF pre, of "''high_quality''"]
  obtain ws where job: "convert_mov_to_mp4_lossless failing_service ''/d/x.mov''
      (Some ''/d/x.mp4'') ''high_quality'' w = (False, ws)"
    by simp
  have spec: "spec_batch_runner failing_service
      (folder_jobs ''/d'' ''high_quality'' (get_unique_mov_files demo_world ''/d''))
      (demo_world\<lparr>stdin := []\<rparr>) =
      ([\<lparr>of_input = ''/d/x.mov'', input_found = True, succeeded = False\<rparr>], ws)"
    unfolding w_def [symmetric]
    by (simp add: found folder_jobs_def demo_paths target job pre(1))
  have d: "''/d'' = (case None of None \<Rightarrow> ''/d'' | Some x \<Rightarrow> x)"
    by simp
  have some: "get_unique_mov_files demo_world ''/d'' \<noteq> []"
    by (simp add: found)
  have present: "list_all (\<lambda>f. path_exists demo_world (path_str f))
      (get_unique_mov_files demo_world ''/d'')"
    by (simp add: found demo_paths x)
  have yes: "py_lower ''y'' = ''y''"
    by (simp add: py_lower_def lower_char_def)
  have inp: "stdin demo_world = ''y'' # []"
    by (simp add: fields)
  from batch_completes [OF d mk some present inp yes spec]
  obtain ms where "batch_convert_lossless failing_service ''/d'' None ''high_quality'' demo_world
      = (Inr (Completed
               (succeeded_count [\<lparr>of_input = ''/d/x.mov'', input_found = True,
                                  succeeded = False\<rparr>])
               (length (get_unique_mov_files demo_world ''/d''))),
         ws\<lparr>out := out demo_world @ ms\<rparr>)"
    "not_found_count ms =
       missing_count [\<lparr>of_input = ''/d/x.mov'', input_found = True, succeeded = False\<rparr>]"
    by blast
  then have first: "fst (batch_convert_lossless failing_service ''/d'' None ''high_quality''
        demo_world) = Inr (Completed 0 1)"
    "not_found_count (out (snd (batch_convert_lossless failing_service ''/d'' None
        ''high_quality'' demo_world))) = 0"
    by (simp_all add: succeeded_count_def missing_count_def found fields)
  define w2 where "w2 = demo_world\<lparr>files := [''/d/16_9.MOV'' \<mapsto> ''a'', ''/d/1_1.MOV'' \<mapsto> ''b'']\<rparr>"
  have names: "path_str (joinpath (Path ''/d'') ''16_9.MOV'') = ''/d/16_9.MOV''"
    "path_str (joinpath (Path ''/d'') ''1_1.MOV'') = ''/d/1_1.MOV''"
    "path_str (joinpath (Path ''/d'') ''9_16.MOV'') = ''/d/9_16.MOV''"
    by (simp_all add: joinpath_def Path_def startswith_def path_str_def)
  have missing: "filter (\<lambda>f. \<not> path_exists w2 (path_str (joinpath (Path ''/d'') f)))
      files_to_convert = [''9_16.MOV'']"
    by (simp add: files_to_convert_def names path_exists_def w2_def demo_world_def)
  have second: "convert_batch_main demo_service (Path ''/d'') w2 =
      (Inr (Missing_inputs [''9_16.MOV'']),
       say (Msg_missing [''9_16.MOV'']) (say Msg_batch_header w2))"
    using fixed_list_guard [of w2 "Path ''/d''" demo_service] by (simp add: missing)
  have c4: "fst (convert_batch_main demo_service (Path ''/d'') w2) =
      Inr (Missing_inputs [''9_16.MOV''])"
    and c5: "out (snd (convert_batch_main demo_service (Path ''/d'') w2)) =
       [Msg_batch_header, Msg_missing [''9_16.MOV'']]"
    and c6: "svc_calls (snd (convert_batch_main demo_service (Path ''/d'') w2)) = []"
    by (simp_all add: second) (simp_all add: w2_def demo_world_def)
  show ?thesis
    unfolding w2_def [symmetric]
    by (intro conjI) (fact x, fact first(1), fact first(2), fact c4, fact c5, fact c6)
qed

text \<open>
  C3 (amended). The loop of the folder batch is the Batch Runner of the specification on the
  jobs it forms, one per file, in the order of the list, each with the file as input and
  \<^verbatim>\<open>output_folder/stem.mp4\<close> as output: the same calls of the library, the same files and the
  same world apart from the console; as many results as files, whatever the jobs did; the
  tally grows by the number of jobs that succeeded. On the console the loop leaves one header
  and one verdict per file, numbered in that order, the verdict being the result of the job.
  K jobs find their input missing (each says so and fails) and E jobs fail later with a caught
  error; N - K - E succeed, which is N - K exactly when E is 0.

  A run of the folder batch whose \<^verbatim>\<open>os.makedirs\<close> does not raise, that finds files which are
  all still there for the listing, and whose question is answered with \<^verbatim>\<open>y\<close>, completes: it
  is this loop on the files found after \<^verbatim>\<open>os.makedirs\<close>, started at 1 with a tally of 0, and
  it reports the number of succeeded jobs and the number of files.

  The fixed list is different: it looks for all its inputs first and, when any is missing,
  names them and returns without starting a job.
\<close>

theorem batch_runs_every_job:
  assumes "d = (case output_folder of None \<Rightarrow> input_folder | Some x \<Rightarrow> x)"
  shows "(case spec_batch_runner svc (folder_jobs d meth fs) w of
            (results, ws) \<Rightarrow>
              (case batch_loop svc d meth n i fs (c, w) of
                 (c', w') \<Rightarrow>
                   w'\<lparr>out := []\<rparr> = ws\<lparr>out := []\<rparr>
                   \<and> c' = c + succeeded_count results
                   \<and> total_jobs results = length fs
                   \<and> map of_input results = map path_str fs
                   \<and> prefix (out w) (out w')
                   \<and> headers (added w w') = zip [i ..< i + length fs] (map path_name fs)
                   \<and> verdicts (added w w') =
                       zip [i ..< i + length fs] (map succeeded results)
                   \<and> not_found_count (added w w') = missing_count results
                   \<and> error_count (added w w') = failed_count results
                   \<and> (\<forall>r \<in> set results. \<not> input_found r \<longrightarrow> \<not> succeeded r)
                   \<and> succeeded_count results + missing_count results + failed_count results =
                       total_jobs results
                   \<and> (succeeded_count results = total_jobs results - missing_count results) =
                       (failed_count results = 0)))
         \<and> (makedirs d w = Inr w1
             \<and> get_unique_mov_files w1 input_folder \<noteq> []
             \<and> list_all (\<lambda>f. path_exists w1 (path_str f)) (get_unique_mov_files w1 input_folder)
             \<and> stdin w = response # rest \<and> py_lower response = ''y'' \<longrightarrow>
            (case spec_batch_runner svc
                    (folder_jobs d meth (get_unique_mov_files w1 input_folder))
                    (w1\<lparr>stdin := rest\<rparr>) of
               (results, ws) \<Rightarrow>
                 fst (batch_convert_lossless svc input_folder output_folder meth w) =
                   Inr (Completed (succeeded_count results) (total_jobs results))
                 \<and> total_jobs results = length (get_unique_mov_files w1 input_folder)
                 \<and> (snd (batch_convert_lossless svc input_folder output_folder meth w))
                       \<lparr>out := []\<rparr> = ws\<lparr>out := []\<rparr>
                 \<and> headers (added w
                       (snd (batch_convert_lossless svc input_folder output_folder meth w))) =
                     zip [1 ..< Suc (total_jobs results)]
                       (map path_name (get_unique_mov_files w1 input_folder))
                 \<and> verdicts (added w
                       (snd (batch_convert_lossless svc input_folder output_folder meth w))) =
                     zip [1 ..< Suc (total_jobs results)] (map succeeded results)
                 \<and> Msg_summary (succeeded_count results) (total_jobs results)
                     \<in> set (added w
                          (snd (batch_convert_lossless svc input_folder output_folder meth w)))))
         \<and> (filter (\<lambda>f. \<not> path_exists w (path_str (joinpath current_dir f))) files_to_convert
               \<noteq> [] \<longrightarrow>
            convert_batch_main svc current_dir w =
              (Inr (Missing_inputs
                 (filter (\<lambda>f. \<not> path_exists w (path_str (joinpath current_dir f)))
                    files_to_convert)),
               say (Msg_missing
                     (filter (\<lambda>f. \<not> path_exists w (path_str (joinpath current_dir f)))
                        files_to_convert))
                 (say Msg_batch_header w)))"
proof -
  have loop: "case spec_batch_runner svc (folder_jobs d meth fs) w of
            (results, ws) \<Rightarrow>
              (case batch_loop svc d meth n i fs (c, w) of
                 (c', w') \<Rightarrow>
                   w'\<lparr>out := []\<rparr> = ws\<lparr>out := []\<rparr>
                   \<and> c' = c + succeeded_count results
                   \<and> total_jobs results = length fs
                   \<and> map of_input results = map path_str fs
                   \<and> prefix (out w) (out w')
                   \<and> headers (added w w') = zip [i ..< i + length fs] (map path_name fs)
                   \<and> verdicts (added w w') =
                       zip [i ..< i + length fs] (map succeeded results)
                   \<and> not_found_count (added w w') = missing_count results
                   \<and> error_count (added w w') = failed_count results
                   \<and> (\<forall>r \<in> set results. \<not> input_found r \<longrightarrow> \<not> succeeded r)
                   \<and> succeeded_count results + missing_count results + failed_count results =
                       total_jobs results
                   \<and> (succeeded_count results = total_jobs results - missing_count results) =
                       (failed_count results = 0))"
  proof -
    obtain results ws where s: "spec_batch_runner svc (folder_jobs d meth fs) w = (results, ws)"
      by (cases "spec_batch_runner svc (folder_jobs d meth fs) w")
    obtain c' w' where b: "batch_loop svc d meth n i fs (c, w) = (c', w')"
      by (cases "batch_loop svc d meth n i fs (c, w)")
    from spec_results [of svc "folder_jobs d meth fs" w] s
    have inputs: "map of_input results = map path_str fs"
      and missing: "\<forall>r \<in> set results. \<not> input_found r \<longrightarrow> \<not> succeeded r"
      by (simp_all add: folder_jobs_def comp_def)
    from inputs have len: "total_jobs results = length fs"
      unfolding total_jobs_def by (rule map_eq_imp_length_eq)
    note tally = tally_partition [OF missing]
    note exact = tally_exact [OF tally]
    note facts = batch_loop_spec [OF s b]
    show ?thesis
      unfolding s b prod.case
      by (intro conjI)
         (fact facts(1), fact facts(2), fact len, fact inputs, fact facts(3), fact facts(4),
          fact facts(5), fact facts(6), fact facts(7), fact missing, fact tally, fact exact)
  qed
  have whole: "case spec_batch_runner svc
                    (folder_jobs d meth (get_unique_mov_files w1 input_folder))
                    (w1\<lparr>stdin := rest\<rparr>) of
               (results, ws) \<Rightarrow>
                 fst (batch_convert_lossless svc input_folder output_folder meth w) =
                   Inr (Completed (succeeded_count results) (total_jobs results))
                 \<and> total_jobs results = length (get_unique_mov_files w1 input_folder)
                 \<and> (snd (batch_convert_lossless svc input_folder output_folder meth w))
                       \<lparr>out := []\<rparr> = ws\<lparr>out := []\<rparr>
                 \<and> headers (added w
                       (snd (batch_convert_lossless svc input_folder output_folder meth w))) =
                     zip [1 ..< Suc (total_jobs results)]
                       (map path_name (get_unique_mov_files w1 input_folder))
                 \<and> verdicts (added w
                       (snd (batch_convert_lossless svc input_folder output_folder meth w))) =
                     zip [1 ..< Suc (total_jobs results)] (map succeeded results)
                 \<and> Msg_summary (succeeded_count results) (total_jobs results)
                     \<in> set (added w
                          (snd (batch_convert_lossless svc input_folder output_folder meth w)))"
    if pre: "makedirs d w = Inr w1
             \<and> get_unique_mov_files w1 input_folder \<noteq> []
             \<and> list_all (\<lambda>f. path_exists w1 (path_str f)) (get_unique_mov_files w1 input_folder)
             \<and> stdin w = response # rest \<and> py_lower response = ''y''"
  proof -
    define U where "U = get_unique_mov_files w1 input_folder"
    obtain results ws where s: "spec_batch_runner svc (folder_jobs d meth U)
        (w1\<lparr>stdin := rest\<rparr>) = (results, ws)"
      by (cases "spec_batch_runner svc (folder_jobs d meth U) (w1\<lparr>stdin := rest\<rparr>)")
    from spec_results [of svc "folder_jobs d meth U" "w1\<lparr>stdin := rest\<rparr>"] s
    have "map of_input results = map path_str U"
      by (simp add: folder_jobs_def comp_def)
    then have len: "total_jobs results = length U"
      unfolding total_jobs_def by (rule map_eq_imp_length_eq)
    from pre have p: "makedirs d w = Inr w1" "get_unique_mov_files w1 input_folder \<noteq> []"
      "list_all (\<lambda>f. path_exists w1 (path_str f)) (get_unique_mov_files w1 input_folder)"
      "stdin w = response # rest" "py_lower response = ''y''"
      by simp_all
    from batch_completes [OF assms p s [unfolded U_def]]
    obtain ms where ms:
      "batch_convert_lossless svc input_folder output_folder meth w =
         (Inr (Completed (succeeded_count results) (length U)), ws\<lparr>out := out w @ ms\<rparr>)"
      "headers ms = zip [1 ..< Suc (length U)] (map path_name U)"
      "verdicts ms = zip [1 ..< Suc (length U)] (map succeeded results)"
      "Msg_summary (succeeded_count results) (length U) \<in> set ms"
      unfolding U_def [symmetric] by blast
    have a: "added w (snd (batch_convert_lossless svc input_folder output_folder meth w)) = ms"
      by (simp add: ms(1) added_def)
    show ?thesis
      unfolding U_def [symmetric] s prod.case a len
      using ms(2-4) by (simp add: ms(1))
  qed
  note fixed = fixed_list_guard [of w current_dir svc]
  from loop whole fixed show ?thesis
    by blast
qed

theorem batch_runs_every_job_witness:
  "fst (batch_loop picky_service ''/o'' ''high_quality'' 3 1
          [Path ''/d/a.mov'', Path ''/d/gone.mov'', Path ''/d/c.mov''] (0, batch_world)) = 1
   \<and> svc_calls (snd (batch_loop picky_service ''/o'' ''high_quality'' 3 1
          [Path ''/d/a.mov'', Path ''/d/gone.mov'', Path ''/d/c.mov''] (0, batch_world))) =
       [Open_clip ''/d/a.mov'',
        Write_videofile ''/d/a.mov''
          \<lparr>req_output = ''/o/a.mp4'', req_codec = Some ''libx264'',
           req_audio_codec = Some ''aac'',
           req_ffmpeg_params =
             [''-preset'', ''slow'', ''-crf'', ''15'', ''-threads'', ''8'',
              ''-movflags'', ''+faststart'', ''-pix_fmt'', ''yuv420p'']\<rparr>,
        Open_clip ''/d/c.mov'']
   \<and> files (snd (batch_loop picky_service ''/o'' ''high_quality'' 3 1
          [Path ''/d/a.mov'', Path ''/d/gone.mov'', Path ''/d/c.mov''] (0, batch_world))) =
       (files batch_world)(''/o/a.mp4'' \<mapsto> ''mp4'')
   \<and> headers (added batch_world (snd (batch_loop picky_service ''/o'' ''high_quality'' 3 1
          [Path ''/d/a.mov'', Path ''/d/gone.mov'', Path ''/d/c.mov''] (0, batch_world)))) =
       [(1, ''a.mov''), (2, ''gone.mov''), (3, ''c.mov'')]
   \<and> verdicts (added batch_world (snd (batch_loop picky_service ''/o'' ''high_quality'' 3 1
          [Path ''/d/a.mov'', Path ''/d/gone.mov'', Path ''/d/c.mov''] (0, batch_world)))) =
       [(1, True), (2, False), (3, False)]
   \<and> not_found_count (added batch_world (snd (batch_loop picky_service ''/o'' ''high_quality''
          3 1 [Path ''/d/a.mov'', Path ''/d/gone.mov'', Path ''/d/c.mov''] (0, batch_world)))) = 1
   \<and> error_count (added batch_world (snd (batch_loop picky_service ''/o'' ''high_quality''
          3 1 [Path ''/d/a.mov'', Path ''/d/gone.mov'', Path ''/d/c.mov''] (0, batch_world)))) = 1
   \<and> fst (spec_batch_runner picky_service
          (folder_jobs ''/o'' ''high_quality''
             [Path ''/d/a.mov'', Path ''/d/gone.mov'', Path ''/d/c.mov'']) batch_world) =
       [\<lparr>of_input = ''/d/a.mov'', input_found = True, succeeded = True\<rparr>,
        \<lparr>of_input = ''/d/gone.mov'', input_found = False, succeeded = False\<rparr>,
        \<lparr>of_input = ''/d/c.mov'', input_found = True, succeeded = False\<rparr>]
   \<and> makedirs ''/o'' batch_world =
       Inr (batch_world\<lparr>dirs := insert ''/o'' (dirs batch_world),
                         scandir := (scandir batch_world)(''/'' := [''d'', ''o''])\<rparr>)
   \<and> get_unique_mov_files
        (batch_world\<lparr>dirs := insert ''/o'' (dirs batch_world),
                      scandir := (scandir batch_world)(''/'' := [''d'', ''o''])\<rparr>) ''/d'' =
       [Path ''/d/a.mov'', Path ''/d/c.mov'']
   \<and> stdin batch_world = [''y''] \<and> py_lower ''y'' = ''y''
   \<and> fst (batch_convert_lossless picky_service ''/d'' (Some ''/o'') ''high_quality''
        batch_world) = Inr (Completed 1 2)
   \<and> svc_calls (snd (batch_convert_lossless picky_service ''/d'' (Some ''/o'') ''high_quality''
        batch_world)) =
       [Open_clip ''/d/a.mov'',
        Write_videofile ''/d/a.mov''
          \<lparr>req_output = ''/o/a.mp4'', req_codec = Some ''libx264'',
           req_audio_codec = Some ''aac'',
           req_ffmpeg_params =
             [''-preset'', ''slow'', ''-crf'', ''15'', ''-threads'', ''8'',
              ''-movflags'', ''+faststart'', ''-pix_fmt'', ''yuv420p'']\<rparr>,
        Open_clip ''/d/c.mov'']
   \<and> files (snd (batch_convert_lossless picky_service ''/d'' (Some ''/o'') ''high_quality''
        batch_world)) = (files batch_world)(''/o/a.mp4'' \<mapsto> ''mp4'')
   \<and> headers (added batch_world (snd (batch_convert_lossless picky_service ''/d'' (Some ''/o'')
        ''high_quality'' batch_world))) = [(1, ''a.mov''), (2, ''c.mov'')]
   \<and> verdicts (added batch_world (snd (batch_convert_lossless picky_service ''/d'' (Some ''/o'')
        ''high_quality'' batch_world))) = [(1, True), (2, False)]
   \<and> Msg_summary 1 2 \<in> set (added batch_world (snd (batch_convert_lossless picky_service ''/d''
        (Some ''/o'') ''high_quality'' batch_world)))
   \<and> fst (convert_batch_main picky_service (Path ''/d'') batch_world) =
       Inr (Missing_inputs [''16_9.MOV'', ''1_1.MOV'', ''9_16.MOV''])"
proof -
  define fs where "fs = [Path ''/d/a.mov'', Path ''/d/gone.mov'', Path ''/d/c.mov'']"
  define w1 where "w1 = batch_world\<lparr>dirs := insert ''/o'' (dirs batch_world),
                         scandir := (scandir batch_world)(''/'' := [''d'', ''o''])\<rparr>"
  define calls where "calls = [Open_clip ''/d/a.mov'',
        Write_videofile ''/d/a.mov''
          \<lparr>req_output = ''/o/a.mp4'', req_codec = Some ''libx264'',
           req_audio_codec = Some ''aac'',
           req_ffmpeg_params =
             [''-preset'', ''slow'', ''-crf'', ''15'', ''-threads'', ''8'',
              ''-movflags'', ''+faststart'', ''-pix_fmt'', ''yuv420p'']\<rparr>,
        Open_clip ''/d/c.mov'']"
  define results where "results =
       [\<lparr>of_input = ''/d/a.mov'', input_found = True, succeeded = True\<rparr>,
        \<lparr>of_input = ''/d/gone.mov'', input_found = False, succeeded = False\<rparr>,
        \<lparr>of_input = ''/d/c.mov'', input_found = True, succeeded = False\<rparr>]"
  define results' where "results' =
       [\<lparr>of_input = ''/d/a.mov'', input_found = True, succeeded = True\<rparr>,
        \<lparr>of_input = ''/d/c.mov'', input_found = True, succeeded = False\<rparr>]"
  have fields: "''/d/gone.mov'' \<notin> dirs batch_world" "''/o/a.mp4'' \<notin> dirs batch_world"
    "''/o/c.mp4'' \<notin> dirs batch_world" "cpu_count batch_world = Some 8"
    "svc_calls batch_world = []" "stdin batch_world = [''y'']"
    "scandir batch_world ''/d'' = [''a.mov'', ''c.mov'']" "glob_case_sensitive batch_world"
    "realpath batch_world = (\<lambda>p. p)" "str_lower batch_world = py_lower"
    "files batch_world ''/d/a.mov'' = Some ''first''"
    "files batch_world ''/d/c.mov'' = Some ''third''"
    by (simp_all add: batch_world_def demo_world_def)
  have counts: "succeeded_count results = 1" "missing_count results = 1"
    "failed_count results = 1" "total_jobs results = 3"
    "succeeded_count results' = 1" "total_jobs results' = 2"
    by (simp_all add: results_def results'_def succeeded_count_def missing_count_def
        failed_count_def total_jobs_def)
  have names: "map path_name fs = [''a.mov'', ''gone.mov'', ''c.mov'']"
    "map path_name [Path ''/d/a.mov'', Path ''/d/c.mov''] = [''a.mov'', ''c.mov'']"
    "length fs = 3"
    by (simp_all add: fs_def batch_paths)
  have ranges: "[Suc 0 ..< 4] = [Suc 0, 2, 3]" "[Suc 0 ..< 3] = [Suc 0, 2]"
    by (simp_all add: upt_rec)
  from picky_jobs(1) [OF refl fields(1-5)]
  obtain ws where s: "spec_batch_runner picky_service (folder_jobs ''/o'' ''high_quality'' fs)
      batch_world = (results, ws)"
    and ws: "files ws = (files batch_world)(''/o/a.mp4'' \<mapsto> ''mp4'')" "svc_calls ws = calls"
    unfolding fs_def results_def calls_def by blast
  obtain c' w' where b: "batch_loop picky_service ''/o'' ''high_quality'' 3 1 fs (0, batch_world)
      = (c', w')"
    by (cases "batch_loop picky_service ''/o'' ''high_quality'' 3 1 fs (0, batch_world)")
  have d: "''/o'' = (case Some ''/o'' of None \<Rightarrow> ''/d'' | Some x \<Rightarrow> x)"
    by simp
  note inst = batch_runs_every_job [OF d, where svc = picky_service
      and meth = "''high_quality''" and fs = fs and w = batch_world and n = 3 and i = 1
      and c = 0 and ?w1.0 = w1 and response = "''y''" and rest = "[]"
      and current_dir = "Path ''/d''"]
  from inst [THEN conjunct1, unfolded s b prod.case]
  have loop: "w'\<lparr>out := []\<rparr> = ws\<lparr>out := []\<rparr>" "c' = succeeded_count results"
    "headers (added batch_world w') = zip [1 ..< 1 + length fs] (map path_name fs)"
    "verdicts (added batch_world w') = zip [1 ..< 1 + length fs] (map succeeded results)"
    "not_found_count (added batch_world w') = missing_count results"
    "error_count (added batch_world w') = failed_count results"
    by simp_all
  from loop(1) have same: "svc_calls w' = svc_calls ws" "files w' = files ws"
    by (auto dest: arg_cong [of _ _ svc_calls] arg_cong [of _ _ files])
  have l1: "fst (batch_loop picky_service ''/o'' ''high_quality'' 3 1 fs (0, batch_world)) = 1"
    and l2: "svc_calls (snd (batch_loop picky_service ''/o'' ''high_quality'' 3 1 fs
        (0, batch_world))) = calls"
    and l3: "files (snd (batch_loop picky_service ''/o'' ''high_quality'' 3 1 fs
        (0, batch_world))) = (files batch_world)(''/o/a.mp4'' \<mapsto> ''mp4'')"
    and l4: "headers (added batch_world (snd (batch_loop picky_service ''/o'' ''high_quality'' 3 1
        fs (0, batch_world)))) = [(1, ''a.mov''), (2, ''gone.mov''), (3, ''c.mov'')]"
    and l5: "verdicts (added batch_world (snd (batch_loop picky_service ''/o'' ''high_quality'' 3 1
        fs (0, batch_world)))) = [(1, True), (2, False), (3, False)]"
    and l6: "not_found_count (added batch_world (snd (batch_loop picky_service ''/o''
        ''high_quality'' 3 1 fs (0, batch_world)))) = 1"
    and l7: "error_count (added batch_world (snd (batch_loop picky_service ''/o''
        ''high_quality'' 3 1 fs (0, batch_world)))) = 1"
    and l8: "fst (spec_batch_runner picky_service (folder_jobs ''/o'' ''high_quality'' fs)
        batch_world) = results"
    unfolding b s using loop same ws
    by (simp_all add: counts names ranges) (simp_all add: results_def)
  have mk: "makedirs ''/o'' batch_world = Inr w1"
    by (simp add: makedirs_def Path_def startswith_def path_str_def Let_def w1_def
        batch_world_def demo_world_def)
  have w1: "scandir w1 ''/d'' = [''a.mov'', ''c.mov'']" "glob_case_sensitive w1"
    "realpath w1 = (\<lambda>p. p)" "str_lower w1 = py_lower" "files w1 = files batch_world"
    "''/d/gone.mov'' \<notin> dirs w1" "''/o/a.mp4'' \<notin> dirs w1" "''/o/c.mp4'' \<notin> dirs w1"
    "cpu_count w1 = Some 8" "svc_calls w1 = []"
    by (simp_all add: w1_def fields)
  have matches: "fnmatch True ''a.mov'' ''*.mov''" "fnmatch True ''c.mov'' ''*.mov''"
    by (simp_all add: fnmatch_def endswith_def)
  have lower: "py_lower ''/d/a.mov'' = ''/d/a.mov''" "py_lower ''/d/c.mov'' = ''/d/c.mov''"
    by (simp_all add: py_lower_def lower_char_def)
  have found: "get_unique_mov_files w1 ''/d'' = [Path ''/d/a.mov'', Path ''/d/c.mov'']"
    by (simp add: get_unique_mov_files_def glob_mov_files_def glob_def batch_paths w1 matches
        lower Let_def)
  have present: "list_all (\<lambda>f. path_exists w1 (path_str f))
      [Path ''/d/a.mov'', Path ''/d/c.mov'']"
    by (simp add: batch_paths path_exists_def w1 fields)
  have yes: "py_lower ''y'' = ''y''"
    by (simp add: py_lower_def lower_char_def)
  from picky_jobs(2) [of "w1\<lparr>stdin := []\<rparr>"] w1
  obtain ws' where s': "spec_batch_runner picky_service
      (folder_jobs ''/o'' ''high_quality'' [Path ''/d/a.mov'', Path ''/d/c.mov''])
      (w1\<lparr>stdin := []\<rparr>) = (results', ws')"
    and ws': "files ws' = (files batch_world)(''/o/a.mp4'' \<mapsto> ''mp4'')" "svc_calls ws' = calls"
    unfolding results'_def calls_def by auto
  define R where "R = batch_convert_lossless picky_service ''/d'' (Some ''/o'') ''high_quality''
      batch_world"
  have pre: "makedirs ''/o'' batch_world = Inr w1
      \<and> get_unique_mov_files w1 ''/d'' \<noteq> []
      \<and> list_all (\<lambda>f. path_exists w1 (path_str f)) (get_unique_mov_files w1 ''/d'')
      \<and> stdin batch_world = ''y'' # [] \<and> py_lower ''y'' = ''y''"
    using mk present fields(6) yes by (simp add: found)
  note whole0 = inst [THEN conjunct2, THEN conjunct1, THEN mp, OF pre,
      unfolded found s' prod.case R_def [symmetric]]
  have whole: "fst R = Inr (Completed (succeeded_count results') (total_jobs results'))"
    "(snd R)\<lparr>out := []\<rparr> = ws'\<lparr>out := []\<rparr>"
    "headers (added batch_world (snd R)) =
       zip [1 ..< Suc (total_jobs results')] (map path_name [Path ''/d/a.mov'', Path ''/d/c.mov''])"
    "verdicts (added batch_world (snd R)) =
       zip [1 ..< Suc (total_jobs results')] (map succeeded results')"
    "Msg_summary (succeeded_count results') (total_jobs results') \<in> set (added batch_world (snd R))"
    using whole0 by blast+
  from whole(2) have same': "svc_calls (snd R) = svc_calls ws'" "files (snd R) = files ws'"
    by (auto dest: arg_cong [of _ _ svc_calls] arg_cong [of _ _ files])
  have r1: "fst R = Inr (Completed 1 2)"
    and r2: "svc_calls (snd R) = calls"
    and r3: "files (snd R) = (files batch_world)(''/o/a.mp4'' \<mapsto> ''mp4'')"
    and r4: "headers (added batch_world (snd R)) = [(1, ''a.mov''), (2, ''c.mov'')]"
    and r5: "verdicts (added batch_world (snd R)) = [(1, True), (2, False)]"
    and r6: "Msg_summary 1 2 \<in> set (added batch_world (snd R))"
    using whole same' ws'
    by (simp_all add: counts names ranges batch_paths) (simp_all add: results'_def)
  have paths: "path_str (joinpath (Path ''/d'') ''16_9.MOV'') = ''/d/16_9.MOV''"
    "path_str (joinpath (Path ''/d'') ''1_1.MOV'') = ''/d/1_1.MOV''"
    "path_str (joinpath (Path ''/d'') ''9_16.MOV'') = ''/d/9_16.MOV''"
    by (simp_all add: joinpath_def Path_def startswith_def path_str_def)
  have missing: "filter (\<lambda>f. \<not> path_exists batch_world (path_str (joinpath (Path ''/d'') f)))
      files_to_convert = [''16_9.MOV'', ''1_1.MOV'', ''9_16.MOV'']"
    by (simp add: files_to_convert_def paths path_exists_def batch_world_def demo_world_def)
  from inst [THEN conjunct2, THEN conjunct2] missing
  have f1: "fst (convert_batch_main picky_service (Path ''/d'') batch_world) =
       Inr (Missing_inputs [''16_9.MOV'', ''1_1.MOV'', ''9_16.MOV''])"
    by simp
  show ?thesis
    unfolding fs_def [symmetric] w1_def [symmetric] calls_def [symmetric]
      results_def [symmetric] R_def [symmetric]
    by (intro conjI)
       (fact l1, fact l2, fact l3, fact l4, fact l5, fact l6, fact l7, fact l8, fact mk,
        fact found, fact fields(6), fact yes, fact r1, fact r2, fact r3, fact r4, fact r5,
        fact r6, fact f1)
qed

section \<open>The fixed list and the audio flag\<close>

lemma call_convert_unknown_keyword:
  assumes "k \<in> fst ` set kwargs" and "k \<notin> set convert_parameters"
  shows "call_convert svc args kwargs w = (Inl TypeError, w)"
proof -
  have "list_ex (\<lambda>k. k \<notin> set convert_parameters) (map fst kwargs)"
    using assms by (auto simp: list_ex_iff)
  then have "bind_arguments convert_parameters convert_defaults args kwargs = Inl TypeError"
    by (simp add: bind_arguments_def Let_def)
  then show ?thesis
    by (simp add: call_convert_def)
qed

lemma fixed_loop_raises:
  "fixed_loop svc current_dir n i (filename # rest) success_count w =
     (Inl TypeError, say (Msg_processing i n filename) w)"
proof -
  have "call_convert svc
      [PyStr (path_str (joinpath current_dir filename)),
       PyStr (path_str (joinpath current_dir (path_stem (Path filename) @ ''.mp4'')))]
      [(''method'', PyStr ''high_quality''), (''remove_audio'', PyBool True)] w' =
      (Inl TypeError, w')" for w'
    by (rule call_convert_unknown_keyword [of "''remove_audio''"])
       (simp_all add: convert_parameters_def)
  then have "then_do (call_convert svc
      [PyStr (path_str (joinpath current_dir filename)),
       PyStr (path_str (joinpath current_dir (path_stem (Path filename) @ ''.mp4'')))]
      [(''method'', PyStr ''high_quality''), (''remove_audio'', PyBool True)]) f w' =
      (Inl TypeError, w')" for f :: "bool \<Rightarrow> nat stmt" and w'
    by (simp add: then_do_def)
  then show ?thesis
    by simp
qed

text \<open>
  C2, on the code. The job function has three parameters and no audio flag, so the call of
  convert\_batch.py with \<^verbatim>\<open>remove_audio=True\<close> raises \<^verbatim>\<open>TypeError\<close> before the body runs: with
  its three inputs present the fixed list ends in that error at its first file, having
  called the transcoding library for nothing and written nothing. The same call without the
  keyword does run, and asks for the aac audio codec.
\<close>

theorem remove_audio_keyword_rejected:
  "call_convert demo_service [PyStr ''/d/16_9.MOV'', PyStr ''/d/16_9.mp4'']
      [(''method'', PyStr ''high_quality''), (''remove_audio'', PyBool True)]
      (demo_world\<lparr>files := [''/d/16_9.MOV'' \<mapsto> ''a'', ''/d/1_1.MOV'' \<mapsto> ''b'',
                               ''/d/9_16.MOV'' \<mapsto> ''c'']\<rparr>) =
     (Inl TypeError,
      demo_world\<lparr>files := [''/d/16_9.MOV'' \<mapsto> ''a'', ''/d/1_1.MOV'' \<mapsto> ''b'',
                             ''/d/9_16.MOV'' \<mapsto> ''c'']\<rparr>)
   \<and> fst (convert_batch_main demo_service (Path ''/d'')
        (demo_world\<lparr>files := [''/d/16_9.MOV'' \<mapsto> ''a'', ''/d/1_1.MOV'' \<mapsto> ''b'',
                                 ''/d/9_16.MOV'' \<mapsto> ''c'']\<rparr>)) = Inl TypeError
   \<and> out (snd (convert_batch_main demo_service (Path ''/d'')
        (demo_world\<lparr>files := [''/d/16_9.MOV'' \<mapsto> ''a'', ''/d/1_1.MOV'' \<mapsto> ''b'',
                                 ''/d/9_16.MOV'' \<mapsto> ''c'']\<rparr>))) =
       [Msg_batch_header, Msg_all_found 3, Msg_processing 1 3 ''16_9.MOV'']
   \<and> svc_calls (snd (convert_batch_main demo_service (Path ''/d'')
        (demo_world\<lparr>files := [''/d/16_9.MOV'' \<mapsto> ''a'', ''/d/1_1.MOV'' \<mapsto> ''b'',
                                 ''/d/9_16.MOV'' \<mapsto> ''c'']\<rparr>))) = []
   \<and> files (snd (convert_batch_main demo_service (Path ''/d'')
        (demo_world\<lparr>files := [''/d/16_9.MOV'' \<mapsto> ''a'', ''/d/1_1.MOV'' \<mapsto> ''b'',
                                 ''/d/9_16.MOV'' \<mapsto> ''c'']\<rparr>))) ''/d/16_9.mp4'' = None
   \<and> svc_calls (snd (call_convert demo_service [PyStr ''/d/16_9.MOV'', PyStr ''/d/16_9.mp4'']
        [(''method'', PyStr ''high_quality'')]
        (demo_world\<lparr>files := [''/d/16_9.MOV'' \<mapsto> ''a'', ''/d/1_1.MOV'' \<mapsto> ''b'',
                                 ''/d/9_16.MOV'' \<mapsto> ''c'']\<rparr>))) =
       [Open_clip ''/d/16_9.MOV'',
        Write_videofile ''/d/16_9.MOV''
          \<lparr>req_output = ''/d/16_9.mp4'', req_codec = Some ''libx264'',
           req_audio_codec = Some ''aac'',
           req_ffmpeg_params =
             [''-preset'', ''slow'', ''-crf'', ''15'', ''-threads'', ''8'',
              ''-movflags'', ''+faststart'', ''-pix_fmt'', ''yuv420p'']\<rparr>]"
proof -
  define w where "w = demo_world\<lparr>files := [''/d/16_9.MOV'' \<mapsto> ''a'', ''/d/1_1.MOV'' \<mapsto> ''b'',
                               ''/d/9_16.MOV'' \<mapsto> ''c'']\<rparr>"
  have rejected: "call_convert demo_service [PyStr ''/d/16_9.MOV'', PyStr ''/d/16_9.mp4'']
      [(''method'', PyStr ''high_quality''), (''remove_audio'', PyBool True)] w =
      (Inl TypeError, w)"
    by (rule call_convert_unknown_keyword [of "''remove_audio''"])
       (simp_all add: convert_parameters_def)
  have names: "path_str (joinpath (Path ''/d'') ''16_9.MOV'') = ''/d/16_9.MOV''"
    "path_str (joinpath (Path ''/d'') ''1_1.MOV'') = ''/d/1_1.MOV''"
    "path_str (joinpath (Path ''/d'') ''9_16.MOV'') = ''/d/9_16.MOV''"
    by (simp_all add: joinpath_def Path_def startswith_def path_str_def)
  have present: "filter (\<lambda>f. \<not> path_exists w (path_str (joinpath (Path ''/d'') f)))
      files_to_convert = []"
    by (simp add: files_to_convert_def names path_exists_def w_def demo_world_def)
  have "fixed_loop demo_service (Path ''/d'') n i files_to_convert 0 w' =
      (Inl TypeError, say (Msg_processing i n ''16_9.MOV'') w')" for n i w'
    unfolding files_to_convert_def by (rule fixed_loop_raises)
  then have loop: "then_do (fixed_loop demo_service (Path ''/d'') n i files_to_convert 0) f w' =
      (Inl TypeError, say (Msg_processing i n ''16_9.MOV'') w')"
    for n i w' and f :: "nat \<Rightarrow> fixed_outcome stmt"
    by (simp add: then_do_def)
  have len: "length files_to_convert = 3"
    by (simp add: files_to_convert_def)
  have main: "convert_batch_main demo_service (Path ''/d'') w =
      (Inl TypeError,
       say (Msg_processing 1 3 ''16_9.MOV'') (say (Msg_all_found 3) (say Msg_batch_header w)))"
    using present
    by (simp add: convert_batch_main_def Let_def loop len)
  have eight: "str_nat 8 = ''8''"
    by (simp add: str_nat.simps digit_char_def)
  have pre: "path_exists w ''/d/16_9.MOV''" "\<not> path_exists w ''/d/16_9.mp4''"
    "open_clip demo_service ''/d/16_9.MOV'' (files w) = None"
    by (simp_all add: path_exists_def w_def demo_world_def demo_service_def)
  have bound: "bind_arguments convert_parameters convert_defaults
      [PyStr ''/d/16_9.MOV'', PyStr ''/d/16_9.mp4''] [(''method'', PyStr ''high_quality'')] =
      Inr ([(''input_path'', PyStr ''/d/16_9.MOV''), (''output_path'', PyStr ''/d/16_9.mp4'')]
           @ [(''method'', PyStr ''high_quality'')] @ convert_defaults)"
    by (simp add: bind_arguments_def convert_parameters_def convert_defaults_def)
  have accepted: "svc_calls (snd (call_convert demo_service
      [PyStr ''/d/16_9.MOV'', PyStr ''/d/16_9.mp4''] [(''method'', PyStr ''high_quality'')] w)) =
      svc_calls (snd (convert_mov_to_mp4_lossless demo_service ''/d/16_9.MOV''
        (Some ''/d/16_9.mp4'') ''high_quality'' w))"
    by (simp add: call_convert_def bound convert_any_def py_str_def split: prod.splits)
  show ?thesis
    unfolding w_def [symmetric] rejected main accepted convert_calls [OF pre]
    by (simp add: select_ffmpeg_params_def select_video_codec_def select_audio_codec_def
        str_cpu_count_def eight)
       (simp add: w_def demo_world_def eight)
qed

end
